theory Spec2Isabelle
  imports Complex_Main
begin

section \<open>NumPy floating-point values\<close>

text \<open>
  The particle coordinates of \<^verbatim>\<open>app.py\<close> are NumPy doubles. A double is modelled as a
  real number or one of the three non-finite values; rounding, overflow and the sign of
  zero are not modelled. Arithmetic on the non-finite values follows IEEE 754.
\<close>

datatype fl = Fin real | PInf | NInf | NaN

fun fl_neg :: "fl \<Rightarrow> fl" where
  "fl_neg (Fin a) = Fin (- a)"
| "fl_neg PInf = NInf"
| "fl_neg NInf = PInf"
| "fl_neg NaN = NaN"

fun fl_add :: "fl \<Rightarrow> fl \<Rightarrow> fl" where
  "fl_add (Fin a) (Fin b) = Fin (a + b)"
| "fl_add NaN _ = NaN"
| "fl_add _ NaN = NaN"
| "fl_add PInf NInf = NaN"
| "fl_add NInf PInf = NaN"
| "fl_add PInf _ = PInf"
| "fl_add _ PInf = PInf"
| "fl_add NInf _ = NInf"
| "fl_add _ NInf = NInf"

definition fl_sub :: "fl \<Rightarrow> fl \<Rightarrow> fl" where
  "fl_sub a b = fl_add a (fl_neg b)"

fun fl_mul :: "fl \<Rightarrow> fl \<Rightarrow> fl" where
  "fl_mul (Fin a) (Fin b) = Fin (a * b)"
| "fl_mul NaN _ = NaN"
| "fl_mul _ NaN = NaN"
| "fl_mul (Fin a) PInf = (if a = 0 then NaN else if 0 < a then PInf else NInf)"
| "fl_mul (Fin a) NInf = (if a = 0 then NaN else if 0 < a then NInf else PInf)"
| "fl_mul PInf (Fin b) = (if b = 0 then NaN else if 0 < b then PInf else NInf)"
| "fl_mul NInf (Fin b) = (if b = 0 then NaN else if 0 < b then NInf else PInf)"
| "fl_mul PInf PInf = PInf"
| "fl_mul NInf NInf = PInf"
| "fl_mul PInf NInf = NInf"
| "fl_mul NInf PInf = NInf"

fun fl_div :: "fl \<Rightarrow> fl \<Rightarrow> fl" where
  "fl_div (Fin a) (Fin b) =
     (if b = 0 then (if a = 0 then NaN else if 0 < a then PInf else NInf) else Fin (a / b))"
| "fl_div NaN _ = NaN"
| "fl_div _ NaN = NaN"
| "fl_div (Fin a) _ = Fin 0"
| "fl_div PInf (Fin b) = (if 0 \<le> b then PInf else NInf)"
| "fl_div NInf (Fin b) = (if 0 \<le> b then NInf else PInf)"
| "fl_div _ _ = NaN"

fun fl_le :: "fl \<Rightarrow> fl \<Rightarrow> bool" where
  "fl_le (Fin a) (Fin b) = (a \<le> b)"
| "fl_le NaN _ = False"
| "fl_le _ NaN = False"
| "fl_le NInf _ = True"
| "fl_le _ PInf = True"
| "fl_le _ _ = False"

text \<open>\<^verbatim>\<open>np.radians(x)\<close> is \<^verbatim>\<open>x * pi / 180\<close>.\<close>

fun fl_radians :: "fl \<Rightarrow> fl" where
  "fl_radians (Fin a) = Fin (a * pi / 180)"
| "fl_radians x = x"

text \<open>
  \<^verbatim>\<open>np.cos\<close> never returns 0 on a double, since no double is an odd multiple of \<open>pi / 2\<close>:
  \<^verbatim>\<open>np.cos(np.radians(90.0))\<close> is \<^verbatim>\<open>6.123233995736766e-17\<close>, and at the double nearest to
  \<open>(2 k + 1) pi / 2\<close> the result is \<open>(-1) ^ k (2 k + 1)\<close> times that number (\<^verbatim>\<open>-1.837e-16\<close>
  at 270 degrees). The model, whose radians are exact, takes these values where the real
  cosine vanishes. \<^verbatim>\<open>np.cos\<close> of a non-finite value is NaN.
\<close>

definition cos_at_root :: "real \<Rightarrow> real" where
  "cos_at_root a =
     (let k = \<lfloor>a / pi\<rfloor> in
      (if even k then 1 else - 1) * real_of_int (2 * k + 1) * (6123233995736766 / 10 ^ 32))"

fun fl_cos :: "fl \<Rightarrow> fl" where
  "fl_cos (Fin a) = Fin (if cos a = 0 then cos_at_root a else cos a)"
| "fl_cos _ = NaN"

section \<open>NumPy array operations used by the integrator\<close>

text \<open>\<^verbatim>\<open>np.where(mask)[0]\<close>: the indices at which the mask holds, ascending.\<close>

definition np_where :: "bool list \<Rightarrow> nat list" where
  "np_where msk = filter (\<lambda>i. msk ! i) [0..<length msk]"

text \<open>\<^verbatim>\<open>np.any(mask)\<close>.\<close>

definition np_any :: "bool list \<Rightarrow> bool" where
  "np_any msk = list_ex (\<lambda>b. b) msk"

text \<open>\<^verbatim>\<open>a[idx]\<close> with an index array (a gather).\<close>

definition take_idx :: "'a list \<Rightarrow> nat list \<Rightarrow> 'a list" where
  "take_idx a idx = map (\<lambda>i. a ! i) idx"

text \<open>\<^verbatim>\<open>a[idx] = vals\<close> with an index array (a scatter, in index order).\<close>

definition put_idx :: "'a list \<Rightarrow> nat list \<Rightarrow> 'a list \<Rightarrow> 'a list" where
  "put_idx a idx vals = fold (\<lambda>(i, v) acc. acc[i := v]) (zip idx vals) a"

text \<open>\<^verbatim>\<open>a[mask]\<close> with a boolean mask.\<close>

definition mask_get :: "'a list \<Rightarrow> bool list \<Rightarrow> 'a list" where
  "mask_get a msk = map fst (filter snd (zip a msk))"

text \<open>
  \<^verbatim>\<open>a[mask] = vals\<close> with a boolean mask: the selected positions take the values in
  order. NumPy requires as many values as selected positions; the integrator always
  passes \<^verbatim>\<open>a[mask] + b[mask]\<close>, which has that many.
\<close>

fun mask_set :: "'a list \<Rightarrow> bool list \<Rightarrow> 'a list \<Rightarrow> 'a list" where
  "mask_set (x # xs) (True # ms) (v # vs) = v # mask_set xs ms vs"
| "mask_set (x # xs) (False # ms) vs = x # mask_set xs ms vs"
| "mask_set xs _ _ = xs"

text \<open>\<^verbatim>\<open>a[mask] = c\<close> with a scalar.\<close>

definition mask_fill :: "'a list \<Rightarrow> bool list \<Rightarrow> 'a \<Rightarrow> 'a list" where
  "mask_fill a msk c = map2 (\<lambda>x m. if m then c else x) a msk"

datatype error = IndexError | ValueError | ZeroDivisionError | IOError

text \<open>\<^verbatim>\<open>a.min()\<close> and \<^verbatim>\<open>a.max()\<close> raise ValueError on an empty array.\<close>

definition np_min :: "real list \<Rightarrow> error + real" where
  "np_min a = (case a of [] \<Rightarrow> Inl ValueError | x # xs \<Rightarrow> Inr (fold min xs x))"

definition np_max :: "real list \<Rightarrow> error + real" where
  "np_max a = (case a of [] \<Rightarrow> Inl ValueError | x # xs \<Rightarrow> Inr (fold max xs x))"

text \<open>
  \<^verbatim>\<open>a[i]\<close> for a Python list or the first axis of an array: a negative index counts from
  the end; an index outside \<open>[-n, n)\<close> raises IndexError.
\<close>

definition py_index :: "'a list \<Rightarrow> int \<Rightarrow> error + 'a" where
  "py_index a i =
     (let n = int (length a) in
      if 0 \<le> i \<and> i < n then Inr (a ! nat i)
      else if - n \<le> i \<and> i < 0 then Inr (a ! nat (n + i))
      else Inl IndexError)"

text \<open>
  An array of at most three axes, by its number of axes. A three-axis array is a
  rectangular nested list; its shape is read off the first entry of each axis (an axis
  below an empty one has length 0).
\<close>

datatype 'a ndarray = Arr0 'a | Arr1 "'a list" | Arr2 "'a list list" | Arr3 "'a list list list"

definition np_shape :: "'a list list list \<Rightarrow> nat \<times> nat \<times> nat" where
  "np_shape A =
     (length A,
      (case A of [] \<Rightarrow> 0 | g # _ \<Rightarrow> length g),
      (case A of [] \<Rightarrow> 0 | g # _ \<Rightarrow> (case g of [] \<Rightarrow> 0 | r # _ \<Rightarrow> length r)))"

text \<open>\<^verbatim>\<open>a.squeeze()\<close> of a three-axis array: every axis of length one is removed.\<close>

definition squeeze :: "'a list list list \<Rightarrow> 'a ndarray" where
  "squeeze A =
     (case np_shape A of (n0, n1, n2) \<Rightarrow>
        if n0 = 1 then
          (if n1 = 1 then (if n2 = 1 then Arr0 (A ! 0 ! 0 ! 0) else Arr1 (A ! 0 ! 0))
           else if n2 = 1 then Arr1 (map (\<lambda>r. r ! 0) (A ! 0))
           else Arr2 (A ! 0))
        else if n1 = 1 then
          (if n2 = 1 then Arr1 (map (\<lambda>g. g ! 0 ! 0) A) else Arr2 (map (\<lambda>g. g ! 0) A))
        else if n2 = 1 then Arr2 (map (map (\<lambda>r. r ! 0)) A)
        else Arr3 A)"

text \<open>
  \<^verbatim>\<open>U[i, :, :]\<close>: NumPy raises IndexError (too many indices) on an array of fewer than
  three axes, and indexes the first axis otherwise.
\<close>

definition index3 :: "'a ndarray \<Rightarrow> int \<Rightarrow> error + 'a list list" where
  "index3 A i = (case A of Arr3 a \<Rightarrow> py_index a i | _ \<Rightarrow> Inl IndexError)"

text \<open>Sequencing of computations that may raise.\<close>

definition ebind :: "error + 'a \<Rightarrow> ('a \<Rightarrow> error + 'b) \<Rightarrow> error + 'b" where
  "ebind m f = (case m of Inl e \<Rightarrow> Inl e | Inr x \<Rightarrow> f x)"

section \<open>Python integer arithmetic\<close>

text \<open>
  \<^verbatim>\<open>math.ceil(a / b)\<close> and \<^verbatim>\<open>int(a / b)\<close> on Python integers: the true quotient, then
  the ceiling, respectively the truncation towards zero. The quotient is taken exactly (it
  is a double in the source; the model does not round it). Both raise ZeroDivisionError
  when \<open>b = 0\<close>.
\<close>

definition py_ceil_div :: "int \<Rightarrow> int \<Rightarrow> error + int" where
  "py_ceil_div a b =
     (if b = 0 then Inl ZeroDivisionError else Inr \<lceil>real_of_int a / real_of_int b\<rceil>)"

definition py_int_of_float :: "real \<Rightarrow> int" where
  "py_int_of_float x = (if 0 \<le> x then \<lfloor>x\<rfloor> else \<lceil>x\<rceil>)"

definition py_trunc_div :: "int \<Rightarrow> int \<Rightarrow> error + int" where
  "py_trunc_div a b =
     (if b = 0 then Inl ZeroDivisionError
      else Inr (py_int_of_float (real_of_int a / real_of_int b)))"

text \<open>\<^verbatim>\<open>range(a, b)\<close> and \<^verbatim>\<open>range(a, b, -1)\<close>.\<close>

definition py_range :: "int \<Rightarrow> int \<Rightarrow> int list" where
  "py_range a b = [a..b - 1]"

definition py_range_down :: "int \<Rightarrow> int \<Rightarrow> int list" where
  "py_range_down a b = rev [b + 1..a]"

section \<open>The trajectory integrator\<close>

text \<open>
  An interpolator is what \<^verbatim>\<open>RegularGridInterpolator((lat_nc, lon_nc), g, bounds_error=False,
  fill_value=0)\<close> returns: a function from a point \<open>(lat, lon)\<close> to the sampled value. SciPy
  gives NaN at a point with a NaN coordinate and the fill value at any other point outside
  the grid; the integrator only ever passes in-bounds points.
\<close>

type_synonym grid = "real list list"
type_synonym interp = "real \<times> real \<Rightarrow> real"

fun call_interp :: "interp \<Rightarrow> fl \<times> fl \<Rightarrow> fl" where
  "call_interp f (Fin a, Fin b) = Fin (f (a, b))"
| "call_interp f (NaN, _) = NaN"
| "call_interp f (_, NaN) = NaN"
| "call_interp f _ = Fin 0"

text \<open>
  One entry of \<^verbatim>\<open>dates\<close>: \<^verbatim>\<open>(ref_date + timedelta(hours=h)).strftime('%Y-%m-%d')\<close>, kept
  as the start date string and the hour offset \<open>h\<close> (the calendar arithmetic is the
  \<^verbatim>\<open>datetime\<close> library's).
\<close>

datatype stamp = Stamp string int

record sim_state =
  lonP :: "fl list"
  latP :: "fl list"
  LONP :: "fl list list"
  LATP :: "fl list list"
  dates :: "stamp list"

definition lat_per_m :: real where
  "lat_per_m = 360 / (2 * pi * 6371000)"

text \<open>Lines 97-100: the in-bounds test of one particle, and the mask over the cloud.\<close>

definition in_bounds :: "real \<Rightarrow> real \<Rightarrow> real \<Rightarrow> real \<Rightarrow> fl \<Rightarrow> fl \<Rightarrow> bool" where
  "in_bounds lon_min lon_max lat_min lat_max lo la =
     (fl_le (Fin lon_min) lo \<and> fl_le lo (Fin lon_max) \<and>
      fl_le (Fin lat_min) la \<and> fl_le la (Fin lat_max))"

definition inb_mask :: "real \<Rightarrow> real \<Rightarrow> real \<Rightarrow> real \<Rightarrow> fl list \<Rightarrow> fl list \<Rightarrow> bool list" where
  "inb_mask lon_min lon_max lat_min lat_max lons lats =
     map2 (in_bounds lon_min lon_max lat_min lat_max) lons lats"

text \<open>Lines 102-108: the four sampled velocity arrays, zero where the mask is false.\<close>

definition sample :: "interp \<Rightarrow> int \<Rightarrow> bool list \<Rightarrow> fl list \<Rightarrow> fl list \<Rightarrow> fl list" where
  "sample f mNP inb lons lats =
     (let zeros = replicate (nat mNP) (Fin 0) in
      if np_any inb then
        (let idx = np_where inb;
             pts = zip (take_idx lats idx) (take_idx lons idx)
         in put_idx zeros idx (map (call_interp f) pts))
      else zeros)"

text \<open>Lines 110-111: \<^verbatim>\<open>d1 * u1i + d2 * u2i\<close>.\<close>

definition blend :: "real \<Rightarrow> real \<Rightarrow> fl list \<Rightarrow> fl list \<Rightarrow> fl list" where
  "blend d1 d2 a1 a2 = map2 (\<lambda>x y. fl_add (fl_mul (Fin d1) x) (fl_mul (Fin d2) y)) a1 a2"

text \<open>Lines 93-111: the blended velocity arrays \<^verbatim>\<open>ui\<close>, \<^verbatim>\<open>vi\<close> of sub-step \<open>s\<close>.\<close>

definition velocity ::
  "interp \<Rightarrow> interp \<Rightarrow> interp \<Rightarrow> interp \<Rightarrow> int \<Rightarrow> int \<Rightarrow> int \<Rightarrow> bool list \<Rightarrow>
   fl list \<Rightarrow> fl list \<Rightarrow> fl list \<times> fl list" where
  "velocity f_u1 f_v1 f_u2 f_v2 mNP sub_steps s inb lons lats =
     (let frac = real_of_int s / real_of_int sub_steps;
          d1 = 1 - frac; d2 = frac;
          u1i = sample f_u1 mNP inb lons lats; v1i = sample f_v1 mNP inb lons lats;
          u2i = sample f_u2 mNP inb lons lats; v2i = sample f_v2 mNP inb lons lats
      in (blend d1 d2 u1i u2i, blend d1 d2 v1i v2i))"

text \<open>Lines 113-115: the displacement arrays in degrees.\<close>

definition displacement :: "int \<Rightarrow> fl list \<Rightarrow> fl list \<Rightarrow> fl list \<Rightarrow> fl list \<times> fl list" where
  "displacement dt ui vi lats =
     (let lon_per = map (\<lambda>la. fl_div (Fin lat_per_m) (fl_cos (fl_radians la))) lats;
          dlon = map2 (\<lambda>x lp. fl_mul (fl_mul x (Fin (real_of_int (dt * 3600)))) lp) ui lon_per;
          dlat = map (\<lambda>x. fl_mul (fl_mul x (Fin (real_of_int (dt * 3600)))) (Fin lat_per_m)) vi
      in (dlon, dlat))"

text \<open>Lines 117-122: the masked position update, then NaN outside the mask.\<close>

definition advance :: "string \<Rightarrow> bool list \<Rightarrow> fl list \<Rightarrow> fl list \<Rightarrow> fl list" where
  "advance mSIM inb pos d =
     (let moved =
        (if mSIM = ''forwards''
         then mask_set pos inb (map2 fl_add (mask_get pos inb) (mask_get d inb))
         else mask_set pos inb (map2 fl_sub (mask_get pos inb) (mask_get d inb)))
      in mask_fill moved (map Not inb) NaN)"

text \<open>Lines 93-129: the body of the sub-step loop of \<^verbatim>\<open>simulate_aus\<close>.\<close>

definition sub_step ::
  "string \<Rightarrow> int \<Rightarrow> string \<Rightarrow> real list \<Rightarrow> real list \<Rightarrow> interp \<Rightarrow> interp \<Rightarrow> interp \<Rightarrow> interp \<Rightarrow>
   int \<Rightarrow> int \<Rightarrow> int \<Rightarrow> sim_state \<Rightarrow> error + sim_state" where
  "sub_step mSIM dt start_date_str lat_nc lon_nc f_u1 f_v1 f_u2 f_v2 mNP sub_steps s st =
     ebind (np_min lon_nc) (\<lambda>lon_min.
     ebind (np_max lon_nc) (\<lambda>lon_max.
     ebind (np_min lat_nc) (\<lambda>lat_min.
     ebind (np_max lat_nc) (\<lambda>lat_max.
       (let inb = inb_mask lon_min lon_max lat_min lat_max (lonP st) (latP st);
            (ui, vi) = velocity f_u1 f_v1 f_u2 f_v2 mNP sub_steps s inb (lonP st) (latP st);
            (dlon, dlat) = displacement dt ui vi (latP st);
            lonP' = advance mSIM inb (lonP st) dlon;
            latP' = advance mSIM inb (latP st) dlat
        in Inr \<lparr> lonP = lonP', latP = latP',
                 LONP = LONP st @ [lonP'], LATP = LATP st @ [latP'],
                 dates = dates st @ [Stamp start_date_str (int (length (dates st)) * dt)] \<rparr>)))))"

text \<open>The loop \<^verbatim>\<open>for s in range(1, sub_steps + 1)\<close>.\<close>

fun sub_loop ::
  "string \<Rightarrow> int \<Rightarrow> string \<Rightarrow> real list \<Rightarrow> real list \<Rightarrow> interp \<Rightarrow> interp \<Rightarrow> interp \<Rightarrow> interp \<Rightarrow>
   int \<Rightarrow> int \<Rightarrow> int list \<Rightarrow> sim_state \<Rightarrow> error + sim_state" where
  "sub_loop mSIM dt sd lat_nc lon_nc f_u1 f_v1 f_u2 f_v2 mNP sub_steps [] st = Inr st"
| "sub_loop mSIM dt sd lat_nc lon_nc f_u1 f_v1 f_u2 f_v2 mNP sub_steps (s # ss) st =
     ebind (sub_step mSIM dt sd lat_nc lon_nc f_u1 f_v1 f_u2 f_v2 mNP sub_steps s st)
       (sub_loop mSIM dt sd lat_nc lon_nc f_u1 f_v1 f_u2 f_v2 mNP sub_steps ss)"

text \<open>
  The SciPy constructor, as the driver uses it: it takes the two axes and one grid and
  returns an interpolator or raises ValueError (axes not strictly ordered, shape mismatch).
\<close>

type_synonym rgi = "real list \<Rightarrow> real list \<Rightarrow> grid \<Rightarrow> error + interp"

text \<open>Line 83: \<^verbatim>\<open>i1, i2 = (t, t + 1) if mSIM == 'forwards' else (t, t - 1)\<close>.\<close>

definition index_pair :: "string \<Rightarrow> int \<Rightarrow> int \<times> int" where
  "index_pair mSIM t = (if mSIM = ''forwards'' then (t, t + 1) else (t, t - 1))"

text \<open>Lines 83-129: the body of the loop over the leading time indices.\<close>

definition major_step ::
  "rgi \<Rightarrow> string \<Rightarrow> int \<Rightarrow> string \<Rightarrow> int \<Rightarrow> real list \<Rightarrow> real list \<Rightarrow> real ndarray \<Rightarrow> real ndarray \<Rightarrow>
   int \<Rightarrow> int \<Rightarrow> sim_state \<Rightarrow> error + sim_state" where
  "major_step RGI mSIM dt sd ND lat_nc lon_nc U V mNP t st =
     (let (i1, i2) = index_pair mSIM t in
      ebind (index3 U i1) (\<lambda>u1.
      ebind (index3 U i2) (\<lambda>u2.
      ebind (index3 V i1) (\<lambda>v1.
      ebind (index3 V i2) (\<lambda>v2.
      ebind (RGI lat_nc lon_nc u1) (\<lambda>f_u1.
      ebind (RGI lat_nc lon_nc v1) (\<lambda>f_v1.
      ebind (RGI lat_nc lon_nc u2) (\<lambda>f_u2.
      ebind (RGI lat_nc lon_nc v2) (\<lambda>f_v2.
      ebind (py_trunc_div (ND * 24) dt) (\<lambda>sub_steps.
        sub_loop mSIM dt sd lat_nc lon_nc f_u1 f_v1 f_u2 f_v2 mNP sub_steps
          (py_range 1 (sub_steps + 1)) st))))))))))"

text \<open>The loop \<^verbatim>\<open>for t in time_idx\<close>.\<close>

fun major_loop ::
  "rgi \<Rightarrow> string \<Rightarrow> int \<Rightarrow> string \<Rightarrow> int \<Rightarrow> real list \<Rightarrow> real list \<Rightarrow> real ndarray \<Rightarrow> real ndarray \<Rightarrow>
   int \<Rightarrow> int list \<Rightarrow> sim_state \<Rightarrow> error + sim_state" where
  "major_loop RGI mSIM dt sd ND lat_nc lon_nc U V mNP [] st = Inr st"
| "major_loop RGI mSIM dt sd ND lat_nc lon_nc U V mNP (t # ts) st =
     ebind (major_step RGI mSIM dt sd ND lat_nc lon_nc U V mNP t st)
       (major_loop RGI mSIM dt sd ND lat_nc lon_nc U V mNP ts)"

text \<open>Lines 68-77: the clamped number of major steps and the list of leading indices.\<close>

definition major_steps :: "int \<Rightarrow> int \<Rightarrow> nat \<Rightarrow> error + int" where
  "major_steps mDUR ND n_time =
     ebind (py_ceil_div mDUR ND) (\<lambda>ms.
       (let max_idx = int n_time - 1 in Inr (min ms max_idx)))"

definition time_idx :: "string \<Rightarrow> int \<Rightarrow> nat \<Rightarrow> int list" where
  "time_idx mSIM ms n_time =
     (let max_idx = int n_time - 1 in
      if mSIM = ''forwards'' then py_range 0 ms
      else py_range_down max_idx (max_idx - ms))"

text \<open>
  Lines 230-265: the body of the sub-step loop of \<^verbatim>\<open>simulate_gbr\<close>, transcribed on its own
  from the second copy of the code.
\<close>

definition gbr_sub_step ::
  "string \<Rightarrow> int \<Rightarrow> string \<Rightarrow> real list \<Rightarrow> real list \<Rightarrow> interp \<Rightarrow> interp \<Rightarrow> interp \<Rightarrow> interp \<Rightarrow>
   int \<Rightarrow> int \<Rightarrow> int \<Rightarrow> sim_state \<Rightarrow> error + sim_state" where
  "gbr_sub_step mSIM dt start_date_str lat_nc lon_nc f_u1 f_v1 f_u2 f_v2 mNP sub_steps s st =
     (let frac = real_of_int s / real_of_int sub_steps; d1 = 1 - frac; d2 = frac in
      ebind (np_min lon_nc) (\<lambda>lon_min.
      ebind (np_max lon_nc) (\<lambda>lon_max.
      ebind (np_min lat_nc) (\<lambda>lat_min.
      ebind (np_max lat_nc) (\<lambda>lat_max.
       (let inb = map2 (\<lambda>lo la. fl_le (Fin lon_min) lo \<and> fl_le lo (Fin lon_max) \<and>
                                  fl_le (Fin lat_min) la \<and> fl_le la (Fin lat_max))
                    (lonP st) (latP st);
            zeros = replicate (nat mNP) (Fin 0);
            idx = np_where inb;
            pts = zip (take_idx (latP st) idx) (take_idx (lonP st) idx);
            u1i = (if np_any inb then put_idx zeros idx (map (call_interp f_u1) pts) else zeros);
            v1i = (if np_any inb then put_idx zeros idx (map (call_interp f_v1) pts) else zeros);
            u2i = (if np_any inb then put_idx zeros idx (map (call_interp f_u2) pts) else zeros);
            v2i = (if np_any inb then put_idx zeros idx (map (call_interp f_v2) pts) else zeros);
            ui = map2 (\<lambda>x y. fl_add (fl_mul (Fin d1) x) (fl_mul (Fin d2) y)) u1i u2i;
            vi = map2 (\<lambda>x y. fl_add (fl_mul (Fin d1) x) (fl_mul (Fin d2) y)) v1i v2i;
            lat_per = 360 / (2 * pi * 6371000);
            lon_per = map (\<lambda>la. fl_div (Fin lat_per) (fl_cos (fl_radians la))) (latP st);
            dlon = map2 (\<lambda>x lp. fl_mul (fl_mul x (Fin (real_of_int (dt * 3600)))) lp) ui lon_per;
            dlat = map (\<lambda>x. fl_mul (fl_mul x (Fin (real_of_int (dt * 3600)))) (Fin lat_per)) vi;
            lonP1 = (if mSIM = ''forwards''
                     then mask_set (lonP st) inb (map2 fl_add (mask_get (lonP st) inb) (mask_get dlon inb))
                     else mask_set (lonP st) inb (map2 fl_sub (mask_get (lonP st) inb) (mask_get dlon inb)));
            latP1 = (if mSIM = ''forwards''
                     then mask_set (latP st) inb (map2 fl_add (mask_get (latP st) inb) (mask_get dlat inb))
                     else mask_set (latP st) inb (map2 fl_sub (mask_get (latP st) inb) (mask_get dlat inb)));
            lonP2 = mask_fill lonP1 (map Not inb) NaN;
            latP2 = mask_fill latP1 (map Not inb) NaN
        in Inr \<lparr> lonP = lonP2, latP = latP2,
                 LONP = LONP st @ [lonP2], LATP = LATP st @ [latP2],
                 dates = dates st @ [Stamp start_date_str (int (length (dates st)) * dt)] \<rparr>))))))"

fun gbr_sub_loop ::
  "string \<Rightarrow> int \<Rightarrow> string \<Rightarrow> real list \<Rightarrow> real list \<Rightarrow> interp \<Rightarrow> interp \<Rightarrow> interp \<Rightarrow> interp \<Rightarrow>
   int \<Rightarrow> int \<Rightarrow> int list \<Rightarrow> sim_state \<Rightarrow> error + sim_state" where
  "gbr_sub_loop mSIM dt sd lat_nc lon_nc f_u1 f_v1 f_u2 f_v2 mNP sub_steps [] st = Inr st"
| "gbr_sub_loop mSIM dt sd lat_nc lon_nc f_u1 f_v1 f_u2 f_v2 mNP sub_steps (s # ss) st =
     ebind (gbr_sub_step mSIM dt sd lat_nc lon_nc f_u1 f_v1 f_u2 f_v2 mNP sub_steps s st)
       (gbr_sub_loop mSIM dt sd lat_nc lon_nc f_u1 f_v1 f_u2 f_v2 mNP sub_steps ss)"

text \<open>Lines 216-265.\<close>

definition gbr_major_step ::
  "rgi \<Rightarrow> string \<Rightarrow> int \<Rightarrow> string \<Rightarrow> int \<Rightarrow> real list \<Rightarrow> real list \<Rightarrow> real ndarray \<Rightarrow> real ndarray \<Rightarrow>
   int \<Rightarrow> int \<Rightarrow> sim_state \<Rightarrow> error + sim_state" where
  "gbr_major_step RGI mSIM dt sd ND lat_nc lon_nc U V mNP t st =
     (let (i1, i2) = (if mSIM = ''forwards'' then (t, t + 1) else (t, t - 1)) in
      ebind (index3 U i1) (\<lambda>u1.
      ebind (index3 U i2) (\<lambda>u2.
      ebind (index3 V i1) (\<lambda>v1.
      ebind (index3 V i2) (\<lambda>v2.
      ebind (RGI lat_nc lon_nc u1) (\<lambda>f_u1.
      ebind (RGI lat_nc lon_nc v1) (\<lambda>f_v1.
      ebind (RGI lat_nc lon_nc u2) (\<lambda>f_u2.
      ebind (RGI lat_nc lon_nc v2) (\<lambda>f_v2.
      ebind (py_trunc_div (ND * 24) dt) (\<lambda>sub_steps.
        gbr_sub_loop mSIM dt sd lat_nc lon_nc f_u1 f_v1 f_u2 f_v2 mNP sub_steps
          (py_range 1 (sub_steps + 1)) st))))))))))"

fun gbr_major_loop ::
  "rgi \<Rightarrow> string \<Rightarrow> int \<Rightarrow> string \<Rightarrow> int \<Rightarrow> real list \<Rightarrow> real list \<Rightarrow> real ndarray \<Rightarrow> real ndarray \<Rightarrow>
   int \<Rightarrow> int list \<Rightarrow> sim_state \<Rightarrow> error + sim_state" where
  "gbr_major_loop RGI mSIM dt sd ND lat_nc lon_nc U V mNP [] st = Inr st"
| "gbr_major_loop RGI mSIM dt sd ND lat_nc lon_nc U V mNP (t # ts) st =
     ebind (gbr_major_step RGI mSIM dt sd ND lat_nc lon_nc U V mNP t st)
       (gbr_major_loop RGI mSIM dt sd ND lat_nc lon_nc U V mNP ts)"

section \<open>The simulation drivers\<close>

text \<open>
  What a request reads from outside the program: the library functions it calls
  (\<^verbatim>\<open>float\<close>, \<^verbatim>\<open>int\<close>, whether \<^verbatim>\<open>datetime.fromisoformat\<close> accepts a string, the SciPy
  constructor), the two arrays drawn by \<^verbatim>\<open>np.random.uniform(-1, 1, mNP)\<close>, and the files
  under \<^verbatim>\<open>static/\<close>, each either read or raising. A velocity sample is a finite number or
  the missing value NaN (\<open>None\<close>).
\<close>

record dataset =
  ds_time :: "real list"
  ds_latitude :: "real list"
  ds_longitude :: "real list"
  ds_u :: "real option list list list"
  ds_v :: "real option list list list"

record env =
  py_float :: "string \<Rightarrow> fl option"
  py_int :: "string \<Rightarrow> int option"
  fromisoformat :: "string \<Rightarrow> bool"
  RegularGridInterpolator :: rgi
  uniform_1 :: "nat \<Rightarrow> real"
  uniform_2 :: "nat \<Rightarrow> real"
  oscar_nc :: "error + dataset"
  etopo_csv :: "error + real list list"
  reef_csv :: "error + real list list"
  uv_lats :: "error + real list"
  uv_lons :: "error + real list"
  uv_zarr :: "error + real option list list list list"

text \<open>\<^verbatim>\<open>U[np.isnan(U)] = 0\<close>.\<close>

definition nan_to_zero :: "real option ndarray \<Rightarrow> real ndarray" where
  "nan_to_zero A = map_ndarray (\<lambda>x. case x of None \<Rightarrow> 0 | Some y \<Rightarrow> y) A"

text \<open>
  \<^verbatim>\<open>a, b = zip(*pts) if pts else ([], [])\<close>: \<^verbatim>\<open>zip\<close> yields one tuple per column of the
  shortest row, and the unpacking raises ValueError unless there are exactly two.
\<close>

definition unzip2 :: "real list list \<Rightarrow> error + (real list \<times> real list)" where
  "unzip2 pts =
     (if pts = [] then Inr ([], [])
      else if fold min (map length (tl pts)) (length (hd pts)) = 2
      then Inr (map (\<lambda>r. r ! 0) pts, map (\<lambda>r. r ! 1) pts)
      else Inl ValueError)"

text \<open>Lines 58-59: \<^verbatim>\<open>c + mAREA/2 * np.random.uniform(-1, 1, mNP)\<close>.\<close>

definition seed :: "fl \<Rightarrow> fl \<Rightarrow> (nat \<Rightarrow> real) \<Rightarrow> int \<Rightarrow> fl list" where
  "seed c mAREA draw mNP =
     map (\<lambda>i. fl_add c (fl_mul (fl_div mAREA (Fin 2)) (Fin (draw i)))) [0..<nat mNP]"

record result =
  out_LONP :: "fl list list"
  out_LATP :: "fl list list"
  out_TS :: nat
  out_dt :: int
  out_dates :: "stamp list"
  out_map_lon :: "real list"
  out_map_lat :: "real list"
  out_reef_lon :: "real list"
  out_reef_lat :: "real list"
  out_mlon :: fl
  out_mlat :: fl
  out_mAREA :: fl
  out_mSIM :: string
  out_mNP :: int
  out_bounds :: "real \<times> real \<times> real \<times> real"

text \<open>Lines 131-152: the returned dictionary; the bounds are (lon_min, lon_max, lat_min, lat_max).\<close>

definition package ::
  "sim_state \<Rightarrow> int \<Rightarrow> real list \<times> real list \<Rightarrow> real list \<times> real list \<Rightarrow> fl \<Rightarrow> fl \<Rightarrow> fl \<Rightarrow>
   string \<Rightarrow> int \<Rightarrow> real list \<Rightarrow> real list \<Rightarrow> error + result" where
  "package st dt map_pts reef_pts mlon mlat mAREA mSIM mNP lat_nc lon_nc =
     ebind (np_min lon_nc) (\<lambda>lon_min.
     ebind (np_max lon_nc) (\<lambda>lon_max.
     ebind (np_min lat_nc) (\<lambda>lat_min.
     ebind (np_max lat_nc) (\<lambda>lat_max.
       Inr \<lparr> out_LONP = LONP st, out_LATP = LATP st, out_TS = length (LONP st), out_dt = dt,
             out_dates = dates st,
             out_map_lon = fst map_pts, out_map_lat = snd map_pts,
             out_reef_lon = fst reef_pts, out_reef_lat = snd reef_pts,
             out_mlon = mlon, out_mlat = mlat, out_mAREA = mAREA, out_mSIM = mSIM, out_mNP = mNP,
             out_bounds = (lon_min, lon_max, lat_min, lat_max) \<rparr>))))"

text \<open>
  Lines 33-152. The variables \<^verbatim>\<open>u\<close> and \<^verbatim>\<open>v\<close> of the file are arrays over (time, latitude,
  longitude); line 40 squeezes them before the missing values are zeroed.
\<close>

definition simulate_aus ::
  "env \<Rightarrow> fl \<Rightarrow> fl \<Rightarrow> int \<Rightarrow> fl \<Rightarrow> string \<Rightarrow> int \<Rightarrow> int \<Rightarrow> string \<Rightarrow> int \<Rightarrow> error + result" where
  "simulate_aus E mlon mlat mNP mAREA mSIM mDUR dt start_date_str ND =
     ebind (oscar_nc E) (\<lambda>ds.
       (let time_all = ds_time ds; lat_nc = ds_latitude ds; lon_nc = ds_longitude ds;
            U = nan_to_zero (squeeze (ds_u ds)); V = nan_to_zero (squeeze (ds_v ds));
            map_pts = (case ebind (etopo_csv E) unzip2 of Inl _ \<Rightarrow> ([], []) | Inr p \<Rightarrow> p)
        in
        ebind (ebind (reef_csv E) unzip2) (\<lambda>reef_pts.
          if mNP < 0 then Inl ValueError
          else
            (let lonP0 = seed mlon mAREA (uniform_1 E) mNP;
                 latP0 = seed mlat mAREA (uniform_2 E) mNP
             in
             if \<not> fromisoformat E start_date_str then Inl ValueError
             else
               ebind (major_steps mDUR ND (length time_all)) (\<lambda>ms.
               ebind (major_loop (RegularGridInterpolator E) mSIM dt start_date_str ND
                        lat_nc lon_nc U V mNP (time_idx mSIM ms (length time_all))
                        \<lparr> lonP = lonP0, latP = latP0, LONP = [], LATP = [], dates = [] \<rparr>) (\<lambda>st.
                 package st dt map_pts reef_pts mlon mlat mAREA mSIM mNP lat_nc lon_nc))))))"

text \<open>
  Lines 154-288. The chunked array has shape (2, time, lat, lon); the number of snapshots
  is its second dimension. The two slices are used as they are, without a squeeze.
\<close>

definition simulate_gbr ::
  "env \<Rightarrow> fl \<Rightarrow> fl \<Rightarrow> int \<Rightarrow> fl \<Rightarrow> string \<Rightarrow> int \<Rightarrow> int \<Rightarrow> string \<Rightarrow> int \<Rightarrow> error + result" where
  "simulate_gbr E mlon mlat mNP mAREA mSIM mDUR dt start_date_str ND =
     ebind (uv_lats E) (\<lambda>lat_nc.
     ebind (uv_lons E) (\<lambda>lon_nc.
     ebind (uv_zarr E) (\<lambda>z_array.
     ebind (py_index z_array 0) (\<lambda>U_raw.
     ebind (py_index z_array 1) (\<lambda>V_raw.
       (let n_time = length U_raw;
            U = nan_to_zero (Arr3 U_raw); V = nan_to_zero (Arr3 V_raw);
            map_pts = (case ebind (etopo_csv E) unzip2 of Inl _ \<Rightarrow> ([], []) | Inr p \<Rightarrow> p)
        in
        ebind (ebind (reef_csv E) unzip2) (\<lambda>reef_pts.
          if mNP < 0 then Inl ValueError
          else
            (let lonP0 = seed mlon mAREA (uniform_1 E) mNP;
                 latP0 = seed mlat mAREA (uniform_2 E) mNP
             in
             if \<not> fromisoformat E start_date_str then Inl ValueError
             else
               ebind (major_steps mDUR ND n_time) (\<lambda>ms.
               ebind (gbr_major_loop (RegularGridInterpolator E) mSIM dt start_date_str ND
                        lat_nc lon_nc U V mNP (time_idx mSIM ms n_time)
                        \<lparr> lonP = lonP0, latP = latP0, LONP = [], LATP = [], dates = [] \<rparr>) (\<lambda>st.
                 package st dt map_pts reef_pts mlon mlat mAREA mSIM mNP lat_nc lon_nc))))))))))"

section \<open>Request parsing and the routes\<close>

text \<open>\<^verbatim>\<open>s.split(c)\<close>: never empty.\<close>

fun split_on :: "char \<Rightarrow> string \<Rightarrow> string list" where
  "split_on c [] = [[]]"
| "split_on c (x # xs) =
     (if x = c then [] # split_on c xs
      else (case split_on c xs of w # ws \<Rightarrow> (x # w) # ws | [] \<Rightarrow> [[x]]))"

definition conv :: "(string \<Rightarrow> 'a option) \<Rightarrow> string \<Rightarrow> error + 'a" where
  "conv p s = (case p s of None \<Rightarrow> Inl ValueError | Some x \<Rightarrow> Inr x)"

text \<open>Lines 24-31.\<close>

definition parse_params ::
  "(string \<Rightarrow> fl option) \<Rightarrow> (string \<Rightarrow> int option) \<Rightarrow> string \<Rightarrow>
   error + (fl \<times> fl \<times> int \<times> fl \<times> string \<times> int \<times> int \<times> string)" where
  "parse_params to_float to_int param_str =
     (let parts = split_on CHR ''_'' param_str in
      ebind (ebind (py_index parts 0) (conv to_float)) (\<lambda>lon.
      ebind (ebind (py_index parts 1) (conv to_float)) (\<lambda>lat.
      ebind (ebind (py_index parts 2) (conv to_int)) (\<lambda>mNP.
      ebind (ebind (py_index parts 3) (conv to_float)) (\<lambda>mAREA.
      ebind (py_index parts 4) (\<lambda>mSIM.
      ebind (ebind (py_index parts 5) (conv to_int)) (\<lambda>mDUR.
      ebind (ebind (py_index parts 6) (conv to_int)) (\<lambda>mDT.
      ebind (py_index parts 7) (\<lambda>date_str.
        Inr (lon, lat, mNP, mAREA, mSIM, mDUR, mDT, date_str))))))))))"

text \<open>
  Lines 303-332. The two page routes let an exception escape to the framework; the two
  API routes catch every exception and answer with \<^verbatim>\<open>{'error': str(e)}\<close>. The drivers are
  called with the default \<^verbatim>\<open>ND=5\<close>.
\<close>

datatype response = Page string result | Json result | JsonError error | Raised error

definition visualize :: "env \<Rightarrow> string \<Rightarrow> response" where
  "visualize E params =
     (case parse_params (py_float E) (py_int E) params of
        Inl e \<Rightarrow> Raised e
      | Inr (mlon, mlat, mNP, mAREA, mSIM, mDUR, mDT, date_str) \<Rightarrow>
          (case simulate_aus E mlon mlat mNP mAREA mSIM mDUR mDT date_str 5 of
             Inl e \<Rightarrow> Raised e
           | Inr sim_data \<Rightarrow> Page ''aus_lagrangian.html'' sim_data))"

definition gbr_visualize :: "env \<Rightarrow> string \<Rightarrow> response" where
  "gbr_visualize E params =
     (case parse_params (py_float E) (py_int E) params of
        Inl e \<Rightarrow> Raised e
      | Inr (mlon, mlat, mNP, mAREA, mSIM, mDUR, mDT, date_str) \<Rightarrow>
          (case simulate_gbr E mlon mlat mNP mAREA mSIM mDUR mDT date_str 5 of
             Inl e \<Rightarrow> Raised e
           | Inr sim_data \<Rightarrow> Page ''gbr_lagrangian.html'' sim_data))"

definition api_sim :: "env \<Rightarrow> string \<Rightarrow> response" where
  "api_sim E params =
     (case parse_params (py_float E) (py_int E) params of
        Inl e \<Rightarrow> JsonError e
      | Inr (mlon, mlat, mNP, mAREA, mSIM, mDUR, mDT, date_str) \<Rightarrow>
          (case simulate_aus E mlon mlat mNP mAREA mSIM mDUR mDT date_str 5 of
             Inl e \<Rightarrow> JsonError e
           | Inr result \<Rightarrow> Json result))"

definition api_gbr_sim :: "env \<Rightarrow> string \<Rightarrow> response" where
  "api_gbr_sim E params =
     (case parse_params (py_float E) (py_int E) params of
        Inl e \<Rightarrow> JsonError e
      | Inr (mlon, mlat, mNP, mAREA, mSIM, mDUR, mDT, date_str) \<Rightarrow>
          (case simulate_gbr E mlon mlat mNP mAREA mSIM mDUR mDT date_str 5 of
             Inl e \<Rightarrow> JsonError e
           | Inr result \<Rightarrow> Json result))"

section \<open>SciPy's linear interpolation on a regular grid\<close>

text \<open>
  Modelled from the spec: section 4.1 (Grid Interpolator), with the steps of SciPy's
  documented linear method. \<^verbatim>\<open>RegularGridInterpolator\<close> is a library function that the
  repository calls and does not contain. Only strictly ascending, non-empty axes are
  modelled as accepted. The drivers take the constructor as a parameter; this instance is
  used where a statement depends on what bilinear interpolation returns.
\<close>

text \<open>Modelled from the spec: \<^verbatim>\<open>np.searchsorted(g, x)\<close>, the number of grid points below \<open>x\<close>.\<close>

definition searchsorted :: "real list \<Rightarrow> real \<Rightarrow> nat" where
  "searchsorted g x = length (filter (\<lambda>y. y < x) g)"

text \<open>Modelled from the spec: the lower edge of the cell of \<open>x\<close>, clipped to \<open>[0, len(g) - 2]\<close>.\<close>

definition find_index :: "real list \<Rightarrow> real \<Rightarrow> nat" where
  "find_index g x =
     (let i = int (searchsorted g x) - 1;
          i = (if i < 0 then 0 else i);
          i = (if i > int (length g) - 2 then int (length g) - 2 else i)
      in nat i)"

text \<open>
  Modelled from the spec: the upper edge of the cell with lower edge \<open>i\<close>. On an axis of one
  point SciPy takes that point for both edges.
\<close>

definition upper_index :: "real list \<Rightarrow> nat \<Rightarrow> nat" where
  "upper_index g i = (if length g = 1 then i else i + 1)"

text \<open>
  Modelled from the spec: the distance of \<open>x\<close> from the lower edge, in units of the cell
  (0 on an axis of one point).
\<close>

definition norm_distance :: "real list \<Rightarrow> nat \<Rightarrow> real \<Rightarrow> real" where
  "norm_distance g i x =
     (if length g = 1 then 0
      else (let denom = g ! (i + 1) - g ! i in if denom \<noteq> 0 then (x - g ! i) / denom else 0))"

text \<open>Modelled from the spec: the bilinear blend of the four corners of the cell.\<close>

definition evaluate_linear :: "real list \<Rightarrow> real list \<Rightarrow> grid \<Rightarrow> interp" where
  "evaluate_linear lat lon vals p =
     (case p of (la, lo) \<Rightarrow>
       (let i = find_index lat la; k = find_index lon lo;
            i' = upper_index lat i; k' = upper_index lon k;
            t = norm_distance lat i la; w = norm_distance lon k lo
        in vals ! i ! k * ((1 - t) * (1 - w)) + vals ! i ! k' * ((1 - t) * w) +
           vals ! i' ! k * (t * (1 - w)) + vals ! i' ! k' * (t * w)))"

text \<open>
  Modelled from the spec: the fallback value 0 outside the \<open>[min, max]\<close> range of either
  axis (\<^verbatim>\<open>bounds_error=False, fill_value=0\<close>), the interpolated value inside.
\<close>

definition linear_interp :: "real list \<Rightarrow> real list \<Rightarrow> grid \<Rightarrow> interp" where
  "linear_interp lat lon vals p =
     (case p of (la, lo) \<Rightarrow>
        if la < hd lat \<or> last lat < la \<or> lo < hd lon \<or> last lon < lo then 0
        else evaluate_linear lat lon vals p)"

text \<open>
  Modelled from the spec: the constructor, which checks the grid invariant of section 3
  (strictly increasing axes, array shape equal to (len(lat), len(lon))) and raises
  ValueError otherwise.
\<close>

definition scipy_rgi :: rgi where
  "scipy_rgi lat lon vals =
     (if 1 \<le> length lat \<and> 1 \<le> length lon \<and> sorted_wrt (<) lat \<and> sorted_wrt (<) lon \<and>
         length vals = length lat \<and> list_all (\<lambda>row. length row = length lon) vals
      then Inr (linear_interp lat lon vals)
      else Inl ValueError)"

section \<open>Notions used in the statements\<close>

text \<open>
  The effect of one sub-step on one particle \<open>(lon, lat)\<close>, given the grid bounds: what the
  array code of \<open>sub_step\<close> amounts to at each index (lemma \<open>sub_step_effect\<close>).
\<close>

definition particle_step ::
  "string \<Rightarrow> int \<Rightarrow> real \<Rightarrow> real \<Rightarrow> real \<Rightarrow> real \<Rightarrow> interp \<Rightarrow> interp \<Rightarrow> interp \<Rightarrow> interp \<Rightarrow>
   int \<Rightarrow> int \<Rightarrow> fl \<times> fl \<Rightarrow> fl \<times> fl" where
  "particle_step mSIM dt lon_min lon_max lat_min lat_max f_u1 f_v1 f_u2 f_v2 sub_steps s p =
     (case p of (lo, la) \<Rightarrow>
      if in_bounds lon_min lon_max lat_min lat_max lo la then
        (let frac = real_of_int s / real_of_int sub_steps; d1 = 1 - frac; d2 = frac;
             ui = fl_add (fl_mul (Fin d1) (call_interp f_u1 (la, lo)))
                         (fl_mul (Fin d2) (call_interp f_u2 (la, lo)));
             vi = fl_add (fl_mul (Fin d1) (call_interp f_v1 (la, lo)))
                         (fl_mul (Fin d2) (call_interp f_v2 (la, lo)));
             dlon = fl_mul (fl_mul ui (Fin (real_of_int (dt * 3600))))
                           (fl_div (Fin lat_per_m) (fl_cos (fl_radians la)));
             dlat = fl_mul (fl_mul vi (Fin (real_of_int (dt * 3600)))) (Fin lat_per_m)
         in if mSIM = ''forwards'' then (fl_add lo dlon, fl_add la dlat)
            else (fl_sub lo dlon, fl_sub la dlat))
      else (NaN, NaN))"

text \<open>
  The cloud \<open>(lons, lats)\<close> that one sub-step makes of the cloud \<open>p\<close>: the array code of
  \<open>sub_step\<close>, without the recording.
\<close>

definition sub_step_cloud ::
  "string \<Rightarrow> int \<Rightarrow> real \<Rightarrow> real \<Rightarrow> real \<Rightarrow> real \<Rightarrow> interp \<Rightarrow> interp \<Rightarrow> interp \<Rightarrow> interp \<Rightarrow>
   int \<Rightarrow> int \<Rightarrow> int \<Rightarrow> fl list \<times> fl list \<Rightarrow> fl list \<times> fl list" where
  "sub_step_cloud mSIM dt lon_min lon_max lat_min lat_max f_u1 f_v1 f_u2 f_v2 mNP sub_steps s p =
     (let inb = inb_mask lon_min lon_max lat_min lat_max (fst p) (snd p);
          vel = velocity f_u1 f_v1 f_u2 f_v2 mNP sub_steps s inb (fst p) (snd p);
          dis = displacement dt (fst vel) (snd vel) (snd p)
      in (advance mSIM inb (fst p) (fst dis), advance mSIM inb (snd p) (snd dis)))"

text \<open>
  The four interpolators of the pair \<open>(i1, i2)\<close> of time indices: of \<^verbatim>\<open>U[i1]\<close>, \<^verbatim>\<open>V[i1]\<close>,
  \<^verbatim>\<open>U[i2]\<close> and \<^verbatim>\<open>V[i2]\<close>, in this order.
\<close>

definition pair_interps ::
  "rgi \<Rightarrow> real list \<Rightarrow> real list \<Rightarrow> real ndarray \<Rightarrow> real ndarray \<Rightarrow> int \<times> int \<Rightarrow>
   error + (interp \<times> interp \<times> interp \<times> interp)" where
  "pair_interps RGI lat_nc lon_nc U V ip =
     ebind (index3 U (fst ip)) (\<lambda>u1.
     ebind (index3 U (snd ip)) (\<lambda>u2.
     ebind (index3 V (fst ip)) (\<lambda>v1.
     ebind (index3 V (snd ip)) (\<lambda>v2.
     ebind (RGI lat_nc lon_nc u1) (\<lambda>f_u1.
     ebind (RGI lat_nc lon_nc v1) (\<lambda>f_v1.
     ebind (RGI lat_nc lon_nc u2) (\<lambda>f_u2.
     ebind (RGI lat_nc lon_nc v2) (\<lambda>f_v2.
       Inr (f_u1, f_v1, f_u2, f_v2)))))))))"

text \<open>
  Between two consecutive clouds \<open>p\<close> and \<open>q\<close> of \<open>n\<close> particles: every particle that is out
  of bounds in \<open>p\<close> has both coordinates NaN in \<open>q\<close>.
\<close>

definition exits ::
  "real \<Rightarrow> real \<Rightarrow> real \<Rightarrow> real \<Rightarrow> nat \<Rightarrow> fl list \<times> fl list \<Rightarrow> fl list \<times> fl list \<Rightarrow> bool" where
  "exits a b c d n p q \<longleftrightarrow>
     length (fst q) = n \<and> length (snd q) = n \<and>
     (\<forall>j<n. \<not> in_bounds a b c d (fst p ! j) (snd p ! j) \<longrightarrow> fst q ! j = NaN \<and> snd q ! j = NaN)"

text \<open>
  The invariant of the two loops, for a run that started from the cloud \<open>c0\<close>: the arrays
  keep their length, one date is recorded per snapshot, the \<open>k\<close>-th date is \<open>k * dt\<close> hours
  after the start, the current cloud is the last snapshot, and consecutive clouds are
  related by \<open>exits\<close>.
\<close>

definition run_inv ::
  "real \<Rightarrow> real \<Rightarrow> real \<Rightarrow> real \<Rightarrow> nat \<Rightarrow> string \<Rightarrow> int \<Rightarrow> fl list \<times> fl list \<Rightarrow> sim_state \<Rightarrow> bool" where
  "run_inv a b c d n sd dt c0 st \<longleftrightarrow>
     length (lonP st) = n \<and> length (latP st) = n \<and>
     length (LATP st) = length (LONP st) \<and> length (dates st) = length (LONP st) \<and>
     (\<forall>k < length (dates st). dates st ! k = Stamp sd (int k * dt)) \<and>
     last (c0 # zip (LONP st) (LATP st)) = (lonP st, latP st) \<and>
     (\<forall>k. Suc k < length (c0 # zip (LONP st) (LATP st)) \<longrightarrow>
          exits a b c d n ((c0 # zip (LONP st) (LATP st)) ! k)
                          ((c0 # zip (LONP st) (LATP st)) ! Suc k))"

text \<open>
  The cloud that the \<open>k\<close>-th recorded sub-step of a run (counted from 0) starts from: the
  seeded cloud for the first one, the previous snapshot otherwise.
\<close>

definition cloud_before ::
  "env \<Rightarrow> fl \<Rightarrow> fl \<Rightarrow> int \<Rightarrow> fl \<Rightarrow> result \<Rightarrow> nat \<Rightarrow> fl list \<times> fl list" where
  "cloud_before E mlon mlat mNP mAREA r k =
     (if k = 0 then (seed mlon mAREA (uniform_1 E) mNP, seed mlat mAREA (uniform_2 E) mNP)
      else (out_LONP r ! (k - 1), out_LATP r ! (k - 1)))"


text \<open>A result with another echoed direction token.\<close>

definition echo_mSIM :: "string \<Rightarrow> error + result \<Rightarrow> error + result" where
  "echo_mSIM mSIM x = (case x of Inl e \<Rightarrow> Inl e | Inr r \<Rightarrow> Inr (r\<lparr> out_mSIM := mSIM \<rparr>))"

text \<open>What a page route and an API route make of the value of a driver.\<close>

definition page_of :: "string \<Rightarrow> error + result \<Rightarrow> response" where
  "page_of name x = (case x of Inl e \<Rightarrow> Raised e | Inr r \<Rightarrow> Page name r)"

definition json_of :: "error + result \<Rightarrow> response" where
  "json_of x = (case x of Inl e \<Rightarrow> JsonError e | Inr r \<Rightarrow> Json r)"

text \<open>
  The conversion factors in the words of the specification: metres per degree of latitude,
  and metres per degree of longitude at a latitude, once as the specification states it
  (\<open>mlat / cos\<close>) and once as the code applies it (\<open>mlat * cos\<close>).
\<close>

definition m_per_deg_lat :: real where
  "m_per_deg_lat = (2 * pi * 6371000) / 360"

definition radians :: "real \<Rightarrow> real" where
  "radians x = x * pi / 180"

definition m_per_deg_lon_stated :: "real \<Rightarrow> real" where
  "m_per_deg_lon_stated lat = m_per_deg_lat / cos (radians lat)"

definition m_per_deg_lon :: "real \<Rightarrow> real" where
  "m_per_deg_lon lat = m_per_deg_lat * cos (radians lat)"

section \<open>A concrete environment\<close>

text \<open>
  Decimal fragments of what \<^verbatim>\<open>int\<close> and \<^verbatim>\<open>float\<close> accept (an optional sign, digits, and
  for \<^verbatim>\<open>float\<close> an optional fraction, \<^verbatim>\<open>nan\<close> and \<^verbatim>\<open>inf\<close>), and of what
  \<^verbatim>\<open>datetime.fromisoformat\<close> accepts (\<^verbatim>\<open>YYYY-MM-DD\<close>). The drivers and the parser take these
  functions as parameters; the instances serve to run them on concrete requests.
\<close>

definition is_digit :: "char \<Rightarrow> bool" where
  "is_digit c = (c \<in> set ''0123456789'')"

definition dec_nat :: "string \<Rightarrow> nat option" where
  "dec_nat s =
     (if s \<noteq> [] \<and> list_all is_digit s
      then Some (fold (\<lambda>c n. 10 * n + (of_char c - 48)) s 0) else None)"

definition dec_int :: "string \<Rightarrow> int option" where
  "dec_int s =
     (case s of
        c # r \<Rightarrow>
          if c = CHR ''-'' then map_option (\<lambda>n. - int n) (dec_nat r)
          else if c = CHR ''+'' then map_option int (dec_nat r)
          else map_option int (dec_nat s)
      | [] \<Rightarrow> None)"

definition dec_ufloat :: "string \<Rightarrow> fl option" where
  "dec_ufloat s =
     (if s = ''nan'' then Some NaN
      else if s = ''inf'' then Some PInf
      else (case split_on CHR ''.'' s of
              [a] \<Rightarrow> map_option (\<lambda>n. Fin (real n)) (dec_nat a)
            | [a, b] \<Rightarrow>
                (case (dec_nat a, dec_nat b) of
                   (Some n, Some m) \<Rightarrow> Some (Fin (real n + real m / 10 ^ length b))
                 | _ \<Rightarrow> None)
            | _ \<Rightarrow> None))"

definition dec_float :: "string \<Rightarrow> fl option" where
  "dec_float s =
     (case s of
        c # r \<Rightarrow>
          if c = CHR ''-'' then map_option fl_neg (dec_ufloat r)
          else if c = CHR ''+'' then dec_ufloat r
          else dec_ufloat s
      | [] \<Rightarrow> None)"

definition iso_date :: "string \<Rightarrow> bool" where
  "iso_date s =
     (length s = 10 \<and> s ! 4 = CHR ''-'' \<and> s ! 7 = CHR ''-'' \<and>
      list_all is_digit (take 4 s) \<and> list_all is_digit (take 2 (drop 5 s)) \<and>
      list_all is_digit (drop 8 s))"

text \<open>
  A two-by-two grid with three snapshots, \<open>U = 1\<close> m/s and \<open>V = 0\<close> everywhere (one sample
  missing), both velocity sources holding the same data, no coastline file and one reef
  point.
\<close>

definition example_U :: "real option list list list" where
  "example_U = replicate 3 [[Some 1, Some 1], [Some 1, Some 1]]"

definition example_V :: "real option list list list" where
  "example_V = replicate 3 [[Some 0, None], [Some 0, Some 0]]"

definition example_ds :: dataset where
  "example_ds =
     \<lparr> ds_time = [0, 5, 10], ds_latitude = [0, 60], ds_longitude = [140, 160],
       ds_u = example_U, ds_v = example_V \<rparr>"

definition example_env :: env where
  "example_env =
     \<lparr> py_float = dec_float, py_int = dec_int, fromisoformat = iso_date,
       RegularGridInterpolator = scipy_rgi,
       uniform_1 = (\<lambda>i. 1 / 2), uniform_2 = (\<lambda>i. - 1 / 2),
       oscar_nc = Inr example_ds,
       etopo_csv = Inl IOError,
       reef_csv = Inr [[150, 20]],
       uv_lats = Inr [0, 60], uv_lons = Inr [140, 160],
       uv_zarr = Inr [example_U, example_V] \<rparr>"

text \<open>
  The same grid with an eastward flow that grows from 1 m/s to 3 m/s to 5 m/s over the
  three snapshots.
\<close>

definition ramp_ds :: dataset where
  "ramp_ds =
     \<lparr> ds_time = [0, 5, 10], ds_latitude = [0, 60], ds_longitude = [140, 160],
       ds_u = [[[Some 1, Some 1], [Some 1, Some 1]], [[Some 3, Some 3], [Some 3, Some 3]],
               [[Some 5, Some 5], [Some 5, Some 5]]],
       ds_v = example_V \<rparr>"

definition ramp_env :: env where
  "ramp_env = example_env\<lparr> oscar_nc := Inr ramp_ds \<rparr>"



section \<open>The array code, index by index\<close>

lemma mask_set_map2:
  "length xs = length m \<Longrightarrow> length m = length ys \<Longrightarrow>
   mask_set xs m (map2 f (mask_get xs m) (mask_get ys m)) =
   map (\<lambda>(x, b, y). if b then f x y else x) (zip xs (zip m ys))"
proof (induction xs m ys rule: list_induct3)
  case Nil
  then show ?case by simp
next
  case (Cons x xs b m y ys)
  show ?case
  proof (cases b)
    case True
    then show ?thesis using Cons by (simp add: mask_get_def)
  next
    case False
    then show ?thesis using Cons by (simp add: mask_get_def)
  qed
qed

lemma put_idx_nth:
  "j < length a \<Longrightarrow>
   put_idx a idx (map h idx) ! j = (if j \<in> set idx then h j else a ! j)"
  unfolding put_idx_def
proof (induction idx arbitrary: a)
  case Nil
  then show ?case by simp
next
  case (Cons i idx)
  then show ?case by (simp add: nth_list_update)
qed

lemma fold_upd_length: "length (fold (\<lambda>(i, v) acc. acc[i := v]) ps a) = length a"
  by (induction ps arbitrary: a) (auto split: prod.splits)

lemma put_idx_length: "length (put_idx a idx vals) = length a"
  unfolding put_idx_def by (rule fold_upd_length)

lemma set_np_where: "set (np_where m) = {i. i < length m \<and> m ! i}"
  by (auto simp: np_where_def)

lemma np_any_iff: "np_any m \<longleftrightarrow> (\<exists>i < length m. m ! i)"
proof -
  have "np_any m \<longleftrightarrow> True \<in> set m" unfolding np_any_def list_ex_iff by (metis (full_types))
  also have "\<dots> \<longleftrightarrow> (\<exists>i < length m. m ! i)" unfolding in_set_conv_nth by blast
  finally show ?thesis .
qed

lemma sample_length: "length (sample f mNP inb lons lats) = nat mNP"
  by (simp add: sample_def Let_def put_idx_length)

lemma gather_pts:
  "zip (take_idx lats idx) (take_idx lons idx) = map (\<lambda>i. (lats ! i, lons ! i)) idx"
  unfolding take_idx_def by (induction idx) simp_all

lemma sample_nth:
  assumes "length inb = nat mNP" "j < nat mNP"
  shows "sample f mNP inb lons lats ! j =
         (if inb ! j then call_interp f (lats ! j, lons ! j) else Fin 0)"
proof (cases "np_any inb")
  case True
  have eq: "sample f mNP inb lons lats =
        put_idx (replicate (nat mNP) (Fin 0)) (np_where inb)
          (map (\<lambda>i. call_interp f (lats ! i, lons ! i)) (np_where inb))"
    using True by (simp add: sample_def Let_def gather_pts o_def)
  have "j < length (replicate (nat mNP) (Fin 0 :: fl))" using assms by simp
  from put_idx_nth[OF this, of "np_where inb" "\<lambda>i. call_interp f (lats ! i, lons ! i)"]
  have "sample f mNP inb lons lats ! j =
        (if j \<in> set (np_where inb) then call_interp f (lats ! j, lons ! j)
         else replicate (nat mNP) (Fin 0) ! j)"
    unfolding eq .
  moreover have "j \<in> set (np_where inb) \<longleftrightarrow> inb ! j"
    using assms by (simp add: set_np_where)
  moreover have "replicate (nat mNP) (Fin 0 :: fl) ! j = Fin 0"
    using assms(2) by simp
  ultimately show ?thesis by simp
next
  case False
  then have nj: "\<not> inb ! j" using assms by (auto simp: np_any_iff)
  have "sample f mNP inb lons lats = replicate (nat mNP) (Fin 0)"
    using False by (simp add: sample_def Let_def)
  then show ?thesis using nj assms(2) by simp
qed


lemma mask_fill_nth:
  "length a = length m \<Longrightarrow> j < length a \<Longrightarrow> mask_fill a m c ! j = (if m ! j then c else a ! j)"
  by (simp add: mask_fill_def)

lemma mask_fill_length: "length a = length m \<Longrightarrow> length (mask_fill a m c) = length a"
  by (simp add: mask_fill_def)

lemma advance_length:
  "length pos = length inb \<Longrightarrow> length d = length inb \<Longrightarrow> length (advance mSIM inb pos d) = length inb"
  by (simp add: advance_def Let_def mask_set_map2 mask_fill_def)

lemma advance_nth:
  assumes "length pos = length inb" "length d = length inb" "j < length inb"
  shows "advance mSIM inb pos d ! j =
         (if inb ! j then (if mSIM = ''forwards'' then fl_add (pos ! j) (d ! j)
                           else fl_sub (pos ! j) (d ! j))
          else NaN)"
  using assms by (simp add: advance_def Let_def mask_set_map2 mask_fill_def)

lemma blend_length: "length a1 = n \<Longrightarrow> length a2 = n \<Longrightarrow> length (blend d1 d2 a1 a2) = n"
  by (simp add: blend_def)

lemma blend_nth:
  "length a1 = n \<Longrightarrow> length a2 = n \<Longrightarrow> j < n \<Longrightarrow>
   blend d1 d2 a1 a2 ! j = fl_add (fl_mul (Fin d1) (a1 ! j)) (fl_mul (Fin d2) (a2 ! j))"
  by (simp add: blend_def)

lemma velocity_length:
  "length (fst (velocity f_u1 f_v1 f_u2 f_v2 mNP sub_steps s inb lons lats)) = nat mNP \<and>
   length (snd (velocity f_u1 f_v1 f_u2 f_v2 mNP sub_steps s inb lons lats)) = nat mNP"
  by (simp add: velocity_def Let_def blend_length sample_length)

lemma velocity_nth:
  assumes "length inb = nat mNP" "j < nat mNP"
  shows "fst (velocity f_u1 f_v1 f_u2 f_v2 mNP sub_steps s inb lons lats) ! j =
           fl_add (fl_mul (Fin (1 - real_of_int s / real_of_int sub_steps))
                     (if inb ! j then call_interp f_u1 (lats ! j, lons ! j) else Fin 0))
                  (fl_mul (Fin (real_of_int s / real_of_int sub_steps))
                     (if inb ! j then call_interp f_u2 (lats ! j, lons ! j) else Fin 0))"
    and "snd (velocity f_u1 f_v1 f_u2 f_v2 mNP sub_steps s inb lons lats) ! j =
           fl_add (fl_mul (Fin (1 - real_of_int s / real_of_int sub_steps))
                     (if inb ! j then call_interp f_v1 (lats ! j, lons ! j) else Fin 0))
                  (fl_mul (Fin (real_of_int s / real_of_int sub_steps))
                     (if inb ! j then call_interp f_v2 (lats ! j, lons ! j) else Fin 0))"
  using assms
  by (simp_all add: velocity_def Let_def blend_nth[where n="nat mNP"] sample_length sample_nth)

lemma displacement_length:
  "length ui = n \<Longrightarrow> length vi = n \<Longrightarrow> length lats = n \<Longrightarrow>
   length (fst (displacement dt ui vi lats)) = n \<and> length (snd (displacement dt ui vi lats)) = n"
  by (simp add: displacement_def Let_def)

lemma displacement_nth:
  assumes "length ui = n" "length vi = n" "length lats = n" "j < n"
  shows "fst (displacement dt ui vi lats) ! j =
           fl_mul (fl_mul (ui ! j) (Fin (real_of_int (dt * 3600))))
                  (fl_div (Fin lat_per_m) (fl_cos (fl_radians (lats ! j))))"
    and "snd (displacement dt ui vi lats) ! j =
           fl_mul (fl_mul (vi ! j) (Fin (real_of_int (dt * 3600)))) (Fin lat_per_m)"
  using assms by (simp_all add: displacement_def Let_def)

lemma inb_mask_length:
  "length lons = n \<Longrightarrow> length lats = n \<Longrightarrow> length (inb_mask a b c d lons lats) = n"
  by (simp add: inb_mask_def)

lemma inb_mask_nth:
  "length lons = n \<Longrightarrow> length lats = n \<Longrightarrow> j < n \<Longrightarrow>
   inb_mask a b c d lons lats ! j = in_bounds a b c d (lons ! j) (lats ! j)"
  by (simp add: inb_mask_def)


section \<open>One sub-step, particle by particle\<close>

lemma ebind_Inr_iff: "ebind m f = Inr y \<longleftrightarrow> (\<exists>x. m = Inr x \<and> f x = Inr y)"
  by (cases m) (simp_all add: ebind_def)

lemma ebind_Inr [simp]: "ebind (Inr x) f = f x"
  by (simp add: ebind_def)

lemma ebind_Inl [simp]: "ebind (Inl e) f = Inl e"
  by (simp add: ebind_def)

lemma sub_step_bounds:
  assumes "sub_step mSIM dt sd lat_nc lon_nc f_u1 f_v1 f_u2 f_v2 mNP sub_steps s st = Inr st'"
  obtains a b c d where "np_min lon_nc = Inr a" "np_max lon_nc = Inr b"
    "np_min lat_nc = Inr c" "np_max lat_nc = Inr d"
  using assms unfolding sub_step_def ebind_Inr_iff by blast

lemma sub_step_eq:
  assumes "np_min lon_nc = Inr a" "np_max lon_nc = Inr b"
    "np_min lat_nc = Inr c" "np_max lat_nc = Inr d"
  shows "sub_step mSIM dt sd lat_nc lon_nc f_u1 f_v1 f_u2 f_v2 mNP sub_steps s st =
     (let inb = inb_mask a b c d (lonP st) (latP st);
          vel = velocity f_u1 f_v1 f_u2 f_v2 mNP sub_steps s inb (lonP st) (latP st);
          dis = displacement dt (fst vel) (snd vel) (latP st);
          lonP' = advance mSIM inb (lonP st) (fst dis);
          latP' = advance mSIM inb (latP st) (snd dis)
      in Inr \<lparr> lonP = lonP', latP = latP',
               LONP = LONP st @ [lonP'], LATP = LATP st @ [latP'],
               dates = dates st @ [Stamp sd (int (length (dates st)) * dt)] \<rparr>)"
  unfolding sub_step_def assms by (simp add: Let_def case_prod_beta)

lemma sub_step_effect:
  assumes step: "sub_step mSIM dt sd lat_nc lon_nc f_u1 f_v1 f_u2 f_v2 mNP sub_steps s st = Inr st'"
    and bnd: "np_min lon_nc = Inr a" "np_max lon_nc = Inr b"
      "np_min lat_nc = Inr c" "np_max lat_nc = Inr d"
    and len: "length (lonP st) = nat mNP" "length (latP st) = nat mNP"
  shows "length (lonP st') = nat mNP" "length (latP st') = nat mNP"
    "LONP st' = LONP st @ [lonP st']" "LATP st' = LATP st @ [latP st']"
    "dates st' = dates st @ [Stamp sd (int (length (dates st)) * dt)]"
    "\<And>j. j < nat mNP \<Longrightarrow>
       (lonP st' ! j, latP st' ! j) =
       particle_step mSIM dt a b c d f_u1 f_v1 f_u2 f_v2 sub_steps s (lonP st ! j, latP st ! j)"
proof -
  define inb where "inb = inb_mask a b c d (lonP st) (latP st)"
  define vel where "vel = velocity f_u1 f_v1 f_u2 f_v2 mNP sub_steps s inb (lonP st) (latP st)"
  define dis where "dis = displacement dt (fst vel) (snd vel) (latP st)"
  have st': "st' = \<lparr> lonP = advance mSIM inb (lonP st) (fst dis),
                    latP = advance mSIM inb (latP st) (snd dis),
                    LONP = LONP st @ [advance mSIM inb (lonP st) (fst dis)],
                    LATP = LATP st @ [advance mSIM inb (latP st) (snd dis)],
                    dates = dates st @ [Stamp sd (int (length (dates st)) * dt)] \<rparr>"
    using step unfolding sub_step_eq[OF bnd] inb_def vel_def dis_def Let_def by simp
  have li: "length inb = nat mNP" unfolding inb_def using len by (simp add: inb_mask_length)
  have lv: "length (fst vel) = nat mNP" "length (snd vel) = nat mNP"
    unfolding vel_def using velocity_length by blast+
  have ld: "length (fst dis) = nat mNP" "length (snd dis) = nat mNP"
    unfolding dis_def using displacement_length[OF lv len(2)] by blast+
  show "length (lonP st') = nat mNP" "length (latP st') = nat mNP"
    unfolding st' using li len ld by (simp_all add: advance_length)
  show "LONP st' = LONP st @ [lonP st']" "LATP st' = LATP st @ [latP st']"
    "dates st' = dates st @ [Stamp sd (int (length (dates st)) * dt)]"
    unfolding st' by simp_all
  fix j assume j: "j < nat mNP"
  have ij: "inb ! j = in_bounds a b c d (lonP st ! j) (latP st ! j)"
    unfolding inb_def using inb_mask_nth[OF len j] .
  have lo: "lonP st' ! j =
      (if inb ! j then (if mSIM = ''forwards'' then fl_add (lonP st ! j) (fst dis ! j)
                        else fl_sub (lonP st ! j) (fst dis ! j)) else NaN)"
    unfolding st' using advance_nth[of "lonP st" inb "fst dis" j mSIM] li len ld j by simp
  have la: "latP st' ! j =
      (if inb ! j then (if mSIM = ''forwards'' then fl_add (latP st ! j) (snd dis ! j)
                        else fl_sub (latP st ! j) (snd dis ! j)) else NaN)"
    unfolding st' using advance_nth[of "latP st" inb "snd dis" j mSIM] li len ld j by simp
  have d1: "fst dis ! j = fl_mul (fl_mul (fst vel ! j) (Fin (real_of_int (dt * 3600))))
                  (fl_div (Fin lat_per_m) (fl_cos (fl_radians (latP st ! j))))"
    and d2: "snd dis ! j = fl_mul (fl_mul (snd vel ! j) (Fin (real_of_int (dt * 3600)))) (Fin lat_per_m)"
    unfolding dis_def using displacement_nth[OF lv len(2) j] by blast+
  note v = velocity_nth[OF li j, of f_u1 f_v1 f_u2 f_v2 sub_steps s "lonP st" "latP st", folded vel_def]
  show "(lonP st' ! j, latP st' ! j) =
       particle_step mSIM dt a b c d f_u1 f_v1 f_u2 f_v2 sub_steps s (lonP st ! j, latP st ! j)"
    unfolding lo la d1 d2 v particle_step_def ij by (simp add: Let_def)
qed


section \<open>The invariant of the loops\<close>

lemma particle_step_out:
  "\<not> in_bounds a b c d lo la \<Longrightarrow>
   particle_step mSIM dt a b c d f_u1 f_v1 f_u2 f_v2 sub_steps s (lo, la) = (NaN, NaN)"
  by (simp add: particle_step_def)

lemma chain_snoc:
  assumes "\<forall>k. Suc k < length C \<longrightarrow> R (C ! k) (C ! Suc k)" "C \<noteq> []" "R (last C) x"
  shows "\<forall>k. Suc k < length (C @ [x]) \<longrightarrow> R ((C @ [x]) ! k) ((C @ [x]) ! Suc k)"
proof (intro allI impI)
  fix k assume k: "Suc k < length (C @ [x])"
  show "R ((C @ [x]) ! k) ((C @ [x]) ! Suc k)"
  proof (cases "Suc k < length C")
    case True
    then show ?thesis using assms(1) by (simp add: nth_append)
  next
    case False
    then have e: "Suc k = length C" using k by simp
    then have k': "k = length C - 1" by simp
    have "(C @ [x]) ! k = last C" "(C @ [x]) ! Suc k = x"
      using assms(2) e by (simp_all add: nth_append last_conv_nth k')
    then show ?thesis using assms(3) by simp
  qed
qed

lemma sub_step_inv:
  assumes step: "sub_step mSIM dt sd lat_nc lon_nc f_u1 f_v1 f_u2 f_v2 mNP sub_steps s st = Inr st'"
    and bnd: "np_min lon_nc = Inr a" "np_max lon_nc = Inr b"
      "np_min lat_nc = Inr c" "np_max lat_nc = Inr d"
    and inv: "run_inv a b c d (nat mNP) sd dt c0 st"
  shows "run_inv a b c d (nat mNP) sd dt c0 st'"
    and "length (LONP st') = Suc (length (LONP st))"
proof -
  have len: "length (lonP st) = nat mNP" "length (latP st) = nat mNP"
    using inv by (simp_all add: run_inv_def)
  note eff = sub_step_effect[OF step bnd len]
  let ?C = "c0 # zip (LONP st) (LATP st)"
  have zip': "c0 # zip (LONP st') (LATP st') = ?C @ [(lonP st', latP st')]"
    using inv unfolding eff(3,4) by (simp add: run_inv_def)
  have ex: "exits a b c d (nat mNP) (last ?C) (lonP st', latP st')"
  proof -
    have l: "last ?C = (lonP st, latP st)" using inv by (simp add: run_inv_def)
    have "\<forall>j<nat mNP. \<not> in_bounds a b c d (lonP st ! j) (latP st ! j) \<longrightarrow>
            lonP st' ! j = NaN \<and> latP st' ! j = NaN"
    proof (intro allI impI)
      fix j assume j: "j < nat mNP" and o: "\<not> in_bounds a b c d (lonP st ! j) (latP st ! j)"
      from eff(6)[OF j] particle_step_out[OF o]
      show "lonP st' ! j = NaN \<and> latP st' ! j = NaN" by simp
    qed
    then show ?thesis unfolding exits_def l using eff(1,2) by simp
  qed
  have chain: "\<forall>k. Suc k < length (c0 # zip (LONP st') (LATP st')) \<longrightarrow>
          exits a b c d (nat mNP) ((c0 # zip (LONP st') (LATP st')) ! k)
                          ((c0 # zip (LONP st') (LATP st')) ! Suc k)"
    unfolding zip'
    by (rule chain_snoc[where R="exits a b c d (nat mNP)"])
       (use inv ex in \<open>simp_all add: run_inv_def\<close>)
  have dts: "\<forall>k < length (dates st'). dates st' ! k = Stamp sd (int k * dt)"
    using inv unfolding eff(5) by (auto simp: run_inv_def nth_append less_Suc_eq)
  show "run_inv a b c d (nat mNP) sd dt c0 st'"
    unfolding run_inv_def
  proof (intro conjI)
    show "length (lonP st') = nat mNP" "length (latP st') = nat mNP" by (rule eff)+
    show "length (LATP st') = length (LONP st')" "length (dates st') = length (LONP st')"
      using inv unfolding eff(3,4,5) by (simp_all add: run_inv_def)
    show "\<forall>k < length (dates st'). dates st' ! k = Stamp sd (int k * dt)" by (rule dts)
    show "last (c0 # zip (LONP st') (LATP st')) = (lonP st', latP st')"
      unfolding zip' by simp
    show "\<forall>k. Suc k < length (c0 # zip (LONP st') (LATP st')) \<longrightarrow>
          exits a b c d (nat mNP) ((c0 # zip (LONP st') (LATP st')) ! k)
                          ((c0 # zip (LONP st') (LATP st')) ! Suc k)" by (rule chain)
  qed
  show "length (LONP st') = Suc (length (LONP st))" unfolding eff(3) by simp
qed

lemma sub_loop_inv:
  assumes "sub_loop mSIM dt sd lat_nc lon_nc f_u1 f_v1 f_u2 f_v2 mNP sub_steps ss st = Inr st'"
    and bnd: "np_min lon_nc = Inr a" "np_max lon_nc = Inr b"
      "np_min lat_nc = Inr c" "np_max lat_nc = Inr d"
    and "run_inv a b c d (nat mNP) sd dt c0 st"
  shows "run_inv a b c d (nat mNP) sd dt c0 st' \<and>
         length (LONP st') = length (LONP st) + length ss"
  using assms(1,6)
proof (induction ss arbitrary: st)
  case Nil
  then show ?case by simp
next
  case (Cons s ss)
  from Cons.prems(1) obtain st1 where
    s1: "sub_step mSIM dt sd lat_nc lon_nc f_u1 f_v1 f_u2 f_v2 mNP sub_steps s st = Inr st1"
    and s2: "sub_loop mSIM dt sd lat_nc lon_nc f_u1 f_v1 f_u2 f_v2 mNP sub_steps ss st1 = Inr st'"
    by (auto simp: ebind_Inr_iff)
  note i1 = sub_step_inv[OF s1 bnd Cons.prems(2)]
  from Cons.IH[OF s2 i1(1)] i1(2) show ?case by simp
qed


lemma length_py_range: "length (py_range a b) = nat (b - a)"
  by (simp add: py_range_def)

lemma length_py_range_down: "length (py_range_down a b) = nat (a - b)"
  by (simp add: py_range_down_def)

lemma length_time_idx: "length (time_idx mSIM ms n) = nat ms"
  by (simp add: time_idx_def Let_def length_py_range length_py_range_down)

lemma major_step_inv:
  assumes "major_step RGI mSIM dt sd ND lat_nc lon_nc U V mNP t st = Inr st'"
    and bnd: "np_min lon_nc = Inr a" "np_max lon_nc = Inr b"
      "np_min lat_nc = Inr c" "np_max lat_nc = Inr d"
    and "run_inv a b c d (nat mNP) sd dt c0 st"
  shows "run_inv a b c d (nat mNP) sd dt c0 st' \<and> dt \<noteq> 0 \<and>
         length (LONP st') =
           length (LONP st) + nat (py_int_of_float (real_of_int (ND * 24) / real_of_int dt))"
proof -
  from assms(1) obtain f_u1 f_v1 f_u2 f_v2 sub_steps where
    q: "py_trunc_div (ND * 24) dt = Inr sub_steps"
    and l: "sub_loop mSIM dt sd lat_nc lon_nc f_u1 f_v1 f_u2 f_v2 mNP sub_steps
              (py_range 1 (sub_steps + 1)) st = Inr st'"
    unfolding major_step_def Let_def case_prod_beta ebind_Inr_iff by blast
  from q have dt: "dt \<noteq> 0"
    and sub: "sub_steps = py_int_of_float (real_of_int (ND * 24) / real_of_int dt)"
    by (auto simp: py_trunc_div_def split: if_splits)
  from sub_loop_inv[OF l bnd assms(6)] dt sub show ?thesis
    by (simp add: length_py_range)
qed

lemma major_loop_inv:
  assumes "major_loop RGI mSIM dt sd ND lat_nc lon_nc U V mNP ts st = Inr st'"
    and bnd: "np_min lon_nc = Inr a" "np_max lon_nc = Inr b"
      "np_min lat_nc = Inr c" "np_max lat_nc = Inr d"
    and "run_inv a b c d (nat mNP) sd dt c0 st"
  shows "run_inv a b c d (nat mNP) sd dt c0 st' \<and> (ts \<noteq> [] \<longrightarrow> dt \<noteq> 0) \<and>
         length (LONP st') =
           length (LONP st) +
           length ts * nat (py_int_of_float (real_of_int (ND * 24) / real_of_int dt))"
  using assms(1,6)
proof (induction ts arbitrary: st)
  case Nil
  then show ?case by simp
next
  case (Cons t ts)
  from Cons.prems(1) obtain st1 where
    s1: "major_step RGI mSIM dt sd ND lat_nc lon_nc U V mNP t st = Inr st1"
    and s2: "major_loop RGI mSIM dt sd ND lat_nc lon_nc U V mNP ts st1 = Inr st'"
    by (auto simp: ebind_Inr_iff)
  note i1 = major_step_inv[OF s1 bnd Cons.prems(2)]
  from Cons.IH[OF s2] i1 show ?case by (simp add: algebra_simps)
qed

lemma package_Inr:
  assumes "package st dt map_pts reef_pts mlon mlat mAREA mSIM mNP lat_nc lon_nc = Inr r"
  obtains a b c d where "np_min lon_nc = Inr a" "np_max lon_nc = Inr b"
    "np_min lat_nc = Inr c" "np_max lat_nc = Inr d"
    "out_bounds r = (a, b, c, d)" "out_LONP r = LONP st" "out_LATP r = LATP st"
    "out_dates r = dates st" "out_TS r = length (LONP st)" "out_dt r = dt"
    "out_mlon r = mlon" "out_mlat r = mlat" "out_mAREA r = mAREA" "out_mSIM r = mSIM"
    "out_mNP r = mNP"
  using assms unfolding package_def ebind_Inr_iff by auto

lemma simulate_aus_Inr:
  assumes "simulate_aus E mlon mlat mNP mAREA mSIM mDUR dt sd ND = Inr r"
  obtains ds ms st reef_pts where
    "oscar_nc E = Inr ds" "0 \<le> mNP" "fromisoformat E sd"
    "major_steps mDUR ND (length (ds_time ds)) = Inr ms"
    "major_loop (RegularGridInterpolator E) mSIM dt sd ND (ds_latitude ds) (ds_longitude ds)
       (nan_to_zero (squeeze (ds_u ds))) (nan_to_zero (squeeze (ds_v ds))) mNP
       (time_idx mSIM ms (length (ds_time ds)))
       \<lparr> lonP = seed mlon mAREA (uniform_1 E) mNP, latP = seed mlat mAREA (uniform_2 E) mNP,
         LONP = [], LATP = [], dates = [] \<rparr> = Inr st"
    "package st dt (case ebind (etopo_csv E) unzip2 of Inl _ \<Rightarrow> ([], []) | Inr p \<Rightarrow> p)
       reef_pts mlon mlat mAREA mSIM mNP (ds_latitude ds) (ds_longitude ds) = Inr r"
  using assms
  by (auto simp: simulate_aus_def Let_def ebind_Inr_iff split: if_splits)

lemma seed_length: "length (seed c mAREA draw mNP) = nat mNP"
  by (simp add: seed_def)

lemma run_inv_init:
  "run_inv a b c d (nat mNP) sd dt (seed mlon mAREA d1 mNP, seed mlat mAREA d2 mNP)
     \<lparr> lonP = seed mlon mAREA d1 mNP, latP = seed mlat mAREA d2 mNP,
       LONP = [], LATP = [], dates = [] \<rparr>"
  by (simp add: run_inv_def seed_length)


lemma major_steps_Inr:
  "major_steps mDUR ND n = Inr ms \<Longrightarrow>
   ND \<noteq> 0 \<and> ms = min \<lceil>real_of_int mDUR / real_of_int ND\<rceil> (int n - 1)"
  by (auto simp: major_steps_def py_ceil_div_def Let_def ebind_Inr_iff split: if_splits)

lemma simulate_aus_run:
  assumes "simulate_aus E mlon mlat mNP mAREA mSIM mDUR dt sd ND = Inr r"
  obtains ds a b c d st where
    "oscar_nc E = Inr ds" "ND \<noteq> 0" "0 \<le> mNP"
    "np_min (ds_longitude ds) = Inr a" "np_max (ds_longitude ds) = Inr b"
    "np_min (ds_latitude ds) = Inr c" "np_max (ds_latitude ds) = Inr d"
    "out_bounds r = (a, b, c, d)"
    "out_LONP r = LONP st" "out_LATP r = LATP st" "out_dates r = dates st"
    "out_TS r = length (LONP st)"
    "run_inv a b c d (nat mNP) sd dt
       (seed mlon mAREA (uniform_1 E) mNP, seed mlat mAREA (uniform_2 E) mNP) st"
    "length (LONP st) =
       nat (min \<lceil>real_of_int mDUR / real_of_int ND\<rceil> (int (length (ds_time ds)) - 1)) *
       nat (py_int_of_float (real_of_int (ND * 24) / real_of_int dt))"
proof (rule simulate_aus_Inr[OF assms])
  fix ds ms st reef_pts
  assume ds: "oscar_nc E = Inr ds" and np: "0 \<le> mNP" and "fromisoformat E sd"
    and ms: "major_steps mDUR ND (length (ds_time ds)) = Inr ms"
    and loop: "major_loop (RegularGridInterpolator E) mSIM dt sd ND (ds_latitude ds) (ds_longitude ds)
       (nan_to_zero (squeeze (ds_u ds))) (nan_to_zero (squeeze (ds_v ds))) mNP
       (time_idx mSIM ms (length (ds_time ds)))
       \<lparr> lonP = seed mlon mAREA (uniform_1 E) mNP, latP = seed mlat mAREA (uniform_2 E) mNP,
         LONP = [], LATP = [], dates = [] \<rparr> = Inr st"
    and pk: "package st dt (case ebind (etopo_csv E) unzip2 of Inl _ \<Rightarrow> ([], []) | Inr p \<Rightarrow> p)
       reef_pts mlon mlat mAREA mSIM mNP (ds_latitude ds) (ds_longitude ds) = Inr r"
  from major_steps_Inr[OF ms] have nd: "ND \<noteq> 0"
    and mse: "ms = min \<lceil>real_of_int mDUR / real_of_int ND\<rceil> (int (length (ds_time ds)) - 1)"
    by simp_all
  show thesis
  proof (rule package_Inr[OF pk])
    fix a b c d
    assume bnd: "np_min (ds_longitude ds) = Inr a" "np_max (ds_longitude ds) = Inr b"
      "np_min (ds_latitude ds) = Inr c" "np_max (ds_latitude ds) = Inr d"
    and out: "out_bounds r = (a, b, c, d)" "out_LONP r = LONP st" "out_LATP r = LATP st"
      "out_dates r = dates st" "out_TS r = length (LONP st)"
    have inv: "run_inv a b c d (nat mNP) sd dt
         (seed mlon mAREA (uniform_1 E) mNP, seed mlat mAREA (uniform_2 E) mNP) st"
      and cnt0: "length (LONP st) = length (time_idx mSIM ms (length (ds_time ds))) *
           nat (py_int_of_float (real_of_int (ND * 24) / real_of_int dt))"
      using major_loop_inv[OF loop bnd run_inv_init] by simp_all
    have cnt: "length (LONP st) =
       nat (min \<lceil>real_of_int mDUR / real_of_int ND\<rceil> (int (length (ds_time ds)) - 1)) *
       nat (py_int_of_float (real_of_int (ND * 24) / real_of_int dt))"
      unfolding cnt0 length_time_idx mse ..
    show thesis by (rule that[OF ds nd np bnd out inv cnt])
  qed
qed

section \<open>The drivers return\<close>

lemma time_idx_range:
  assumes "ms \<le> int n - 1" "t \<in> set (time_idx mSIM ms n)"
  shows "0 \<le> t \<and> t \<le> int n - 1 \<and>
         0 \<le> (if mSIM = ''forwards'' then t + 1 else t - 1) \<and>
         (if mSIM = ''forwards'' then t + 1 else t - 1) \<le> int n - 1"
  using assms by (auto simp: time_idx_def Let_def py_range_def py_range_down_def split: if_splits)

lemma py_index_ok: "0 \<le> i \<Longrightarrow> i < int (length a) \<Longrightarrow> py_index a i = Inr (a ! nat i)"
  by (simp add: py_index_def)

lemma sub_loop_total:
  assumes bnd: "np_min lon_nc = Inr a" "np_max lon_nc = Inr b"
      "np_min lat_nc = Inr c" "np_max lat_nc = Inr d"
  shows "\<exists>st'. sub_loop mSIM dt sd lat_nc lon_nc f_u1 f_v1 f_u2 f_v2 mNP sub_steps ss st = Inr st'"
proof (induction ss arbitrary: st)
  case Nil
  show ?case by simp
next
  case (Cons s ss)
  obtain st1 where "sub_step mSIM dt sd lat_nc lon_nc f_u1 f_v1 f_u2 f_v2 mNP sub_steps s st = Inr st1"
    unfolding sub_step_eq[OF bnd] Let_def by blast
  with Cons.IH[of st1] show ?case by simp
qed

lemma major_step_total:
  assumes bnd: "np_min lon_nc = Inr a" "np_max lon_nc = Inr b"
      "np_min lat_nc = Inr c" "np_max lat_nc = Inr d"
    and rgi: "\<forall>g \<in> set U \<union> set V. \<exists>f. RGI lat_nc lon_nc g = Inr f"
    and len: "length U = n" "length V = n"
    and dt: "dt \<noteq> 0"
    and t: "0 \<le> t \<and> t < int n \<and>
           0 \<le> (if mSIM = ''forwards'' then t + 1 else t - 1) \<and>
           (if mSIM = ''forwards'' then t + 1 else t - 1) < int n"
  shows "\<exists>st'. major_step RGI mSIM dt sd ND lat_nc lon_nc (Arr3 U) (Arr3 V) mNP t st = Inr st'"
proof -
  define i2 where "i2 = (if mSIM = ''forwards'' then t + 1 else t - 1)"
  have i1: "0 \<le> t" "t < int n" and i2: "0 \<le> i2" "i2 < int n" using t by (simp_all add: i2_def)
  have ix: "index3 (Arr3 U) t = Inr (U ! nat t)" "index3 (Arr3 U) i2 = Inr (U ! nat i2)"
    "index3 (Arr3 V) t = Inr (V ! nat t)" "index3 (Arr3 V) i2 = Inr (V ! nat i2)"
    using i1 i2 len by (simp_all add: index3_def py_index_ok)
  have mem: "U ! nat t \<in> set U \<union> set V" "U ! nat i2 \<in> set U \<union> set V"
    "V ! nat t \<in> set U \<union> set V" "V ! nat i2 \<in> set U \<union> set V"
    using i1 i2 len by simp_all
  from rgi mem(1) obtain f_u1 where f1: "RGI lat_nc lon_nc (U ! nat t) = Inr f_u1" by blast
  from rgi mem(3) obtain f_v1 where f2: "RGI lat_nc lon_nc (V ! nat t) = Inr f_v1" by blast
  from rgi mem(2) obtain f_u2 where f3: "RGI lat_nc lon_nc (U ! nat i2) = Inr f_u2" by blast
  from rgi mem(4) obtain f_v2 where f4: "RGI lat_nc lon_nc (V ! nat i2) = Inr f_v2" by blast
  have q: "py_trunc_div (ND * 24) dt = Inr (py_int_of_float (real_of_int (ND * 24) / real_of_int dt))"
    using dt by (simp add: py_trunc_div_def)
  have "major_step RGI mSIM dt sd ND lat_nc lon_nc (Arr3 U) (Arr3 V) mNP t st =
        sub_loop mSIM dt sd lat_nc lon_nc f_u1 f_v1 f_u2 f_v2 mNP
          (py_int_of_float (real_of_int (ND * 24) / real_of_int dt))
          (py_range 1 (py_int_of_float (real_of_int (ND * 24) / real_of_int dt) + 1)) st"
  proof (cases "mSIM = ''forwards''")
    case True
    then have e: "i2 = t + 1" by (simp add: i2_def)
    show ?thesis using True ix f1 f2 f3 f4 q unfolding major_step_def index_pair_def e
      by (simp add: Let_def)
  next
    case False
    then have e: "i2 = t - 1" by (simp add: i2_def)
    show ?thesis using False ix f1 f2 f3 f4 q unfolding major_step_def index_pair_def e
      by (simp add: Let_def)
  qed
  then show ?thesis using sub_loop_total[OF bnd] by simp
qed

lemma major_loop_total:
  assumes bnd: "np_min lon_nc = Inr a" "np_max lon_nc = Inr b"
      "np_min lat_nc = Inr c" "np_max lat_nc = Inr d"
    and rgi: "\<forall>g \<in> set U \<union> set V. \<exists>f. RGI lat_nc lon_nc g = Inr f"
    and len: "length U = n" "length V = n"
    and dt: "ts \<noteq> [] \<Longrightarrow> dt \<noteq> 0"
    and ts: "\<And>t. t \<in> set ts \<Longrightarrow> 0 \<le> t \<and> t < int n \<and>
           0 \<le> (if mSIM = ''forwards'' then t + 1 else t - 1) \<and>
           (if mSIM = ''forwards'' then t + 1 else t - 1) < int n"
  shows "\<exists>st'. major_loop RGI mSIM dt sd ND lat_nc lon_nc (Arr3 U) (Arr3 V) mNP ts st = Inr st'"
  using ts dt
proof (induction ts arbitrary: st)
  case Nil
  show ?case by simp
next
  case (Cons t ts)
  have tt: "0 \<le> t \<and> t < int n \<and>
           0 \<le> (if mSIM = ''forwards'' then t + 1 else t - 1) \<and>
           (if mSIM = ''forwards'' then t + 1 else t - 1) < int n"
    using Cons.prems(1)[of t] by simp
  have dt0: "dt \<noteq> 0" using Cons.prems(2) by simp
  have "\<exists>st1. major_step RGI mSIM dt sd ND lat_nc lon_nc (Arr3 U) (Arr3 V) mNP t st = Inr st1"
    by (rule major_step_total[where n=n and a=a and b=b and c=c and d=d])
       (fact bnd rgi len dt0 tt)+
  then obtain st1 where
    s1: "major_step RGI mSIM dt sd ND lat_nc lon_nc (Arr3 U) (Arr3 V) mNP t st = Inr st1" ..
  have "\<exists>st'. major_loop RGI mSIM dt sd ND lat_nc lon_nc (Arr3 U) (Arr3 V) mNP ts st1 = Inr st'"
  proof (rule Cons.IH)
    fix t' assume "t' \<in> set ts"
    then show "0 \<le> t' \<and> t' < int n \<and>
           0 \<le> (if mSIM = ''forwards'' then t' + 1 else t' - 1) \<and>
           (if mSIM = ''forwards'' then t' + 1 else t' - 1) < int n"
      using Cons.prems(1)[of t'] by simp
  next
    show "dt \<noteq> 0" by (rule dt0)
  qed
  with s1 show ?case by simp
qed

lemma np_min_Inr: "xs \<noteq> [] \<Longrightarrow> \<exists>a. np_min xs = Inr a"
  by (cases xs) (simp_all add: np_min_def)

lemma np_max_Inr: "xs \<noteq> [] \<Longrightarrow> \<exists>a. np_max xs = Inr a"
  by (cases xs) (simp_all add: np_max_def)


lemma simulate_aus_total:
  assumes ds: "oscar_nc E = Inr ds"
    and reef: "ebind (reef_csv E) unzip2 = Inr reef_pts"
    and np: "0 \<le> mNP" and iso: "fromisoformat E sd" and nd: "ND \<noteq> 0" and dt: "dt \<noteq> 0"
    and arr: "nan_to_zero (squeeze (ds_u ds)) = Arr3 U" "nan_to_zero (squeeze (ds_v ds)) = Arr3 V"
    and len: "length U = length (ds_time ds)" "length V = length (ds_time ds)"
    and ax: "ds_latitude ds \<noteq> []" "ds_longitude ds \<noteq> []"
    and rgi: "\<forall>g \<in> set U \<union> set V.
                \<exists>f. RegularGridInterpolator E (ds_latitude ds) (ds_longitude ds) g = Inr f"
  shows "\<exists>r. simulate_aus E mlon mlat mNP mAREA mSIM mDUR dt sd ND = Inr r"
proof -
  obtain a b c d where bnd: "np_min (ds_longitude ds) = Inr a" "np_max (ds_longitude ds) = Inr b"
      "np_min (ds_latitude ds) = Inr c" "np_max (ds_latitude ds) = Inr d"
    using np_min_Inr[OF ax(1)] np_min_Inr[OF ax(2)] np_max_Inr[OF ax(1)] np_max_Inr[OF ax(2)]
    by blast
  define ms where "ms = min \<lceil>real_of_int mDUR / real_of_int ND\<rceil> (int (length (ds_time ds)) - 1)"
  have ms: "major_steps mDUR ND (length (ds_time ds)) = Inr ms"
    using nd by (simp add: major_steps_def py_ceil_div_def ms_def Let_def)
  have le: "ms \<le> int (length (ds_time ds)) - 1" by (simp add: ms_def)
  have rng: "\<And>t. t \<in> set (time_idx mSIM ms (length (ds_time ds))) \<Longrightarrow>
      0 \<le> t \<and> t < int (length (ds_time ds)) \<and>
      0 \<le> (if mSIM = ''forwards'' then t + 1 else t - 1) \<and>
      (if mSIM = ''forwards'' then t + 1 else t - 1) < int (length (ds_time ds))"
    using time_idx_range[OF le] by force
  have "\<exists>st. major_loop (RegularGridInterpolator E) mSIM dt sd ND (ds_latitude ds)
       (ds_longitude ds) (Arr3 U) (Arr3 V) mNP
       (time_idx mSIM ms (length (ds_time ds)))
       \<lparr> lonP = seed mlon mAREA (uniform_1 E) mNP, latP = seed mlat mAREA (uniform_2 E) mNP,
         LONP = [], LATP = [], dates = [] \<rparr> = Inr st"
  proof (rule major_loop_total[where n="length (ds_time ds)" and a=a and b=b and c=c and d=d])
    show "dt \<noteq> 0" by (rule dt)
    show "\<And>t. t \<in> set (time_idx mSIM ms (length (ds_time ds))) \<Longrightarrow>
      0 \<le> t \<and> t < int (length (ds_time ds)) \<and>
      0 \<le> (if mSIM = ''forwards'' then t + 1 else t - 1) \<and>
      (if mSIM = ''forwards'' then t + 1 else t - 1) < int (length (ds_time ds))"
      by (rule rng)
  qed (fact bnd rgi len)+
  then obtain st where loop: "major_loop (RegularGridInterpolator E) mSIM dt sd ND (ds_latitude ds)
       (ds_longitude ds) (Arr3 U) (Arr3 V) mNP
       (time_idx mSIM ms (length (ds_time ds)))
       \<lparr> lonP = seed mlon mAREA (uniform_1 E) mNP, latP = seed mlat mAREA (uniform_2 E) mNP,
         LONP = [], LATP = [], dates = [] \<rparr> = Inr st" ..
  show ?thesis
    unfolding simulate_aus_def ds
    using np iso by (simp add: Let_def reef ms arr loop package_def bnd)
qed

section \<open>Exited particles stay exited\<close>

lemma in_bounds_Fin:
  "in_bounds a b c d lo la \<Longrightarrow> \<exists>x y. lo = Fin x \<and> la = Fin y \<and> a \<le> x \<and> x \<le> b \<and> c \<le> y \<and> y \<le> d"
  by (cases lo; cases la) (simp_all add: in_bounds_def)

lemma in_bounds_NaN [simp]: "\<not> in_bounds a b c d NaN la" "\<not> in_bounds a b c d lo NaN"
  by (simp_all add: in_bounds_def)

lemma exits_chain:
  assumes chain: "\<forall>k. Suc k < length C \<longrightarrow> exits a b c d n (C ! k) (C ! Suc k)"
    and j: "j < n"
    and out: "\<not> in_bounds a b c d (fst (C ! k) ! j) (snd (C ! k) ! j)"
  shows "k < k' \<Longrightarrow> k' < length C \<Longrightarrow> fst (C ! k') ! j = NaN \<and> snd (C ! k') ! j = NaN"
proof (induction k')
  case 0
  then show ?case by simp
next
  case (Suc k')
  have ex: "exits a b c d n (C ! k') (C ! Suc k')" using chain Suc.prems(2) by blast
  show ?case
  proof (cases "k = k'")
    case True
    with ex out j show ?thesis by (simp add: exits_def)
  next
    case False
    with Suc have "fst (C ! k') ! j = NaN \<and> snd (C ! k') ! j = NaN" by simp
    then have "\<not> in_bounds a b c d (fst (C ! k') ! j) (snd (C ! k') ! j)" by simp
    with ex j show ?thesis by (simp add: exits_def)
  qed
qed

section \<open>Runs of the example environment\<close>

lemma example_source: "oscar_nc example_env = Inr example_ds"
  by (simp add: example_env_def)

lemma example_bounds:
  "np_min (ds_longitude example_ds) = Inr 140" "np_max (ds_longitude example_ds) = Inr 160"
  "np_min (ds_latitude example_ds) = Inr 0" "np_max (ds_latitude example_ds) = Inr 60"
  by (simp_all add: example_ds_def np_min_def np_max_def)

lemma example_total:
  assumes "0 \<le> mNP" "iso_date sd" "ND \<noteq> 0" "dt \<noteq> 0"
  shows "\<exists>r. simulate_aus example_env mlon mlat mNP mAREA mSIM mDUR dt sd ND = Inr r"
proof (rule simulate_aus_total)
  show "oscar_nc example_env = Inr example_ds" by (rule example_source)
  show "ebind (reef_csv example_env) unzip2 = Inr ([150], [20])"
    by (simp add: example_env_def unzip2_def)
  show "fromisoformat example_env sd" using assms by (simp add: example_env_def)
  show "nan_to_zero (squeeze (ds_u example_ds)) = Arr3 (replicate 3 [[1, 1], [1, 1]])"
    "nan_to_zero (squeeze (ds_v example_ds)) = Arr3 (replicate 3 [[0, 0], [0, 0]])"
    by (simp_all add: example_ds_def example_U_def example_V_def nan_to_zero_def squeeze_def
          np_shape_def numeral_3_eq_3)
  show "\<forall>g\<in>set (replicate 3 [[1, 1], [1, 1]]) \<union> set (replicate 3 [[0, 0], [0, 0]]).
        \<exists>f. RegularGridInterpolator example_env
               (ds_latitude example_ds) (ds_longitude example_ds) g = Inr f"
    by (simp add: example_env_def example_ds_def scipy_rgi_def)
qed (use assms in \<open>simp_all add: example_ds_def\<close>)

lemma iso_date_example: "iso_date ''2020-01-01''"
  by (simp add: iso_date_def is_digit_def)

lemma py_int_of_float_floor:
  "0 < ND \<Longrightarrow> 0 < dt \<Longrightarrow>
   py_int_of_float (real_of_int (ND * 24) / real_of_int dt) = \<lfloor>real_of_int (ND * 24) / real_of_int dt\<rfloor>"
  by (simp add: py_int_of_float_def)

lemma simulate_aus_length:
  assumes "simulate_aus E mlon mlat mNP mAREA mSIM mDUR dt sd ND = Inr r"
    and "oscar_nc E = Inr ds"
  shows "length (out_LONP r) =
       nat (min \<lceil>real_of_int mDUR / real_of_int ND\<rceil> (int (length (ds_time ds)) - 1)) *
       nat (py_int_of_float (real_of_int (ND * 24) / real_of_int dt))"
    and "length (out_dates r) = length (out_LONP r)"
    and "length (out_LATP r) = length (out_LONP r)"
proof -
  have "length (out_LONP r) =
       nat (min \<lceil>real_of_int mDUR / real_of_int ND\<rceil> (int (length (ds_time ds)) - 1)) *
       nat (py_int_of_float (real_of_int (ND * 24) / real_of_int dt)) \<and>
       length (out_dates r) = length (out_LONP r) \<and> length (out_LATP r) = length (out_LONP r)"
  proof (rule simulate_aus_run[OF assms(1)])
    fix ds' a b c d st
    assume ds': "oscar_nc E = Inr ds'"
      and out: "out_LONP r = LONP st" "out_LATP r = LATP st" "out_dates r = dates st"
      and inv: "run_inv a b c d (nat mNP) sd dt
         (seed mlon mAREA (uniform_1 E) mNP, seed mlat mAREA (uniform_2 E) mNP) st"
      and cnt: "length (LONP st) =
         nat (min \<lceil>real_of_int mDUR / real_of_int ND\<rceil> (int (length (ds_time ds')) - 1)) *
         nat (py_int_of_float (real_of_int (ND * 24) / real_of_int dt))"
    have e: "ds' = ds" using ds' assms(2) by simp
    show ?thesis using inv cnt unfolding out e by (simp add: run_inv_def)
  qed
  then show "length (out_LONP r) =
       nat (min \<lceil>real_of_int mDUR / real_of_int ND\<rceil> (int (length (ds_time ds)) - 1)) *
       nat (py_int_of_float (real_of_int (ND * 24) / real_of_int dt))"
    and "length (out_dates r) = length (out_LONP r)"
    and "length (out_LATP r) = length (out_LONP r)" by simp_all
qed

lemma example_length_10:
  assumes "simulate_aus example_env mlon mlat mNP mAREA mSIM 10 24 sd 5 = Inr r"
  shows "length (out_LONP r) = 10"
  using simulate_aus_length(1)[OF assms example_source]
  by (simp add: example_ds_def py_int_of_float_def)

section \<open>The lists of time indices\<close>

lemma upto_as_map: "0 \<le> m \<Longrightarrow> [a..a + m - 1] = map (\<lambda>k. a + int k) [0..<nat m]"
proof (induction "nat m" arbitrary: m)
  case 0
  then show ?case by simp
next
  case (Suc x)
  then have m: "0 < m" "x = nat (m - 1)" by linarith+
  have "[a..a + m - 1] = [a..a + (m - 1) - 1] @ [a + m - 1]"
    using m(1) upto_rec2[of a "a + m - 1"] by (simp add: algebra_simps)
  also have "[a..a + (m - 1) - 1] = map (\<lambda>k. a + int k) [0..<nat (m - 1)]"
    using Suc(1)[of "m - 1"] m by simp
  also have "map (\<lambda>k. a + int k) [0..<nat (m - 1)] @ [a + m - 1] = map (\<lambda>k. a + int k) [0..<nat m]"
  proof -
    have "nat m = Suc (nat (m - 1))" using m(1) by linarith
    then show ?thesis using m(1) by simp
  qed
  finally show ?case .
qed

lemma time_idx_forwards: "0 \<le> ms \<Longrightarrow> time_idx ''forwards'' ms n = map int [0..<nat ms]"
  using upto_as_map[of ms 0] by (simp add: time_idx_def py_range_def)

lemma time_idx_backwards:
  assumes "0 \<le> ms" "mSIM \<noteq> ''forwards''"
  shows "time_idx mSIM ms n = map (\<lambda>k. (int n - 1) - int k) [0..<nat ms]"
proof -
  have "[int n - 1 - ms + 1..int n - 1] = map (\<lambda>k. (int n - ms) + int k) [0..<nat ms]"
    using upto_as_map[OF assms(1), of "int n - ms"] by (simp add: algebra_simps)
  then have "time_idx mSIM ms n = rev (map (\<lambda>k. (int n - ms) + int k) [0..<nat ms])"
    using assms(2) by (simp add: time_idx_def py_range_down_def Let_def)
  also have "\<dots> = map (\<lambda>k. (int n - ms) + int k) (rev [0..<nat ms])" by (simp add: rev_map)
  also have "rev [0..<nat ms] = map (\<lambda>k. nat ms - 1 - k) [0..<nat ms]"
    by (auto simp: list_eq_iff_nth_eq rev_nth)
  also have "map (\<lambda>k. (int n - ms) + int k) (map (\<lambda>k. nat ms - 1 - k) [0..<nat ms]) =
             map (\<lambda>k. (int n - 1) - int k) [0..<nat ms]"
    using assms(1) by (auto simp: o_def)
  finally show ?thesis .
qed

lemma time_idx_empty: "ms \<le> 0 \<Longrightarrow> time_idx mSIM ms n = []"
  by (simp add: time_idx_def py_range_def py_range_down_def Let_def)

section \<open>Bilinear interpolation at a grid node\<close>

lemma fold_min_le: "fold min xs (a::real) \<le> a \<and> (\<forall>y\<in>set xs. fold min xs a \<le> y)"
proof (induction xs arbitrary: a)
  case Nil
  then show ?case by simp
next
  case (Cons x xs)
  from Cons.IH[of "min x a"] show ?case by (auto simp: min_le_iff_disj)
qed

lemma fold_max_ge: "a \<le> fold max xs (a::real) \<and> (\<forall>y\<in>set xs. y \<le> fold max xs a)"
proof (induction xs arbitrary: a)
  case Nil
  then show ?case by simp
next
  case (Cons x xs)
  from Cons.IH[of "max x a"] show ?case by (auto simp: le_max_iff_disj)
qed

lemma np_min_le: "np_min xs = Inr a \<Longrightarrow> x \<in> set xs \<Longrightarrow> a \<le> x"
  using fold_min_le by (cases xs) (auto simp: np_min_def)

lemma np_max_ge: "np_max xs = Inr a \<Longrightarrow> x \<in> set xs \<Longrightarrow> x \<le> a"
  using fold_max_ge by (cases xs) (auto simp: np_max_def)

lemma searchsorted_node:
  assumes "sorted_wrt (<) g" "i < length g"
  shows "searchsorted g (g ! i) = i"
proof -
  have lt: "\<forall>y\<in>set (take i g). y < g ! i"
  proof
    fix y assume "y \<in> set (take i g)"
    then obtain m where "m < i" "y = g ! m" using assms(2) by (auto simp: in_set_conv_nth)
    then show "y < g ! i" using assms sorted_wrt_nth_less by blast
  qed
  have ge: "\<forall>y\<in>set (drop i g). \<not> y < g ! i"
  proof
    fix y assume "y \<in> set (drop i g)"
    then obtain m where m: "m < length g - i" "y = g ! (i + m)" by (auto simp: in_set_conv_nth)
    show "\<not> y < g ! i"
    proof (cases m)
      case 0
      then show ?thesis using m by simp
    next
      case (Suc m')
      then have "g ! i < g ! (i + m)" using assms(1) m(1) sorted_wrt_nth_less[of "(<)" g i "i + m"] by simp
      then show ?thesis using m by simp
    qed
  qed
  have "filter (\<lambda>y. y < g ! i) g = filter (\<lambda>y. y < g ! i) (take i g) @ filter (\<lambda>y. y < g ! i) (drop i g)"
    by (metis append_take_drop_id filter_append)
  also have "filter (\<lambda>y. y < g ! i) (take i g) = take i g" using lt by (simp add: filter_id_conv)
  also have "filter (\<lambda>y. y < g ! i) (drop i g) = []" using ge by (simp add: filter_empty_conv)
  finally show ?thesis using assms(2) by (simp add: searchsorted_def)
qed

lemma axis_node:
  assumes "sorted_wrt (<) g" "i < length g"
  shows "(find_index g (g ! i) = i \<and> norm_distance g (find_index g (g ! i)) (g ! i) = 0) \<or>
         (upper_index g (find_index g (g ! i)) = i \<and>
          norm_distance g (find_index g (g ! i)) (g ! i) = 1)"
proof (cases "length g = 1")
  case True
  then have i0: "i = 0" using assms(2) by simp
  have ss: "searchsorted g (g ! i) = i" by (rule searchsorted_node[OF assms])
  have "find_index g (g ! i) = 0" unfolding find_index_def ss using True i0 by (simp add: Let_def)
  then show ?thesis using True i0 by (simp add: norm_distance_def)
next
  case False
  then have two: "2 \<le> length g" using assms(2) by linarith
  show ?thesis
  proof (cases i)
    case 0
    have ss: "searchsorted g (g ! i) = i" by (rule searchsorted_node[OF assms])
    have fi: "find_index g (g ! i) = 0"
      unfolding find_index_def ss using two 0 by (simp add: Let_def)
    have "g ! 0 < g ! 1" using assms two sorted_wrt_nth_less[of "(<)" g 0 1] by simp
    then show ?thesis using fi 0 False by (simp add: norm_distance_def)
  next
    case (Suc m)
    have ss: "searchsorted g (g ! i) = i" by (rule searchsorted_node[OF assms])
    have fi: "find_index g (g ! i) = m"
      unfolding find_index_def ss using assms(2) Suc by (simp add: Let_def)
    have "g ! m < g ! Suc m" using assms Suc sorted_wrt_nth_less[of "(<)" g m "Suc m"] by simp
    then show ?thesis using fi Suc False by (simp add: norm_distance_def upper_index_def)
  qed
qed

lemma evaluate_linear_node:
  assumes "sorted_wrt (<) lat" "i < length lat" and "sorted_wrt (<) lon" "k < length lon"
  shows "evaluate_linear lat lon vals (lat ! i, lon ! k) = vals ! i ! k"
  using axis_node[OF assms(1,2)] axis_node[OF assms(3,4)]
  by (auto simp: evaluate_linear_def Let_def)

lemma sorted_node_bounds:
  assumes "sorted_wrt (<) (g::real list)" "i < length g"
  shows "hd g \<le> g ! i \<and> g ! i \<le> last g"
proof -
  have ne: "g \<noteq> []" using assms(2) by auto
  have "g ! 0 \<le> g ! i"
    using assms sorted_wrt_nth_less[of "(<)" g 0 i] by (cases i) auto
  moreover have "g ! i \<le> g ! (length g - 1)"
  proof (cases "i = length g - 1")
    case True
    then show ?thesis by simp
  next
    case False
    then have "i < length g - 1" "length g - 1 < length g" using assms(2) by linarith+
    then show ?thesis using assms(1) sorted_wrt_nth_less[of "(<)" g i "length g - 1"] by simp
  qed
  ultimately show ?thesis using ne by (simp add: hd_conv_nth last_conv_nth)
qed

lemma linear_interp_node:
  assumes "sorted_wrt (<) lat" "i < length lat" and "sorted_wrt (<) lon" "k < length lon"
  shows "linear_interp lat lon vals (lat ! i, lon ! k) = vals ! i ! k"
  using sorted_node_bounds[OF assms(1,2)] sorted_node_bounds[OF assms(3,4)]
    evaluate_linear_node[OF assms]
  by (simp add: linear_interp_def)

lemma scipy_rgi_node:
  assumes "scipy_rgi lat lon vals = Inr f" "i < length lat" "k < length lon"
  shows "f (lat ! i, lon ! k) = vals ! i ! k"
proof -
  from assms(1) have v: "sorted_wrt (<) lat" "sorted_wrt (<) lon"
    and f: "f = linear_interp lat lon vals"
    by (auto simp: scipy_rgi_def split: if_splits)
  show ?thesis unfolding f by (rule linear_interp_node) (use v assms in simp_all)
qed

section \<open>The displacement of an in-bounds particle\<close>

lemma sub_step_total:
  assumes "np_min lon_nc = Inr a" "np_max lon_nc = Inr b"
      "np_min lat_nc = Inr c" "np_max lat_nc = Inr d"
  shows "\<exists>st'. sub_step mSIM dt sd lat_nc lon_nc f_u1 f_v1 f_u2 f_v2 mNP sub_steps s st = Inr st'"
  unfolding sub_step_eq[OF assms] Let_def by blast

lemma degrees_lon:
  "cos (la * pi / 180) \<noteq> 0 \<Longrightarrow>
   x * T * (lat_per_m / cos (la * pi / 180)) = x * T / m_per_deg_lon la"
  by (simp add: lat_per_m_def m_per_deg_lon_def m_per_deg_lat_def radians_def field_simps)

lemma degrees_lat: "x * T * lat_per_m = x * T / m_per_deg_lat"
  by (simp add: lat_per_m_def m_per_deg_lat_def field_simps)

lemma sub_step_moves:
  assumes step: "sub_step mSIM dt sd lat_nc lon_nc f_u1 f_v1 f_u2 f_v2 mNP sub_steps s st = Inr st'"
    and bnd: "np_min lon_nc = Inr a" "np_max lon_nc = Inr b"
      "np_min lat_nc = Inr c" "np_max lat_nc = Inr d"
    and len: "length (lonP st) = nat mNP" "length (latP st) = nat mNP" and j: "j < nat mNP"
    and pos: "lonP st ! j = Fin lo" "latP st ! j = Fin la"
    and inb: "in_bounds a b c d (Fin lo) (Fin la)"
    and cs: "cos (la * pi / 180) \<noteq> 0"
  shows "lonP st' ! j =
           Fin (lo + (if mSIM = ''forwards'' then 1 else - 1) *
                ((((1 - real_of_int s / real_of_int sub_steps) * f_u1 (la, lo) +
                   (real_of_int s / real_of_int sub_steps) * f_u2 (la, lo)) *
                  real_of_int (dt * 3600)) / m_per_deg_lon la))"
    and "latP st' ! j =
           Fin (la + (if mSIM = ''forwards'' then 1 else - 1) *
                ((((1 - real_of_int s / real_of_int sub_steps) * f_v1 (la, lo) +
                   (real_of_int s / real_of_int sub_steps) * f_v2 (la, lo)) *
                  real_of_int (dt * 3600)) / m_per_deg_lat))"
proof -
  note eff = sub_step_effect(6)[OF step bnd len j, unfolded pos]
  have "(lonP st' ! j, latP st' ! j) =
      (Fin (lo + (if mSIM = ''forwards'' then 1 else - 1) *
                ((((1 - real_of_int s / real_of_int sub_steps) * f_u1 (la, lo) +
                   (real_of_int s / real_of_int sub_steps) * f_u2 (la, lo)) *
                  real_of_int (dt * 3600)) * (lat_per_m / cos (la * pi / 180)))),
       Fin (la + (if mSIM = ''forwards'' then 1 else - 1) *
                ((((1 - real_of_int s / real_of_int sub_steps) * f_v1 (la, lo) +
                   (real_of_int s / real_of_int sub_steps) * f_v2 (la, lo)) *
                  real_of_int (dt * 3600)) * lat_per_m)))"
    unfolding eff particle_step_def using inb cs
    by (simp add: Let_def fl_sub_def)
  then show "lonP st' ! j =
           Fin (lo + (if mSIM = ''forwards'' then 1 else - 1) *
                ((((1 - real_of_int s / real_of_int sub_steps) * f_u1 (la, lo) +
                   (real_of_int s / real_of_int sub_steps) * f_u2 (la, lo)) *
                  real_of_int (dt * 3600)) / m_per_deg_lon la))"
    and "latP st' ! j =
           Fin (la + (if mSIM = ''forwards'' then 1 else - 1) *
                ((((1 - real_of_int s / real_of_int sub_steps) * f_v1 (la, lo) +
                   (real_of_int s / real_of_int sub_steps) * f_v2 (la, lo)) *
                  real_of_int (dt * 3600)) / m_per_deg_lat))"
    unfolding degrees_lon[OF cs] degrees_lat by simp_all
qed

lemma cos_radians_60: "cos (radians 60) = 1 / 2"
proof -
  have e: "radians 60 = pi / 3" by (simp add: radians_def)
  show ?thesis unfolding e by (rule cos_60)
qed

lemma m_per_deg_lat_pos: "0 < m_per_deg_lat"
  by (simp add: m_per_deg_lat_def)

section \<open>A particle at rest\<close>

lemma cos_at_root_nonzero: "cos_at_root a \<noteq> 0"
proof -
  have "2 * \<lfloor>a / pi\<rfloor> + 1 \<noteq> 0" by presburger
  then show ?thesis by (simp add: cos_at_root_def Let_def)
qed

lemma fl_cos_finite: "\<exists>c. fl_cos (fl_radians (Fin la)) = Fin c \<and> c \<noteq> 0"
  by (simp add: cos_at_root_nonzero)

lemma sub_step_still:
  assumes step: "sub_step mSIM dt sd lat_nc lon_nc f_u1 f_v1 f_u2 f_v2 mNP sub_steps s st = Inr st'"
    and bnd: "np_min lon_nc = Inr a" "np_max lon_nc = Inr b"
      "np_min lat_nc = Inr c" "np_max lat_nc = Inr d"
    and len: "length (lonP st) = nat mNP" "length (latP st) = nat mNP" and j: "j < nat mNP"
    and pos: "lonP st ! j = Fin lo" "latP st ! j = Fin la"
    and inb: "in_bounds a b c d (Fin lo) (Fin la)"
    and zero: "f_u1 (la, lo) = 0" "f_v1 (la, lo) = 0" "f_u2 (la, lo) = 0" "f_v2 (la, lo) = 0"
  shows "lonP st' ! j = Fin lo" and "latP st' ! j = Fin la"
proof -
  note eff = sub_step_effect(6)[OF step bnd len j, unfolded pos]
  obtain cs where cs: "fl_cos (fl_radians (Fin la)) = Fin cs" "cs \<noteq> 0"
    using fl_cos_finite by blast
  have "(lonP st' ! j, latP st' ! j) = (Fin lo, Fin la)"
    unfolding eff particle_step_def using inb zero cs
    by (simp add: Let_def fl_sub_def)
  then show "lonP st' ! j = Fin lo" and "latP st' ! j = Fin la" by simp_all
qed

section \<open>The second driver\<close>

lemma gbr_sub_step_eq:
  "gbr_sub_step mSIM dt sd lat_nc lon_nc f_u1 f_v1 f_u2 f_v2 mNP sub_steps s st =
   sub_step mSIM dt sd lat_nc lon_nc f_u1 f_v1 f_u2 f_v2 mNP sub_steps s st"
  unfolding gbr_sub_step_def sub_step_def velocity_def displacement_def advance_def sample_def
    blend_def inb_mask_def in_bounds_def lat_per_m_def Let_def case_prod_beta fst_conv snd_conv
  by (rule refl)

lemma gbr_sub_loop_eq:
  "gbr_sub_loop mSIM dt sd lat_nc lon_nc f_u1 f_v1 f_u2 f_v2 mNP sub_steps ss st =
   sub_loop mSIM dt sd lat_nc lon_nc f_u1 f_v1 f_u2 f_v2 mNP sub_steps ss st"
proof (induction ss arbitrary: st)
  case Nil
  show ?case by simp
next
  case (Cons s ss)
  show ?case
    by (cases "sub_step mSIM dt sd lat_nc lon_nc f_u1 f_v1 f_u2 f_v2 mNP sub_steps s st")
       (simp_all add: gbr_sub_step_eq Cons.IH)
qed

lemma gbr_major_step_eq:
  "gbr_major_step RGI mSIM dt sd ND lat_nc lon_nc U V mNP t st =
   major_step RGI mSIM dt sd ND lat_nc lon_nc U V mNP t st"
  unfolding gbr_major_step_def major_step_def index_pair_def gbr_sub_loop_eq by (rule refl)

lemma gbr_major_loop_eq:
  "gbr_major_loop RGI mSIM dt sd ND lat_nc lon_nc U V mNP ts st =
   major_loop RGI mSIM dt sd ND lat_nc lon_nc U V mNP ts st"
proof (induction ts arbitrary: st)
  case Nil
  show ?case by simp
next
  case (Cons t ts)
  show ?case
    by (cases "major_step RGI mSIM dt sd ND lat_nc lon_nc U V mNP t st")
       (simp_all add: gbr_major_step_eq Cons.IH)
qed

section \<open>The sub-steps of a run\<close>

lemma sub_step_cloud_eq:
  assumes step: "sub_step mSIM dt sd lat_nc lon_nc f_u1 f_v1 f_u2 f_v2 mNP sub_steps s st = Inr st'"
    and bnd: "np_min lon_nc = Inr a" "np_max lon_nc = Inr b"
      "np_min lat_nc = Inr c" "np_max lat_nc = Inr d"
  shows "(lonP st', latP st') =
           sub_step_cloud mSIM dt a b c d f_u1 f_v1 f_u2 f_v2 mNP sub_steps s (lonP st, latP st)"
    and "LONP st' = LONP st @ [lonP st']" and "LATP st' = LATP st @ [latP st']"
  using step unfolding sub_step_eq[OF bnd] sub_step_cloud_def Let_def by auto

lemma sub_loop_trace:
  assumes "sub_loop mSIM dt sd lat_nc lon_nc f_u1 f_v1 f_u2 f_v2 mNP sub_steps ss st = Inr st'"
    and bnd: "np_min lon_nc = Inr a" "np_max lon_nc = Inr b"
      "np_min lat_nc = Inr c" "np_max lat_nc = Inr d"
  shows "\<exists>Q. LONP st' = LONP st @ map fst Q \<and> LATP st' = LATP st @ map snd Q \<and>
             length Q = length ss \<and> (lonP st', latP st') = last ((lonP st, latP st) # Q) \<and>
             (\<forall>i<length ss. Q ! i =
                sub_step_cloud mSIM dt a b c d f_u1 f_v1 f_u2 f_v2 mNP sub_steps (ss ! i)
                  (((lonP st, latP st) # Q) ! i))"
  using assms(1)
proof (induction ss arbitrary: st)
  case Nil
  then show ?case by simp
next
  case (Cons s ss)
  from Cons.prems obtain st1 where
    s1: "sub_step mSIM dt sd lat_nc lon_nc f_u1 f_v1 f_u2 f_v2 mNP sub_steps s st = Inr st1"
    and s2: "sub_loop mSIM dt sd lat_nc lon_nc f_u1 f_v1 f_u2 f_v2 mNP sub_steps ss st1 = Inr st'"
    by (auto simp: ebind_Inr_iff)
  note c = sub_step_cloud_eq[OF s1 bnd]
  from Cons.IH[OF s2] obtain Q where
    q: "LONP st' = LONP st1 @ map fst Q" "LATP st' = LATP st1 @ map snd Q"
      "length Q = length ss" "(lonP st', latP st') = last ((lonP st1, latP st1) # Q)"
    and t: "\<forall>i<length ss. Q ! i =
                sub_step_cloud mSIM dt a b c d f_u1 f_v1 f_u2 f_v2 mNP sub_steps (ss ! i)
                  (((lonP st1, latP st1) # Q) ! i)"
    by blast
  let ?Q = "(lonP st1, latP st1) # Q"
  have "LONP st' = LONP st @ map fst ?Q" "LATP st' = LATP st @ map snd ?Q"
    using q(1,2) c(2,3) by simp_all
  moreover have "length ?Q = length (s # ss)" using q(3) by simp
  moreover have "(lonP st', latP st') = last ((lonP st, latP st) # ?Q)" using q(4) by simp
  moreover have "\<forall>i<length (s # ss). ?Q ! i =
                sub_step_cloud mSIM dt a b c d f_u1 f_v1 f_u2 f_v2 mNP sub_steps ((s # ss) ! i)
                  (((lonP st, latP st) # ?Q) ! i)"
  proof (intro allI impI)
    fix i assume i: "i < length (s # ss)"
    show "?Q ! i = sub_step_cloud mSIM dt a b c d f_u1 f_v1 f_u2 f_v2 mNP sub_steps ((s # ss) ! i)
                  (((lonP st, latP st) # ?Q) ! i)"
    proof (cases i)
      case 0
      then show ?thesis using c(1) by simp
    next
      case (Suc i')
      then have "i' < length ss" using i by simp
      with t Suc show ?thesis by simp
    qed
  qed
  ultimately show ?case by blast
qed

lemma nth_chain_append:
  assumes "length Q1 = n"
  shows "(p0 # Q1 @ Q2) ! (n + k) = (last (p0 # Q1) # Q2) ! k"
proof -
  have e: "p0 # Q1 @ Q2 = butlast (p0 # Q1) @ (last (p0 # Q1) # Q2)"
    using append_butlast_last_id[of "p0 # Q1"] by (metis append_Cons append_assoc append_Nil list.distinct(1))
  have "length (butlast (p0 # Q1)) = length (p0 # Q1) - 1" by (rule length_butlast)
  then have l: "length (butlast (p0 # Q1)) = n" using assms by simp
  show ?thesis unfolding e using l by (simp add: nth_append)
qed

lemma py_range_nth: "i < nat (b - a) \<Longrightarrow> py_range a b ! i = a + int i"
  by (simp add: py_range_def)

lemma major_step_trace:
  assumes "major_step RGI mSIM dt sd ND lat_nc lon_nc U V mNP t st = Inr st'"
    and bnd: "np_min lon_nc = Inr a" "np_max lon_nc = Inr b"
      "np_min lat_nc = Inr c" "np_max lat_nc = Inr d"
    and sub: "sub = py_int_of_float (real_of_int (ND * 24) / real_of_int dt)"
  shows "\<exists>Q f_u1 f_v1 f_u2 f_v2.
             LONP st' = LONP st @ map fst Q \<and> LATP st' = LATP st @ map snd Q \<and>
             length Q = nat sub \<and> (lonP st', latP st') = last ((lonP st, latP st) # Q) \<and>
             pair_interps RGI lat_nc lon_nc U V (index_pair mSIM t) = Inr (f_u1, f_v1, f_u2, f_v2) \<and>
             (\<forall>i<nat sub. Q ! i =
                sub_step_cloud mSIM dt a b c d f_u1 f_v1 f_u2 f_v2 mNP sub (1 + int i)
                  (((lonP st, latP st) # Q) ! i))"
proof -
  from assms(1) obtain u1 u2 v1 v2 f_u1 f_v1 f_u2 f_v2 sub' where
    ix: "index3 U (fst (index_pair mSIM t)) = Inr u1" "index3 U (snd (index_pair mSIM t)) = Inr u2"
      "index3 V (fst (index_pair mSIM t)) = Inr v1" "index3 V (snd (index_pair mSIM t)) = Inr v2"
    and f: "RGI lat_nc lon_nc u1 = Inr f_u1" "RGI lat_nc lon_nc v1 = Inr f_v1"
      "RGI lat_nc lon_nc u2 = Inr f_u2" "RGI lat_nc lon_nc v2 = Inr f_v2"
    and q: "py_trunc_div (ND * 24) dt = Inr sub'"
    and l: "sub_loop mSIM dt sd lat_nc lon_nc f_u1 f_v1 f_u2 f_v2 mNP sub'
              (py_range 1 (sub' + 1)) st = Inr st'"
    unfolding major_step_def Let_def case_prod_beta ebind_Inr_iff by blast
  have pi: "pair_interps RGI lat_nc lon_nc U V (index_pair mSIM t) = Inr (f_u1, f_v1, f_u2, f_v2)"
    by (simp add: pair_interps_def ix f)
  from q have e: "sub' = sub" unfolding sub by (auto simp: py_trunc_div_def split: if_splits)
  from sub_loop_trace[OF l[unfolded e] bnd] obtain Q where
    Q: "LONP st' = LONP st @ map fst Q" "LATP st' = LATP st @ map snd Q"
      "length Q = length (py_range 1 (sub + 1))"
      "(lonP st', latP st') = last ((lonP st, latP st) # Q)"
    and t: "\<forall>i<length (py_range 1 (sub + 1)). Q ! i =
                sub_step_cloud mSIM dt a b c d f_u1 f_v1 f_u2 f_v2 mNP sub (py_range 1 (sub + 1) ! i)
                  (((lonP st, latP st) # Q) ! i)"
    by blast
  have len: "length (py_range 1 (sub + 1)) = nat sub" by (simp add: length_py_range)
  have "\<forall>i<nat sub. Q ! i =
                   sub_step_cloud mSIM dt a b c d f_u1 f_v1 f_u2 f_v2 mNP sub (1 + int i)
                     (((lonP st, latP st) # Q) ! i)"
  proof (intro allI impI)
    fix i assume i: "i < nat sub"
    have "py_range 1 (sub + 1) ! i = 1 + int i" using i by (simp add: py_range_nth)
    with t i len show "Q ! i =
                   sub_step_cloud mSIM dt a b c d f_u1 f_v1 f_u2 f_v2 mNP sub (1 + int i)
                     (((lonP st, latP st) # Q) ! i)" by simp
  qed
  with Q pi len show ?thesis by auto
qed

lemma major_loop_trace:
  assumes "major_loop RGI mSIM dt sd ND lat_nc lon_nc U V mNP ts st = Inr st'"
    and bnd: "np_min lon_nc = Inr a" "np_max lon_nc = Inr b"
      "np_min lat_nc = Inr c" "np_max lat_nc = Inr d"
    and sub: "sub = py_int_of_float (real_of_int (ND * 24) / real_of_int dt)"
  shows "\<exists>Q. LONP st' = LONP st @ map fst Q \<and> LATP st' = LATP st @ map snd Q \<and>
             length Q = length ts * nat sub \<and>
             (lonP st', latP st') = last ((lonP st, latP st) # Q) \<and>
             (\<forall>m<length ts. \<exists>f_u1 f_v1 f_u2 f_v2.
                pair_interps RGI lat_nc lon_nc U V (index_pair mSIM (ts ! m)) =
                  Inr (f_u1, f_v1, f_u2, f_v2) \<and>
                (\<forall>i<nat sub. Q ! (m * nat sub + i) =
                   sub_step_cloud mSIM dt a b c d f_u1 f_v1 f_u2 f_v2 mNP sub (1 + int i)
                     (((lonP st, latP st) # Q) ! (m * nat sub + i))))"
  using assms(1)
proof (induction ts arbitrary: st)
  case Nil
  then show ?case by simp
next
  case (Cons t ts)
  from Cons.prems obtain st1 where
    s1: "major_step RGI mSIM dt sd ND lat_nc lon_nc U V mNP t st = Inr st1"
    and s2: "major_loop RGI mSIM dt sd ND lat_nc lon_nc U V mNP ts st1 = Inr st'"
    by (auto simp: ebind_Inr_iff)
  let ?n = "nat sub"
  let ?p0 = "(lonP st, latP st)"
  let ?p1 = "(lonP st1, latP st1)"
  from major_step_trace[OF s1 bnd sub] obtain Q1 g_u1 g_v1 g_u2 g_v2 where
    a: "LONP st1 = LONP st @ map fst Q1" "LATP st1 = LATP st @ map snd Q1"
      "length Q1 = ?n" "?p1 = last (?p0 # Q1)"
    and ap: "pair_interps RGI lat_nc lon_nc U V (index_pair mSIM t) = Inr (g_u1, g_v1, g_u2, g_v2)"
    and at: "\<forall>i<?n. Q1 ! i =
                sub_step_cloud mSIM dt a b c d g_u1 g_v1 g_u2 g_v2 mNP sub (1 + int i)
                  ((?p0 # Q1) ! i)"
    by blast
  from Cons.IH[OF s2] obtain Q2 where
    b: "LONP st' = LONP st1 @ map fst Q2" "LATP st' = LATP st1 @ map snd Q2"
      "length Q2 = length ts * ?n" "(lonP st', latP st') = last (?p1 # Q2)"
    and bt: "\<forall>m<length ts. \<exists>f_u1 f_v1 f_u2 f_v2.
                pair_interps RGI lat_nc lon_nc U V (index_pair mSIM (ts ! m)) =
                  Inr (f_u1, f_v1, f_u2, f_v2) \<and>
                (\<forall>i<?n. Q2 ! (m * ?n + i) =
                   sub_step_cloud mSIM dt a b c d f_u1 f_v1 f_u2 f_v2 mNP sub (1 + int i)
                     ((?p1 # Q2) ! (m * ?n + i)))"
    by blast
  let ?Q = "Q1 @ Q2"
  have c1: "LONP st' = LONP st @ map fst ?Q" "LATP st' = LATP st @ map snd ?Q"
    using a(1,2) b(1,2) by simp_all
  have c2: "length ?Q = length (t # ts) * ?n" using a(3) b(3) by simp
  have c3: "(lonP st', latP st') = last (?p0 # ?Q)"
  proof (cases "Q2 = []")
    case True
    then show ?thesis using b(4) a(4) by simp
  next
    case False
    then show ?thesis using b(4) by simp
  qed
  have c4: "\<exists>f_u1 f_v1 f_u2 f_v2.
                pair_interps RGI lat_nc lon_nc U V (index_pair mSIM ((t # ts) ! m)) =
                  Inr (f_u1, f_v1, f_u2, f_v2) \<and>
                (\<forall>i<?n. ?Q ! (m * ?n + i) =
                   sub_step_cloud mSIM dt a b c d f_u1 f_v1 f_u2 f_v2 mNP sub (1 + int i)
                     ((?p0 # ?Q) ! (m * ?n + i)))"
    if m: "m < length (t # ts)" for m
  proof (cases m)
    case 0
    have "\<forall>i<?n. ?Q ! (m * ?n + i) =
                   sub_step_cloud mSIM dt a b c d g_u1 g_v1 g_u2 g_v2 mNP sub (1 + int i)
                     ((?p0 # ?Q) ! (m * ?n + i))"
    proof (intro allI impI)
      fix i assume i: "i < ?n"
      have x: "?Q ! i = Q1 ! i" using i a(3) by (simp add: nth_append)
      have "(?p0 # ?Q) ! i = ((?p0 # Q1) @ Q2) ! i" by simp
      also have "\<dots> = (?p0 # Q1) ! i" using i a(3) by (simp only: nth_append length_Cons) simp
      finally have y: "(?p0 # ?Q) ! i = (?p0 # Q1) ! i" .
      show "?Q ! (m * ?n + i) =
                   sub_step_cloud mSIM dt a b c d g_u1 g_v1 g_u2 g_v2 mNP sub (1 + int i)
                     ((?p0 # ?Q) ! (m * ?n + i))"
        using at i unfolding 0 by (simp only: mult_0 add_0 x y)
    qed
    with ap 0 show ?thesis by auto
  next
    case (Suc m')
    then have m': "m' < length ts" using m by simp
    from bt m' obtain f_u1 f_v1 f_u2 f_v2 where
      p: "pair_interps RGI lat_nc lon_nc U V (index_pair mSIM (ts ! m')) =
                  Inr (f_u1, f_v1, f_u2, f_v2)"
      and tr: "\<forall>i<?n. Q2 ! (m' * ?n + i) =
                   sub_step_cloud mSIM dt a b c d f_u1 f_v1 f_u2 f_v2 mNP sub (1 + int i)
                     ((?p1 # Q2) ! (m' * ?n + i))"
      by blast
    have "\<forall>i<?n. ?Q ! (m * ?n + i) =
                   sub_step_cloud mSIM dt a b c d f_u1 f_v1 f_u2 f_v2 mNP sub (1 + int i)
                     ((?p0 # ?Q) ! (m * ?n + i))"
    proof (intro allI impI)
      fix i assume i: "i < ?n"
      have ix: "m * ?n + i = ?n + (m' * ?n + i)" unfolding Suc by simp
      have x: "?Q ! (?n + (m' * ?n + i)) = Q2 ! (m' * ?n + i)"
        using a(3) by (simp add: nth_append)
      have y: "(?p0 # ?Q) ! (?n + (m' * ?n + i)) = (?p1 # Q2) ! (m' * ?n + i)"
        unfolding nth_chain_append[OF a(3)] a(4) ..
      show "?Q ! (m * ?n + i) =
                   sub_step_cloud mSIM dt a b c d f_u1 f_v1 f_u2 f_v2 mNP sub (1 + int i)
                     ((?p0 # ?Q) ! (m * ?n + i))"
        unfolding ix x y using tr i by blast
    qed
    with p Suc show ?thesis by auto
  qed
  show ?case using c1 c2 c3 c4 by blast
qed

lemma velocity_entries:
  assumes "length lons = nat mNP" "length lats = nat mNP" "j < nat mNP"
    and "w = real_of_int s / real_of_int sub_steps"
  shows "(in_bounds lon_min lon_max lat_min lat_max (lons ! j) (lats ! j) \<longrightarrow>
            (\<exists>lon lat. lons ! j = Fin lon \<and> lats ! j = Fin lat \<and>
               fst (velocity f_u1 f_v1 f_u2 f_v2 mNP sub_steps s
                      (inb_mask lon_min lon_max lat_min lat_max lons lats) lons lats) ! j =
                 Fin ((1 - w) * f_u1 (lat, lon) + w * f_u2 (lat, lon)) \<and>
               snd (velocity f_u1 f_v1 f_u2 f_v2 mNP sub_steps s
                      (inb_mask lon_min lon_max lat_min lat_max lons lats) lons lats) ! j =
                 Fin ((1 - w) * f_v1 (lat, lon) + w * f_v2 (lat, lon)))) \<and>
         (\<not> in_bounds lon_min lon_max lat_min lat_max (lons ! j) (lats ! j) \<longrightarrow>
            fst (velocity f_u1 f_v1 f_u2 f_v2 mNP sub_steps s
                   (inb_mask lon_min lon_max lat_min lat_max lons lats) lons lats) ! j = Fin 0 \<and>
            snd (velocity f_u1 f_v1 f_u2 f_v2 mNP sub_steps s
                   (inb_mask lon_min lon_max lat_min lat_max lons lats) lons lats) ! j = Fin 0)"
proof -
  let ?inb = "inb_mask lon_min lon_max lat_min lat_max lons lats"
  have li: "length ?inb = nat mNP" using assms(1,2) by (simp add: inb_mask_length)
  have ij: "?inb ! j = in_bounds lon_min lon_max lat_min lat_max (lons ! j) (lats ! j)"
    by (rule inb_mask_nth[OF assms(1,2,3)])
  note v = velocity_nth[OF li assms(3), of f_u1 f_v1 f_u2 f_v2 sub_steps s lons lats, unfolded ij]
  show ?thesis
  proof (cases "in_bounds lon_min lon_max lat_min lat_max (lons ! j) (lats ! j)")
    case True
    then obtain x y where xy: "lons ! j = Fin x" "lats ! j = Fin y"
      using in_bounds_Fin by blast
    show ?thesis using True unfolding v xy assms(4) by simp
  next
    case False
    then show ?thesis unfolding v by simp
  qed
qed

lemma exits_length:
  assumes "\<forall>k. Suc k < length C \<longrightarrow> exits a b c d n (C ! k) (C ! Suc k)"
    and "length (fst (C ! 0)) = n" "length (snd (C ! 0)) = n" "k < length C"
  shows "length (fst (C ! k)) = n \<and> length (snd (C ! k)) = n"
proof (cases k)
  case 0
  then show ?thesis using assms(2,3) by simp
next
  case (Suc k')
  then have "exits a b c d n (C ! k') (C ! Suc k')" using assms(1,4) by blast
  then show ?thesis unfolding Suc by (simp add: exits_def)
qed

lemma py_trunc_div_Inr:
  "py_trunc_div a b = Inr q \<Longrightarrow> b \<noteq> 0 \<and> q = py_int_of_float (real_of_int a / real_of_int b)"
  by (auto simp: py_trunc_div_def split: if_splits)

lemma pair_interps_Inr:
  assumes "index3 U i1 = Inr u1" "index3 U i2 = Inr u2" "index3 V i1 = Inr v1" "index3 V i2 = Inr v2"
    and "RGI lat_nc lon_nc u1 = Inr f_u1" "RGI lat_nc lon_nc v1 = Inr f_v1"
      "RGI lat_nc lon_nc u2 = Inr f_u2" "RGI lat_nc lon_nc v2 = Inr f_v2"
  shows "pair_interps RGI lat_nc lon_nc U V (i1, i2) = Inr (f_u1, f_v1, f_u2, f_v2)"
  by (simp add: pair_interps_def assms)

lemma simulate_aus_trace:
  assumes run: "simulate_aus E mlon mlat mNP mAREA mSIM mDUR dt sd ND = Inr r"
    and ds: "oscar_nc E = Inr ds"
    and bnd: "np_min (ds_longitude ds) = Inr a" "np_max (ds_longitude ds) = Inr b"
      "np_min (ds_latitude ds) = Inr c" "np_max (ds_latitude ds) = Inr d"
    and ms: "major_steps mDUR ND (length (ds_time ds)) = Inr ms"
    and sub: "py_trunc_div (ND * 24) dt = Inr sub"
    and m: "m < nat ms" and s: "1 \<le> s" "s \<le> sub"
    and pi: "pair_interps (RegularGridInterpolator E) (ds_latitude ds) (ds_longitude ds)
               (nan_to_zero (squeeze (ds_u ds))) (nan_to_zero (squeeze (ds_v ds)))
               (index_pair mSIM (time_idx mSIM ms (length (ds_time ds)) ! m)) =
             Inr (f_u1, f_v1, f_u2, f_v2)"
    and k: "k = m * nat sub + nat (s - 1)"
  shows "k < length (out_LONP r)"
    and "length (out_LATP r) = length (out_LONP r)"
    and "(out_LONP r ! k, out_LATP r ! k) =
           sub_step_cloud mSIM dt a b c d f_u1 f_v1 f_u2 f_v2 mNP sub s
             (cloud_before E mlon mlat mNP mAREA r k)"
    and "length (fst (cloud_before E mlon mlat mNP mAREA r k)) = nat mNP"
    and "length (snd (cloud_before E mlon mlat mNP mAREA r k)) = nat mNP"
proof -
  let ?c0 = "(seed mlon mAREA (uniform_1 E) mNP, seed mlat mAREA (uniform_2 E) mNP)"
  let ?st0 = "\<lparr> lonP = seed mlon mAREA (uniform_1 E) mNP, latP = seed mlat mAREA (uniform_2 E) mNP,
         LONP = [], LATP = [], dates = [] \<rparr>"
  let ?ts = "time_idx mSIM ms (length (ds_time ds))"
  have sube: "sub = py_int_of_float (real_of_int (ND * 24) / real_of_int dt)"
    using py_trunc_div_Inr[OF sub] by simp
  have "k < length (out_LONP r) \<and> length (out_LATP r) = length (out_LONP r) \<and>
        (out_LONP r ! k, out_LATP r ! k) =
           sub_step_cloud mSIM dt a b c d f_u1 f_v1 f_u2 f_v2 mNP sub s
             (cloud_before E mlon mlat mNP mAREA r k) \<and>
        length (fst (cloud_before E mlon mlat mNP mAREA r k)) = nat mNP \<and>
        length (snd (cloud_before E mlon mlat mNP mAREA r k)) = nat mNP"
  proof (rule simulate_aus_Inr[OF run])
    fix ds' ms' st reef_pts
    assume ds': "oscar_nc E = Inr ds'"
      and ms': "major_steps mDUR ND (length (ds_time ds')) = Inr ms'"
      and loop': "major_loop (RegularGridInterpolator E) mSIM dt sd ND (ds_latitude ds') (ds_longitude ds')
         (nan_to_zero (squeeze (ds_u ds'))) (nan_to_zero (squeeze (ds_v ds'))) mNP
         (time_idx mSIM ms' (length (ds_time ds'))) ?st0 = Inr st"
      and pk': "package st dt (case ebind (etopo_csv E) unzip2 of Inl _ \<Rightarrow> ([], []) | Inr p \<Rightarrow> p)
         reef_pts mlon mlat mAREA mSIM mNP (ds_latitude ds') (ds_longitude ds') = Inr r"
    have e: "ds' = ds" using ds' ds by simp
    have e2: "ms' = ms" using ms' ms unfolding e by simp
    note loop = loop'[unfolded e e2]
    note pk = pk'[unfolded e]
    have out: "out_LONP r = LONP st" "out_LATP r = LATP st"
      by (rule package_Inr[OF pk], simp)+
    from major_loop_trace[OF loop bnd sube] obtain Q where
      Q: "LONP st = map fst Q" "LATP st = map snd Q" "length Q = length ?ts * nat sub"
      and tr: "\<forall>m<length ?ts. \<exists>f_u1 f_v1 f_u2 f_v2.
                pair_interps (RegularGridInterpolator E) (ds_latitude ds) (ds_longitude ds)
                  (nan_to_zero (squeeze (ds_u ds))) (nan_to_zero (squeeze (ds_v ds)))
                  (index_pair mSIM (?ts ! m)) = Inr (f_u1, f_v1, f_u2, f_v2) \<and>
                (\<forall>i<nat sub. Q ! (m * nat sub + i) =
                   sub_step_cloud mSIM dt a b c d f_u1 f_v1 f_u2 f_v2 mNP sub (1 + int i)
                     ((?c0 # Q) ! (m * nat sub + i)))"
      by auto
    have inv: "run_inv a b c d (nat mNP) sd dt ?c0 st"
      using major_loop_inv[OF loop bnd run_inv_init] by simp
    have lt: "length ?ts = nat ms" by (rule length_time_idx)
    have i: "nat (s - 1) < nat sub" using s by linarith
    have si: "1 + int (nat (s - 1)) = s" using s by simp
    have m': "m < length ?ts" using m lt by simp
    from tr m' pi have
      t: "\<forall>i<nat sub. Q ! (m * nat sub + i) =
                   sub_step_cloud mSIM dt a b c d f_u1 f_v1 f_u2 f_v2 mNP sub (1 + int i)
                     ((?c0 # Q) ! (m * nat sub + i))"
      by auto
    have qk: "Q ! k = sub_step_cloud mSIM dt a b c d f_u1 f_v1 f_u2 f_v2 mNP sub s ((?c0 # Q) ! k)"
      using t[rule_format, OF i] unfolding si k .
    have "m * nat sub + nat (s - 1) < m * nat sub + nat sub" using i by simp
    also have "\<dots> = Suc m * nat sub" by simp
    also have "\<dots> \<le> nat ms * nat sub" using m by (intro mult_le_mono1) simp
    finally have kl: "k < length Q" unfolding k Q(3) lt .
    have zq: "zip (LONP st) (LATP st) = Q" unfolding Q(1,2) by (simp add: zip_map_fst_snd)
    have cb: "cloud_before E mlon mlat mNP mAREA r k = (?c0 # Q) ! k"
    proof (cases k)
      case 0
      then show ?thesis by (simp add: cloud_before_def)
    next
      case (Suc k')
      then have "k' < length Q" using kl by simp
      then show ?thesis unfolding Suc cloud_before_def out Q(1,2) by simp
    qed
    have chain: "\<forall>k. Suc k < length (?c0 # Q) \<longrightarrow>
        exits a b c d (nat mNP) ((?c0 # Q) ! k) ((?c0 # Q) ! Suc k)"
      using inv unfolding run_inv_def zq by blast
    have cl: "length (fst ((?c0 # Q) ! k)) = nat mNP \<and> length (snd ((?c0 # Q) ! k)) = nat mNP"
      by (rule exits_length[OF chain]) (use kl in \<open>simp_all add: seed_length\<close>)
    have "(out_LONP r ! k, out_LATP r ! k) = Q ! k"
      unfolding out Q(1,2) using kl by simp
    then show ?thesis
      unfolding cb using qk kl cl unfolding out Q(1,2) by simp
  qed
  then show "k < length (out_LONP r)"
    and "length (out_LATP r) = length (out_LONP r)"
    and "(out_LONP r ! k, out_LATP r ! k) =
           sub_step_cloud mSIM dt a b c d f_u1 f_v1 f_u2 f_v2 mNP sub s
             (cloud_before E mlon mlat mNP mAREA r k)"
    and "length (fst (cloud_before E mlon mlat mNP mAREA r k)) = nat mNP"
    and "length (snd (cloud_before E mlon mlat mNP mAREA r k)) = nat mNP"
    by simp_all
qed

lemma ramp_sources:
  "oscar_nc ramp_env = Inr ramp_ds" "RegularGridInterpolator ramp_env = scipy_rgi"
  "ebind (reef_csv ramp_env) unzip2 = Inr ([150], [20])" "fromisoformat ramp_env = iso_date"
  "uniform_1 ramp_env = (\<lambda>i. 1 / 2)" "uniform_2 ramp_env = (\<lambda>i. - 1 / 2)"
  by (simp_all add: ramp_env_def example_env_def unzip2_def)

lemma ramp_bounds:
  "np_min (ds_longitude ramp_ds) = Inr 140" "np_max (ds_longitude ramp_ds) = Inr 160"
  "np_min (ds_latitude ramp_ds) = Inr 0" "np_max (ds_latitude ramp_ds) = Inr 60"
  by (simp_all add: ramp_ds_def np_min_def np_max_def)

lemma ramp_arrays:
  "nan_to_zero (squeeze (ds_u ramp_ds)) =
     Arr3 [[[1, 1], [1, 1]], [[3, 3], [3, 3]], [[5, 5], [5, 5]]]"
  "nan_to_zero (squeeze (ds_v ramp_ds)) = Arr3 (replicate 3 [[0, 0], [0, 0]])"
  by (simp_all add: ramp_ds_def example_V_def squeeze_def np_shape_def nan_to_zero_def
        numeral_3_eq_3)

lemma ramp_total:
  assumes "0 \<le> mNP" "iso_date sd" "ND \<noteq> 0" "dt \<noteq> 0"
  shows "\<exists>r. simulate_aus ramp_env mlon mlat mNP mAREA mSIM mDUR dt sd ND = Inr r"
proof (rule simulate_aus_total)
  show "oscar_nc ramp_env = Inr ramp_ds" "ebind (reef_csv ramp_env) unzip2 = Inr ([150], [20])"
    by (rule ramp_sources)+
  show "fromisoformat ramp_env sd" using assms by (simp add: ramp_sources)
  show "nan_to_zero (squeeze (ds_u ramp_ds)) =
     Arr3 [[[1, 1], [1, 1]], [[3, 3], [3, 3]], [[5, 5], [5, 5]]]"
    "nan_to_zero (squeeze (ds_v ramp_ds)) = Arr3 (replicate 3 [[0, 0], [0, 0]])"
    by (rule ramp_arrays)+
  show "\<forall>g\<in>set [[[1, 1], [1, 1]], [[3, 3], [3, 3]], [[5, 5], [5, 5]]] \<union>
            set (replicate 3 [[0, 0], [0, 0]]).
        \<exists>f. RegularGridInterpolator ramp_env (ds_latitude ramp_ds) (ds_longitude ramp_ds) g = Inr f"
    by (simp add: ramp_sources ramp_ds_def scipy_rgi_def)
qed (use assms in \<open>simp_all add: ramp_ds_def\<close>)

lemma uniform_grid_value:
  "linear_interp [0, 60] [140, 160] [[x, x], [x, x]] (20, 150) = x"
  by (simp add: linear_interp_def evaluate_linear_def find_index_def searchsorted_def
        norm_distance_def upper_index_def Let_def algebra_simps)

section \<open>Arrays with an axis of length one\<close>










section \<open>A direction token other than forwards\<close>

lemma advance_back: "mSIM \<noteq> ''forwards'' \<Longrightarrow> advance mSIM inb pos d = advance ''backwards'' inb pos d"
  by (simp add: advance_def)

lemma sub_step_back:
  assumes "mSIM \<noteq> ''forwards''"
  shows "sub_step mSIM dt sd lat_nc lon_nc f_u1 f_v1 f_u2 f_v2 mNP sub_steps s st =
         sub_step ''backwards'' dt sd lat_nc lon_nc f_u1 f_v1 f_u2 f_v2 mNP sub_steps s st"
  unfolding sub_step_def advance_back[OF assms] by (rule refl)

lemma sub_loop_back:
  assumes "mSIM \<noteq> ''forwards''"
  shows "sub_loop mSIM dt sd lat_nc lon_nc f_u1 f_v1 f_u2 f_v2 mNP sub_steps ss st =
         sub_loop ''backwards'' dt sd lat_nc lon_nc f_u1 f_v1 f_u2 f_v2 mNP sub_steps ss st"
proof (induction ss arbitrary: st)
  case Nil
  show ?case by simp
next
  case (Cons s ss)
  show ?case
    by (cases "sub_step ''backwards'' dt sd lat_nc lon_nc f_u1 f_v1 f_u2 f_v2 mNP sub_steps s st")
       (simp_all add: sub_step_back[OF assms] Cons.IH)
qed

lemma major_step_back:
  assumes "mSIM \<noteq> ''forwards''"
  shows "major_step RGI mSIM dt sd ND lat_nc lon_nc U V mNP t st =
         major_step RGI ''backwards'' dt sd ND lat_nc lon_nc U V mNP t st"
proof -
  have ip: "index_pair mSIM t = index_pair ''backwards'' t"
    using assms by (simp add: index_pair_def)
  show ?thesis unfolding major_step_def ip sub_loop_back[OF assms] by (rule refl)
qed

lemma major_loop_back:
  assumes "mSIM \<noteq> ''forwards''"
  shows "major_loop RGI mSIM dt sd ND lat_nc lon_nc U V mNP ts st =
         major_loop RGI ''backwards'' dt sd ND lat_nc lon_nc U V mNP ts st"
proof (induction ts arbitrary: st)
  case Nil
  show ?case by simp
next
  case (Cons t ts)
  show ?case
    by (cases "major_step RGI ''backwards'' dt sd ND lat_nc lon_nc U V mNP t st")
       (simp_all add: major_step_back[OF assms] Cons.IH)
qed

lemma time_idx_back: "mSIM \<noteq> ''forwards'' \<Longrightarrow> time_idx mSIM ms n = time_idx ''backwards'' ms n"
  by (simp add: time_idx_def)

lemma echo_ebind: "echo_mSIM m (ebind x f) = ebind x (\<lambda>y. echo_mSIM m (f y))"
  by (cases x) (simp_all add: echo_mSIM_def)

lemma echo_Inl: "echo_mSIM m (Inl e) = Inl e"
  by (simp add: echo_mSIM_def)

lemma package_back:
  "package st dt map_pts reef_pts mlon mlat mAREA mSIM mNP lat_nc lon_nc =
   echo_mSIM mSIM (package st dt map_pts reef_pts mlon mlat mAREA ''backwards'' mNP lat_nc lon_nc)"
  by (simp add: package_def echo_ebind) (simp add: echo_mSIM_def)

lemma simulate_aus_back:
  assumes "mSIM \<noteq> ''forwards''"
  shows "simulate_aus E mlon mlat mNP mAREA mSIM mDUR dt sd ND =
         echo_mSIM mSIM (simulate_aus E mlon mlat mNP mAREA ''backwards'' mDUR dt sd ND)"
  unfolding simulate_aus_def Let_def major_loop_back[OF assms] time_idx_back[OF assms]
  by (simp add: echo_ebind echo_Inl if_distrib[of "echo_mSIM mSIM"] package_back[of _ _ _ _ _ _ _ mSIM]
           cong: if_cong)

lemma simulate_gbr_back:
  assumes "mSIM \<noteq> ''forwards''"
  shows "simulate_gbr E mlon mlat mNP mAREA mSIM mDUR dt sd ND =
         echo_mSIM mSIM (simulate_gbr E mlon mlat mNP mAREA ''backwards'' mDUR dt sd ND)"
  unfolding simulate_gbr_def Let_def gbr_major_loop_eq major_loop_back[OF assms] time_idx_back[OF assms]
  by (simp add: echo_ebind echo_Inl if_distrib[of "echo_mSIM mSIM"] package_back[of _ _ _ _ _ _ _ mSIM]
           cong: if_cong)

section \<open>Parsing a request\<close>

lemma py_index_Inr_nonneg: "0 \<le> i \<Longrightarrow> py_index a i = Inr x \<Longrightarrow> nat i < length a \<and> x = a ! nat i"
  by (auto simp: py_index_def Let_def split: if_splits)

lemma conv_Inr: "conv p s = Inr x \<longleftrightarrow> p s = Some x"
  by (simp add: conv_def split: option.splits)

lemma parse_params_Inr:
  assumes "parse_params to_float to_int params = Inr x" "parts = split_on CHR ''_'' params"
  shows "8 \<le> length parts \<and> to_float (parts ! 0) \<noteq> None \<and> to_float (parts ! 1) \<noteq> None \<and>
         to_int (parts ! 2) \<noteq> None \<and> to_float (parts ! 3) \<noteq> None \<and>
         to_int (parts ! 5) \<noteq> None \<and> to_int (parts ! 6) \<noteq> None"
proof -
  from assms(1) obtain a0 a1 a2 a3 a5 a6 a7 where
    "py_index parts 0 = Inr a0" "to_float a0 \<noteq> None"
    "py_index parts 1 = Inr a1" "to_float a1 \<noteq> None"
    "py_index parts 2 = Inr a2" "to_int a2 \<noteq> None"
    "py_index parts 3 = Inr a3" "to_float a3 \<noteq> None"
    "py_index parts 5 = Inr a5" "to_int a5 \<noteq> None"
    "py_index parts 6 = Inr a6" "to_int a6 \<noteq> None"
    "py_index parts 7 = Inr a7"
    unfolding parse_params_def Let_def assms(2)[symmetric] ebind_Inr_iff conv_Inr
    by force
  then show ?thesis
    using py_index_Inr_nonneg[of 0 parts a0] py_index_Inr_nonneg[of 1 parts a1]
      py_index_Inr_nonneg[of 2 parts a2] py_index_Inr_nonneg[of 3 parts a3]
      py_index_Inr_nonneg[of 5 parts a5] py_index_Inr_nonneg[of 6 parts a6]
      py_index_Inr_nonneg[of 7 parts a7]
    by simp
qed

lemma simulate_aus_echo:
  assumes "simulate_aus E mlon mlat mNP mAREA mSIM mDUR dt sd ND = Inr r"
  shows "out_mSIM r = mSIM \<and> out_mNP r = mNP \<and> out_dt r = dt \<and> out_mlon r = mlon \<and>
         out_mlat r = mlat \<and> out_mAREA r = mAREA"
proof (rule simulate_aus_Inr[OF assms])
  fix ds ms st reef_pts
  assume pk: "package st dt (case ebind (etopo_csv E) unzip2 of Inl _ \<Rightarrow> ([], []) | Inr p \<Rightarrow> p)
       reef_pts mlon mlat mAREA mSIM mNP (ds_latitude ds) (ds_longitude ds) = Inr r"
  show ?thesis by (rule package_Inr[OF pk]) simp
qed

lemma parse_not_an_int:
  "parse_params dec_float dec_int ''150.5_20.3_many_2.0_forwards_10_24_2020-01-01'' = Inl ValueError"
  by (simp add: parse_params_def py_index_def conv_def dec_float_def dec_ufloat_def dec_int_def
        dec_nat_def is_digit_def)

lemma parse_too_short:
  "parse_params dec_float dec_int ''150.5_20.3'' = Inl IndexError"
  by (simp add: parse_params_def py_index_def conv_def dec_float_def dec_ufloat_def dec_int_def
        dec_nat_def is_digit_def)

lemma parse_sideways:
  "parse_params dec_float dec_int ''150.5_20.3_4_2.0_sideways_10_24_2020-01-01'' =
   Inr (Fin (301 / 2), Fin (203 / 10), 4, Fin 2, ''sideways'', 10, 24, ''2020-01-01'')"
  by (simp add: parse_params_def py_index_def conv_def dec_float_def dec_ufloat_def dec_int_def
        dec_nat_def is_digit_def)

lemma parse_nine_tokens:
  "parse_params dec_float dec_int ''150.5_20.3_4_2.0_forwards_10_24_2020-01-01_more'' =
   Inr (Fin (301 / 2), Fin (203 / 10), 4, Fin 2, ''forwards'', 10, 24, ''2020-01-01'')"
  by (simp add: parse_params_def py_index_def conv_def dec_float_def dec_ufloat_def dec_int_def
        dec_nat_def is_digit_def)

lemma py_index_take:
  assumes "take 8 ps' = take 8 ps" "8 \<le> length ps" "0 \<le> i" "i < 8"
  shows "py_index ps' i = py_index ps i"
proof -
  have l: "8 \<le> length ps'"
  proof -
    have "length (take 8 ps') = 8" using assms(1,2) by simp
    then show ?thesis by simp
  qed
  have "ps' ! nat i = take 8 ps' ! nat i" using assms(3,4) by simp
  also have "\<dots> = ps ! nat i" unfolding assms(1) using assms(3,4) by simp
  finally show ?thesis using assms(2,3,4) l by (simp add: py_index_def)
qed

lemma parse_params_take:
  assumes "take 8 (split_on CHR ''_'' params') = take 8 (split_on CHR ''_'' params)"
    and "8 \<le> length (split_on CHR ''_'' params)"
  shows "parse_params to_float to_int params' = parse_params to_float to_int params"
  by (simp add: parse_params_def Let_def py_index_take[OF assms])

lemma parse_params_accept:
  assumes "parts = split_on CHR ''_'' params" "8 \<le> length parts"
    and "to_float (parts ! 0) = Some lon" "to_float (parts ! 1) = Some lat"
      "to_int (parts ! 2) = Some n" "to_float (parts ! 3) = Some area"
      "to_int (parts ! 5) = Some dur" "to_int (parts ! 6) = Some dtt"
  shows "parse_params to_float to_int params =
         Inr (lon, lat, n, area, parts ! 4, dur, dtt, parts ! 7)"
proof -
  have ix: "py_index parts i = Inr (parts ! nat i)" if "0 \<le> i" "i < 8" for i
    using that assms(2) by (simp add: py_index_ok)
  show ?thesis
    unfolding parse_params_def assms(1)[symmetric] Let_def
    using assms(3-) by (simp add: ix conv_def)
qed

lemma routes_of_parse:
  "visualize E params =
     (case parse_params (py_float E) (py_int E) params of
        Inl e \<Rightarrow> Raised e
      | Inr (mlon, mlat, mNP, mAREA, mSIM, mDUR, mDT, date_str) \<Rightarrow>
          page_of ''aus_lagrangian.html'' (simulate_aus E mlon mlat mNP mAREA mSIM mDUR mDT date_str 5))"
  "gbr_visualize E params =
     (case parse_params (py_float E) (py_int E) params of
        Inl e \<Rightarrow> Raised e
      | Inr (mlon, mlat, mNP, mAREA, mSIM, mDUR, mDT, date_str) \<Rightarrow>
          page_of ''gbr_lagrangian.html'' (simulate_gbr E mlon mlat mNP mAREA mSIM mDUR mDT date_str 5))"
  "api_sim E params =
     (case parse_params (py_float E) (py_int E) params of
        Inl e \<Rightarrow> JsonError e
      | Inr (mlon, mlat, mNP, mAREA, mSIM, mDUR, mDT, date_str) \<Rightarrow>
          json_of (simulate_aus E mlon mlat mNP mAREA mSIM mDUR mDT date_str 5))"
  "api_gbr_sim E params =
     (case parse_params (py_float E) (py_int E) params of
        Inl e \<Rightarrow> JsonError e
      | Inr (mlon, mlat, mNP, mAREA, mSIM, mDUR, mDT, date_str) \<Rightarrow>
          json_of (simulate_gbr E mlon mlat mNP mAREA mSIM mDUR mDT date_str 5))"
  by (simp_all add: visualize_def gbr_visualize_def api_sim_def api_gbr_sim_def page_of_def
        json_of_def split: sum.splits prod.splits)

lemma split_sideways:
  "split_on CHR ''_'' ''150.5_20.3_4_2.0_sideways_10_24_2020-01-01'' =
   [''150.5'', ''20.3'', ''4'', ''2.0'', ''sideways'', ''10'', ''24'', ''2020-01-01'']"
  by simp

lemma split_nine:
  "split_on CHR ''_'' ''150.5_20.3_4_2.0_forwards_10_24_2020-01-01_more'' =
   [''150.5'', ''20.3'', ''4'', ''2.0'', ''forwards'', ''10'', ''24'', ''2020-01-01'', ''more'']"
  by simp

lemma split_eight:
  "split_on CHR ''_'' ''150.5_20.3_4_2.0_forwards_10_24_2020-01-01'' =
   [''150.5'', ''20.3'', ''4'', ''2.0'', ''forwards'', ''10'', ''24'', ''2020-01-01'']"
  by simp

lemma example_tokens:
  "py_float example_env ''150.5'' = Some (Fin (301 / 2))"
  "py_float example_env ''20.3'' = Some (Fin (203 / 10))"
  "py_int example_env ''4'' = Some 4"
  "py_float example_env ''2.0'' = Some (Fin 2)"
  "py_int example_env ''10'' = Some 10"
  "py_int example_env ''24'' = Some 24"
  by (simp_all add: example_env_def dec_float_def dec_ufloat_def dec_int_def dec_nat_def
        is_digit_def)

section \<open>The claims\<close>

text \<open>
  Claim C2, amended. For every run of \<open>simulate_aus\<close> that returns, with \<open>ms\<close> the clamped
  number of major steps \<open>min(ceil(mDUR / ND), len(time_all) - 1)\<close>: the number of recorded
  snapshots is \<open>max(0, ms)\<close> times \<open>max(0, int(ND * 24 / dt))\<close>; the latitude snapshots, the
  date strings and \<open>TS\<close> have the same count. For a positive \<open>dt\<close>, a positive \<open>ND\<close> and a
  non-negative \<open>ms\<close> this is \<open>ms * floor(ND * 24 / dt)\<close>, and when that floor is 0 nothing is
  recorded.
\<close>

theorem snapshot_count:
  assumes "simulate_aus E mlon mlat mNP mAREA mSIM mDUR dt sd ND = Inr r"
    and "oscar_nc E = Inr ds"
    and "major_steps mDUR ND (length (ds_time ds)) = Inr ms"
  shows "length (out_LONP r) = nat ms * nat (py_int_of_float (real_of_int (ND * 24) / real_of_int dt)) \<and>
         length (out_LATP r) = length (out_LONP r) \<and>
         length (out_dates r) = length (out_LONP r) \<and>
         out_TS r = length (out_LONP r) \<and>
         (0 < dt \<and> 0 < ND \<and> 0 \<le> ms \<longrightarrow>
            int (length (out_LONP r)) = ms * \<lfloor>real_of_int (ND * 24) / real_of_int dt\<rfloor>) \<and>
         (0 < dt \<and> 0 < ND \<and> \<lfloor>real_of_int (ND * 24) / real_of_int dt\<rfloor> = 0 \<longrightarrow>
            out_LONP r = [] \<and> out_dates r = [])"
proof (rule simulate_aus_run[OF assms(1)])
  fix ds' a b c d st
  assume ds': "oscar_nc E = Inr ds'"
    and out: "out_LONP r = LONP st" "out_LATP r = LATP st" "out_dates r = dates st"
      "out_TS r = length (LONP st)"
    and inv: "run_inv a b c d (nat mNP) sd dt
       (seed mlon mAREA (uniform_1 E) mNP, seed mlat mAREA (uniform_2 E) mNP) st"
    and cnt: "length (LONP st) =
       nat (min \<lceil>real_of_int mDUR / real_of_int ND\<rceil> (int (length (ds_time ds')) - 1)) *
       nat (py_int_of_float (real_of_int (ND * 24) / real_of_int dt))"
  have e: "ds' = ds" using ds' assms(2) by simp
  have mse: "ms = min \<lceil>real_of_int mDUR / real_of_int ND\<rceil> (int (length (ds_time ds)) - 1)"
    using major_steps_Inr[OF assms(3)] by simp
  have c1: "length (out_LONP r) =
      nat ms * nat (py_int_of_float (real_of_int (ND * 24) / real_of_int dt))"
    unfolding out cnt e mse ..
  have c2: "length (out_LATP r) = length (out_LONP r)" "length (out_dates r) = length (out_LONP r)"
    "out_TS r = length (out_LONP r)"
    using inv unfolding out by (simp_all add: run_inv_def)
  have c3: "int (length (out_LONP r)) = ms * \<lfloor>real_of_int (ND * 24) / real_of_int dt\<rfloor>"
    if "0 < dt \<and> 0 < ND \<and> 0 \<le> ms"
  proof -
    have nn: "0 \<le> \<lfloor>real_of_int (ND * 24) / real_of_int dt\<rfloor>" using that by simp
    have pf: "py_int_of_float (real_of_int (ND * 24) / real_of_int dt) =
              \<lfloor>real_of_int (ND * 24) / real_of_int dt\<rfloor>"
      using that by (intro py_int_of_float_floor) simp_all
    have "int (nat ms * nat \<lfloor>real_of_int (ND * 24) / real_of_int dt\<rfloor>) =
          ms * \<lfloor>real_of_int (ND * 24) / real_of_int dt\<rfloor>"
      using that nn by (simp only: of_nat_mult int_nat_eq if_True)
    then show ?thesis unfolding c1 pf .
  qed
  have c4: "out_LONP r = [] \<and> out_dates r = []"
    if "0 < dt \<and> 0 < ND \<and> \<lfloor>real_of_int (ND * 24) / real_of_int dt\<rfloor> = 0"
  proof -
    have pf: "py_int_of_float (real_of_int (ND * 24) / real_of_int dt) =
              \<lfloor>real_of_int (ND * 24) / real_of_int dt\<rfloor>"
      using that by (intro py_int_of_float_floor) simp_all
    have "length (out_LONP r) = 0" unfolding c1 pf using that by (simp only: nat_0 mult_0_right)
    then show ?thesis using c2(2) by simp
  qed
  show ?thesis using c1 c2 c3 c4 by blast
qed

text \<open>A run of 10 days with \<open>dt = 24\<close> on three snapshots records 2 * 5 snapshots.\<close>

theorem snapshot_count_witness:
  "case simulate_aus example_env (Fin 150) (Fin 20) 4 (Fin 0) ''forwards'' 10 24 ''2020-01-01'' 5 of
     Inl e \<Rightarrow> False
   | Inr r \<Rightarrow> length (out_LONP r) = 10 \<and> length (out_LATP r) = 10 \<and>
             length (out_dates r) = 10 \<and> out_TS r = 10"
proof -
  have "\<exists>r. simulate_aus example_env (Fin 150) (Fin 20) 4 (Fin 0) ''forwards'' 10 24
      ''2020-01-01'' 5 = Inr r"
    by (rule example_total) (simp_all add: iso_date_example)
  then obtain r where r: "simulate_aus example_env (Fin 150) (Fin 20) 4 (Fin 0) ''forwards'' 10 24
      ''2020-01-01'' 5 = Inr r" ..
  have ms: "major_steps 10 5 (length (ds_time example_ds)) = Inr 2"
    by (simp add: major_steps_def py_ceil_div_def example_ds_def Let_def)
  from snapshot_count[OF r example_source ms]
  have "length (out_LONP r) = 10 \<and> length (out_LATP r) = 10 \<and>
        length (out_dates r) = 10 \<and> out_TS r = 10"
    by (simp add: py_int_of_float_def)
  then show ?thesis by (simp add: r)
qed

text \<open>
  Claim C2 as stated fails for a negative duration: the request for -10 days on three
  snapshots has \<open>major_steps = -2\<close>, the index list is empty and no snapshot is recorded,
  while \<open>major_steps * floor(ND * 24 / dt)\<close> is -10.
\<close>

theorem snapshot_count_counterexample:
  "case simulate_aus example_env (Fin 150) (Fin 20) 4 (Fin 0) ''forwards'' (- 10) 24 ''2020-01-01'' 5 of
     Inl e \<Rightarrow> False
   | Inr r \<Rightarrow>
       (case major_steps (- 10) 5 (length (ds_time example_ds)) of
          Inl e \<Rightarrow> False
        | Inr ms \<Rightarrow> ms = - 2 \<and> length (out_LONP r) = 0 \<and>
            int (length (out_LONP r)) \<noteq> ms * \<lfloor>real_of_int (5 * 24) / real_of_int 24\<rfloor>)"
proof -
  have "\<exists>r. simulate_aus example_env (Fin 150) (Fin 20) 4 (Fin 0) ''forwards'' (- 10) 24
      ''2020-01-01'' 5 = Inr r"
    by (rule example_total) (simp_all add: iso_date_example)
  then obtain r where r: "simulate_aus example_env (Fin 150) (Fin 20) 4 (Fin 0) ''forwards'' (- 10) 24
      ''2020-01-01'' 5 = Inr r" ..
  have ms: "major_steps (- 10) 5 (length (ds_time example_ds)) = Inr (- 2)"
    by (simp add: major_steps_def py_ceil_div_def example_ds_def Let_def)
  have "length (out_LONP r) = 0"
    using simulate_aus_length(1)[OF r example_source] by (simp add: example_ds_def)
  then show ?thesis by (simp add: r ms)
qed

text \<open>
  Claim C5. In a run that returns, the date recorded with the \<open>k\<close>-th snapshot (counted
  from 0 over the whole run, so \<open>k\<close> sub-steps were recorded before it) is the start date plus
  \<open>k * dt\<close> hours, and there is one date per snapshot.
\<close>

theorem snapshot_dates:
  assumes "simulate_aus E mlon mlat mNP mAREA mSIM mDUR dt sd ND = Inr r"
    and "k < length (out_dates r)"
  shows "out_dates r ! k = Stamp sd (int k * dt) \<and> length (out_dates r) = length (out_LONP r)"
proof (rule simulate_aus_run[OF assms(1)])
  fix ds a b c d st
  assume out: "out_LONP r = LONP st" "out_dates r = dates st"
    and inv: "run_inv a b c d (nat mNP) sd dt
       (seed mlon mAREA (uniform_1 E) mNP, seed mlat mAREA (uniform_2 E) mNP) st"
  show ?thesis using inv assms(2) unfolding out by (simp add: run_inv_def)
qed

text \<open>The first snapshot carries the start date itself, the fourth 72 hours later.\<close>

theorem snapshot_dates_witness:
  "case simulate_aus example_env (Fin 150) (Fin 20) 4 (Fin 0) ''forwards'' 10 24 ''2020-01-01'' 5 of
     Inl e \<Rightarrow> False
   | Inr r \<Rightarrow> out_dates r ! 0 = Stamp ''2020-01-01'' 0 \<and> out_dates r ! 3 = Stamp ''2020-01-01'' 72"
proof -
  have "\<exists>r. simulate_aus example_env (Fin 150) (Fin 20) 4 (Fin 0) ''forwards'' 10 24
      ''2020-01-01'' 5 = Inr r"
    by (rule example_total) (simp_all add: iso_date_example)
  then obtain r where r: "simulate_aus example_env (Fin 150) (Fin 20) 4 (Fin 0) ''forwards'' 10 24
      ''2020-01-01'' 5 = Inr r" ..
  have n: "length (out_dates r) = 10"
    using simulate_aus_length(2)[OF r example_source] example_length_10[OF r] by simp
  have "out_dates r ! 0 = Stamp ''2020-01-01'' 0" using snapshot_dates[OF r, of 0] n by simp
  moreover have "out_dates r ! 3 = Stamp ''2020-01-01'' 72" using snapshot_dates[OF r, of 3] n by simp
  ultimately show ?thesis by (simp add: r)
qed

text \<open>
  Claim C3. In a run that returns, if particle \<open>j\<close> has a NaN coordinate or lies outside the
  \<open>[min, max]\<close> range of the grid axes in the cloud that sub-step \<open>k\<close> starts from, then both
  its coordinates are NaN in the snapshot of sub-step \<open>k\<close> and of every later sub-step \<open>k'\<close>.
\<close>

theorem exit_ratchet:
  assumes run: "simulate_aus E mlon mlat mNP mAREA mSIM mDUR dt sd ND = Inr r"
    and ds: "oscar_nc E = Inr ds"
    and bnd: "np_min (ds_longitude ds) = Inr lon_min" "np_max (ds_longitude ds) = Inr lon_max"
      "np_min (ds_latitude ds) = Inr lat_min" "np_max (ds_latitude ds) = Inr lat_max"
    and j: "j < nat mNP" and k: "k \<le> k'" "k' < length (out_LONP r)"
    and out: "fst (cloud_before E mlon mlat mNP mAREA r k) ! j = NaN \<or>
              snd (cloud_before E mlon mlat mNP mAREA r k) ! j = NaN \<or>
              \<not> in_bounds lon_min lon_max lat_min lat_max
                  (fst (cloud_before E mlon mlat mNP mAREA r k) ! j)
                  (snd (cloud_before E mlon mlat mNP mAREA r k) ! j)"
  shows "out_LONP r ! k' ! j = NaN \<and> out_LATP r ! k' ! j = NaN"
proof (rule simulate_aus_run[OF run])
  fix ds' a b c d st
  assume ds': "oscar_nc E = Inr ds'"
    and bnd': "np_min (ds_longitude ds') = Inr a" "np_max (ds_longitude ds') = Inr b"
      "np_min (ds_latitude ds') = Inr c" "np_max (ds_latitude ds') = Inr d"
    and o: "out_LONP r = LONP st" "out_LATP r = LATP st"
    and inv: "run_inv a b c d (nat mNP) sd dt
       (seed mlon mAREA (uniform_1 E) mNP, seed mlat mAREA (uniform_2 E) mNP) st"
  have e: "ds' = ds" using ds' ds by simp
  have ab: "a = lon_min" "b = lon_max" "c = lat_min" "d = lat_max"
    using bnd bnd' unfolding e by simp_all
  let ?c0 = "(seed mlon mAREA (uniform_1 E) mNP, seed mlat mAREA (uniform_2 E) mNP)"
  let ?C = "?c0 # zip (LONP st) (LATP st)"
  have len: "length (LATP st) = length (LONP st)" using inv by (simp add: run_inv_def)
  have chain: "\<forall>k. Suc k < length ?C \<longrightarrow>
      exits lon_min lon_max lat_min lat_max (nat mNP) (?C ! k) (?C ! Suc k)"
    using inv unfolding ab by (simp add: run_inv_def)
  have k'': "k' < length (LONP st)" using k(2) unfolding o .
  have cb: "cloud_before E mlon mlat mNP mAREA r k = ?C ! k"
  proof (cases k)
    case 0
    then show ?thesis by (simp add: cloud_before_def)
  next
    case (Suc m)
    then have "m < length (LONP st)" using k k'' by simp
    then show ?thesis using Suc len by (simp add: cloud_before_def o)
  qed
  have nb: "\<not> in_bounds lon_min lon_max lat_min lat_max (fst (?C ! k) ! j) (snd (?C ! k) ! j)"
    using out unfolding cb by auto
  have "fst (?C ! Suc k') ! j = NaN \<and> snd (?C ! Suc k') ! j = NaN"
    by (rule exits_chain[OF chain j nb]) (use k k'' len in simp_all)
  then show ?thesis using k'' len unfolding o by simp
qed

text \<open>A cloud seeded at longitude 200, outside the axis range 140 to 160, is NaN throughout.\<close>

theorem exit_ratchet_witness:
  "case simulate_aus example_env (Fin 200) (Fin 20) 4 (Fin 0) ''forwards'' 10 24 ''2020-01-01'' 5 of
     Inl e \<Rightarrow> False
   | Inr r \<Rightarrow> out_LONP r ! 0 ! 0 = NaN \<and> out_LATP r ! 0 ! 0 = NaN \<and>
             out_LONP r ! 9 ! 0 = NaN \<and> out_LATP r ! 9 ! 0 = NaN"
proof -
  have "\<exists>r. simulate_aus example_env (Fin 200) (Fin 20) 4 (Fin 0) ''forwards'' 10 24
      ''2020-01-01'' 5 = Inr r"
    by (rule example_total) (simp_all add: iso_date_example)
  then obtain r where r: "simulate_aus example_env (Fin 200) (Fin 20) 4 (Fin 0) ''forwards'' 10 24
      ''2020-01-01'' 5 = Inr r" ..
  have n: "length (out_LONP r) = 10" by (rule example_length_10[OF r])
  have o: "fst (cloud_before example_env (Fin 200) (Fin 20) 4 (Fin 0) r 0) ! 0 = NaN \<or>
           snd (cloud_before example_env (Fin 200) (Fin 20) 4 (Fin 0) r 0) ! 0 = NaN \<or>
           \<not> in_bounds 140 160 0 60
              (fst (cloud_before example_env (Fin 200) (Fin 20) 4 (Fin 0) r 0) ! 0)
              (snd (cloud_before example_env (Fin 200) (Fin 20) 4 (Fin 0) r 0) ! 0)"
    by (simp add: cloud_before_def seed_def in_bounds_def)
  have "out_LONP r ! 0 ! 0 = NaN \<and> out_LATP r ! 0 ! 0 = NaN"
    by (rule exit_ratchet[OF r example_source example_bounds _ _ _ o]) (simp_all add: n)
  moreover have "out_LONP r ! 9 ! 0 = NaN \<and> out_LATP r ! 9 ! 0 = NaN"
    by (rule exit_ratchet[OF r example_source example_bounds _ _ _ o]) (simp_all add: n)
  ultimately show ?thesis by (simp add: r)
qed

text \<open>
  Claim C6. With \<open>ms\<close> the clamped number of major steps and \<open>ms \<ge> 1\<close>, and \<open>last\<close> the last
  time index \<open>n - 1\<close>: for \<open>forwards\<close> the list of leading indices is \<open>[0, 1, ..., ms - 1]\<close> and
  each pair is \<open>(t, t + 1)\<close>; for \<open>backwards\<close> the list is \<open>[last, last - 1, ..., last - ms + 1]\<close>
  and each pair is \<open>(t, t - 1)\<close>; the backwards list and its pairs are the images of the
  forwards ones under \<open>t \<mapsto> last - t\<close>.
\<close>

theorem direction_indices:
  assumes "major_steps mDUR ND n = Inr ms" "1 \<le> ms"
  shows "time_idx ''forwards'' ms n = map int [0..<nat ms] \<and>
         map (index_pair ''forwards'') (time_idx ''forwards'' ms n) =
           map (\<lambda>k. (int k, int k + 1)) [0..<nat ms] \<and>
         time_idx ''backwards'' ms n = map (\<lambda>k. (int n - 1) - int k) [0..<nat ms] \<and>
         map (index_pair ''backwards'') (time_idx ''backwards'' ms n) =
           map (\<lambda>k. ((int n - 1) - int k, (int n - 1) - int k - 1)) [0..<nat ms] \<and>
         time_idx ''backwards'' ms n = map (\<lambda>t. (int n - 1) - t) (time_idx ''forwards'' ms n) \<and>
         map (index_pair ''backwards'') (time_idx ''backwards'' ms n) =
           map (\<lambda>(i1, i2). ((int n - 1) - i1, (int n - 1) - i2))
             (map (index_pair ''forwards'') (time_idx ''forwards'' ms n))"
proof -
  have ms: "0 \<le> ms" using assms(2) by simp
  have f: "time_idx ''forwards'' ms n = map int [0..<nat ms]"
    by (rule time_idx_forwards[OF ms])
  have b: "time_idx ''backwards'' ms n = map (\<lambda>k. (int n - 1) - int k) [0..<nat ms]"
    by (rule time_idx_backwards[OF ms]) simp
  show ?thesis unfolding f b by (simp add: index_pair_def o_def)
qed

text \<open>Ten days on three snapshots: \<open>[0, 1]\<close> forwards and \<open>[2, 1]\<close> backwards.\<close>

theorem direction_indices_witness:
  "time_idx ''forwards'' 2 3 = [0, 1] \<and> time_idx ''backwards'' 2 3 = [2, 1] \<and>
   map (index_pair ''forwards'') (time_idx ''forwards'' 2 3) = [(0, 1), (1, 2)] \<and>
   map (index_pair ''backwards'') (time_idx ''backwards'' 2 3) = [(2, 1), (1, 0)]"
proof -
  have ms: "major_steps 10 5 3 = Inr 2"
    by (simp add: major_steps_def py_ceil_div_def Let_def)
  have u: "[0..<nat 2] = [0, 1]" by (simp add: upt_rec)
  from direction_indices[OF ms] show ?thesis unfolding u by (simp add: index_pair_def)
qed

text \<open>
  Claim C10. With \<open>ms\<close> the clamped number of major steps for \<open>n\<close> snapshots, in either
  direction: both indices of every pair lie in \<open>[0, n - 1]\<close>, so indexing an array whose time
  axis has \<open>n\<close> entries never raises; and the list of leading indices is empty when there is
  at most one snapshot, or when the duration is not positive (for a positive \<open>ND\<close>).
\<close>

theorem time_indices_in_range:
  assumes "major_steps mDUR ND n = Inr ms"
  shows "(\<forall>t \<in> set (time_idx mSIM ms n).
            0 \<le> fst (index_pair mSIM t) \<and> fst (index_pair mSIM t) \<le> int n - 1 \<and>
            0 \<le> snd (index_pair mSIM t) \<and> snd (index_pair mSIM t) \<le> int n - 1 \<and>
            (length U = n \<longrightarrow>
               py_index U (fst (index_pair mSIM t)) = Inr (U ! nat (fst (index_pair mSIM t))) \<and>
               py_index U (snd (index_pair mSIM t)) = Inr (U ! nat (snd (index_pair mSIM t))))) \<and>
         (n \<le> 1 \<longrightarrow> time_idx mSIM ms n = []) \<and>
         (0 < ND \<and> mDUR \<le> 0 \<longrightarrow> time_idx mSIM ms n = [])"
proof -
  have mse: "ms = min \<lceil>real_of_int mDUR / real_of_int ND\<rceil> (int n - 1)"
    using major_steps_Inr[OF assms] by simp
  then have le: "ms \<le> int n - 1" by simp
  have a: "0 \<le> fst (index_pair mSIM t) \<and> fst (index_pair mSIM t) \<le> int n - 1 \<and>
            0 \<le> snd (index_pair mSIM t) \<and> snd (index_pair mSIM t) \<le> int n - 1 \<and>
            (length U = n \<longrightarrow>
               py_index U (fst (index_pair mSIM t)) = Inr (U ! nat (fst (index_pair mSIM t))) \<and>
               py_index U (snd (index_pair mSIM t)) = Inr (U ! nat (snd (index_pair mSIM t))))"
    if "t \<in> set (time_idx mSIM ms n)" for t
  proof -
    from time_idx_range[OF le that]
    have r: "0 \<le> fst (index_pair mSIM t)" "fst (index_pair mSIM t) \<le> int n - 1"
      "0 \<le> snd (index_pair mSIM t)" "snd (index_pair mSIM t) \<le> int n - 1"
      by (simp_all add: index_pair_def split: if_splits)
    then show ?thesis by (simp add: py_index_ok)
  qed
  have b: "time_idx mSIM ms n = []" if "n \<le> 1"
    by (rule time_idx_empty) (use le that in simp)
  have c: "time_idx mSIM ms n = []" if "0 < ND \<and> mDUR \<le> 0"
  proof (rule time_idx_empty)
    have "real_of_int mDUR / real_of_int ND \<le> 0" using that by (simp add: divide_le_0_iff)
    then have "\<lceil>real_of_int mDUR / real_of_int ND\<rceil> \<le> 0" by (simp add: ceiling_le_iff)
    then show "ms \<le> 0" unfolding mse by (simp add: min_le_iff_disj)
  qed
  show ?thesis using a b c by blast
qed

text \<open>
  The pair of the leading index 1 of a backwards run on three snapshots is \<open>(1, 0)\<close>; one
  snapshot, or a negative duration, gives no index.
\<close>

theorem time_indices_in_range_witness:
  "index_pair ''backwards'' 1 = (1, 0) \<and>
   py_index [[[1, 1], [1, 1 :: real]], [[2, 2], [2, 2]], [[3, 3], [3, 3]]] 0 = Inr [[1, 1], [1, 1]] \<and>
   time_idx ''backwards'' 0 1 = [] \<and> time_idx ''forwards'' (- 2) 3 = []"
proof -
  have ms: "major_steps 10 5 3 = Inr 2" "major_steps 10 5 1 = Inr 0" "major_steps (- 10) 5 3 = Inr (- 2)"
    by (simp_all add: major_steps_def py_ceil_div_def Let_def)
  have t: "(1::int) \<in> set (time_idx ''backwards'' 2 3)"
    using time_idx_backwards[of 2 "''backwards''" 3] by (simp add: upt_rec)
  have p: "index_pair ''backwards'' 1 = (1, 0)" by (simp add: index_pair_def)
  from time_indices_in_range[OF ms(1), of "''backwards''"
      "[[[1, 1], [1, 1 :: real]], [[2, 2], [2, 2]], [[3, 3], [3, 3]]]"]
  have "\<forall>t \<in> set (time_idx ''backwards'' 2 3).
          py_index [[[1, 1], [1, 1 :: real]], [[2, 2], [2, 2]], [[3, 3], [3, 3]]]
            (snd (index_pair ''backwards'' t)) =
          Inr ([[[1, 1], [1, 1]], [[2, 2], [2, 2]], [[3, 3], [3, 3]]] !
            nat (snd (index_pair ''backwards'' t)))"
    by simp
  from bspec[OF this t]
  have "py_index [[[1, 1], [1, 1 :: real]], [[2, 2], [2, 2]], [[3, 3], [3, 3]]] 0 = Inr [[1, 1], [1, 1]]"
    unfolding p by simp
  moreover from time_indices_in_range[OF ms(2), of "''backwards''" "[] :: nat list"]
  have "time_idx ''backwards'' 0 1 = []" by simp
  moreover from time_indices_in_range[OF ms(3), of "''forwards''" "[] :: nat list"]
  have "time_idx ''forwards'' (- 2) 3 = []" by simp
  ultimately show ?thesis using p by simp
qed

text \<open>
  Claim C1, amended. In every sub-step, for an in-bounds particle at \<open>(lon, lat)\<close> with
  \<open>cos(radians(lat))\<close> nonzero and blended velocity \<open>(u, v)\<close>: with the constant metres per
  degree of latitude \<open>mlat = (2 pi 6371000) / 360\<close> and the metres per degree of longitude
  \<open>mlon(lat) = mlat * cos(radians(lat))\<close>, the particle is displaced by
  \<open>u * (dt * 3600) / mlon(lat)\<close> in longitude and \<open>v * (dt * 3600) / mlat\<close> in latitude, added for
  \<open>forwards\<close> and subtracted otherwise.
\<close>

theorem position_update:
  assumes "sub_step mSIM dt sd lat_nc lon_nc f_u1 f_v1 f_u2 f_v2 mNP sub_steps s st = Inr st'"
    and "np_min lon_nc = Inr lon_min" "np_max lon_nc = Inr lon_max"
      "np_min lat_nc = Inr lat_min" "np_max lat_nc = Inr lat_max"
    and "length (lonP st) = nat mNP" "length (latP st) = nat mNP" and "j < nat mNP"
    and "lonP st ! j = Fin lon" "latP st ! j = Fin lat"
    and "in_bounds lon_min lon_max lat_min lat_max (Fin lon) (Fin lat)"
    and "cos (radians lat) \<noteq> 0"
    and "u = (1 - real_of_int s / real_of_int sub_steps) * f_u1 (lat, lon) +
             (real_of_int s / real_of_int sub_steps) * f_u2 (lat, lon)"
    and "v = (1 - real_of_int s / real_of_int sub_steps) * f_v1 (lat, lon) +
             (real_of_int s / real_of_int sub_steps) * f_v2 (lat, lon)"
  shows "lonP st' ! j =
           Fin (lon + (if mSIM = ''forwards'' then 1 else - 1) *
                      (u * real_of_int (dt * 3600) / m_per_deg_lon lat)) \<and>
         latP st' ! j =
           Fin (lat + (if mSIM = ''forwards'' then 1 else - 1) *
                      (v * real_of_int (dt * 3600) / m_per_deg_lat)) \<and>
         m_per_deg_lat = (2 * pi * 6371000) / 360 \<and>
         m_per_deg_lon lat = m_per_deg_lat * cos (radians lat)"
proof -
  have cs: "cos (lat * pi / 180) \<noteq> 0" using assms(12) by (simp add: radians_def)
  from sub_step_moves[OF assms(1-11) cs] show ?thesis
    unfolding assms(13,14) by (simp add: m_per_deg_lat_def m_per_deg_lon_def)
qed

text \<open>One sub-step of one hour at latitude 60 in an eastward flow of 1 m/s.\<close>

theorem position_update_witness:
  "case sub_step ''forwards'' 1 ''2020-01-01'' [0, 60] [140, 160]
          (\<lambda>p. 1) (\<lambda>p. 0) (\<lambda>p. 1) (\<lambda>p. 0) 1 120 1
          \<lparr> lonP = [Fin 150], latP = [Fin 60], LONP = [], LATP = [], dates = [] \<rparr> of
     Inl e \<Rightarrow> False
   | Inr st' \<Rightarrow> lonP st' ! 0 = Fin (150 + 3600 / m_per_deg_lon 60) \<and> latP st' ! 0 = Fin 60"
proof -
  have bnd: "np_min [140, 160] = Inr 140" "np_max [140, 160] = Inr 160"
    "np_min [0, 60] = Inr 0" "np_max [0, 60] = Inr 60"
    by (simp_all add: np_min_def np_max_def)
  obtain st' where st: "sub_step ''forwards'' 1 ''2020-01-01'' [0, 60] [140, 160]
          (\<lambda>p. 1) (\<lambda>p. 0) (\<lambda>p. 1) (\<lambda>p. 0) 1 120 1
          \<lparr> lonP = [Fin 150], latP = [Fin 60], LONP = [], LATP = [], dates = [] \<rparr> = Inr st'"
    using sub_step_total[OF bnd] by blast
  have "lonP st' ! 0 = Fin (150 + 3600 / m_per_deg_lon 60) \<and> latP st' ! 0 = Fin 60"
    using position_update[OF st bnd, of 0 150 60 1 0]
    by (simp add: in_bounds_def cos_radians_60)
  then show ?thesis by (simp add: st)
qed

text \<open>
  Claim C1 as stated fails: at latitude 60, where the cosine is 1/2, the code moves the
  particle by \<open>3600 / (mlat / 2)\<close> degrees of longitude, four times the stated
  \<open>u * (dt * 3600) / mlon(lat)\<close> with \<open>mlon(lat) = mlat / cos(radians(lat)) = 2 mlat\<close>.
\<close>

theorem position_update_counterexample:
  "case sub_step ''forwards'' 1 ''2020-01-01'' [0, 60] [140, 160]
          (\<lambda>p. 1) (\<lambda>p. 0) (\<lambda>p. 1) (\<lambda>p. 0) 1 120 1
          \<lparr> lonP = [Fin 150], latP = [Fin 60], LONP = [], LATP = [], dates = [] \<rparr> of
     Inl e \<Rightarrow> False
   | Inr st' \<Rightarrow>
       lonP st' ! 0 = Fin (150 + 1 * real_of_int (1 * 3600) / (m_per_deg_lat * (1 / 2))) \<and>
       m_per_deg_lon_stated 60 = m_per_deg_lat / (1 / 2) \<and>
       lonP st' ! 0 \<noteq> Fin (150 + 1 * real_of_int (1 * 3600) / m_per_deg_lon_stated 60)"
proof -
  have bnd: "np_min [140, 160] = Inr 140" "np_max [140, 160] = Inr 160"
    "np_min [0, 60] = Inr 0" "np_max [0, 60] = Inr 60"
    by (simp_all add: np_min_def np_max_def)
  obtain st' where st: "sub_step ''forwards'' 1 ''2020-01-01'' [0, 60] [140, 160]
          (\<lambda>p. 1) (\<lambda>p. 0) (\<lambda>p. 1) (\<lambda>p. 0) 1 120 1
          \<lparr> lonP = [Fin 150], latP = [Fin 60], LONP = [], LATP = [], dates = [] \<rparr> = Inr st'"
    using sub_step_total[OF bnd] by blast
  have cs: "cos (60 * pi / 180) \<noteq> 0" using cos_radians_60 by (simp add: radians_def)
  have l: "lonP st' ! 0 = Fin (150 + 3600 / (m_per_deg_lat * (1 / 2)))"
    using sub_step_moves(1)[OF st bnd _ _ _ _ _ _ cs, of 0 150]
    by (simp add: in_bounds_def m_per_deg_lon_def cos_radians_60)
  have m: "m_per_deg_lon_stated 60 = m_per_deg_lat / (1 / 2)"
    by (simp add: m_per_deg_lon_stated_def cos_radians_60)
  have "3600 / (m_per_deg_lat * (1 / 2)) \<noteq> 3600 / (m_per_deg_lat / (1 / 2))"
    using m_per_deg_lat_pos by (simp add: field_simps)
  then show ?thesis using l m by (simp add: st)
qed




text \<open>
  Claim C9. In a sub-step whose four interpolators are the bilinear interpolators of grids
  that are 0 at the node \<open>(i, k)\<close>, a particle located exactly on that node keeps its
  longitude and latitude, in the cloud and in the snapshot this sub-step records. This
  holds at every latitude, the poles included.
\<close>

theorem zero_velocity_node:
  assumes step: "sub_step mSIM dt sd lat_nc lon_nc f_u1 f_v1 f_u2 f_v2 mNP sub_steps s st = Inr st'"
    and rgi: "scipy_rgi lat_nc lon_nc u1 = Inr f_u1" "scipy_rgi lat_nc lon_nc v1 = Inr f_v1"
      "scipy_rgi lat_nc lon_nc u2 = Inr f_u2" "scipy_rgi lat_nc lon_nc v2 = Inr f_v2"
    and len: "length (lonP st) = nat mNP" "length (latP st) = nat mNP" and j: "j < nat mNP"
    and node: "i < length lat_nc" "k < length lon_nc"
      "lonP st ! j = Fin (lon_nc ! k)" "latP st ! j = Fin (lat_nc ! i)"
    and zero: "u1 ! i ! k = 0" "v1 ! i ! k = 0" "u2 ! i ! k = 0" "v2 ! i ! k = 0"
  shows "lonP st' ! j = lonP st ! j \<and> latP st' ! j = latP st ! j \<and>
         last (LONP st') ! j = lonP st ! j \<and> last (LATP st') ! j = latP st ! j"
proof (rule sub_step_bounds[OF step])
  fix a b c d
  assume bnd: "np_min lon_nc = Inr a" "np_max lon_nc = Inr b"
    "np_min lat_nc = Inr c" "np_max lat_nc = Inr d"
  have mem: "lon_nc ! k \<in> set lon_nc" "lat_nc ! i \<in> set lat_nc" using node(1,2) by simp_all
  have inb: "in_bounds a b c d (Fin (lon_nc ! k)) (Fin (lat_nc ! i))"
    using np_min_le[OF bnd(1) mem(1)] np_max_ge[OF bnd(2) mem(1)]
      np_min_le[OF bnd(3) mem(2)] np_max_ge[OF bnd(4) mem(2)]
    by (simp add: in_bounds_def)
  have f: "f_u1 (lat_nc ! i, lon_nc ! k) = 0" "f_v1 (lat_nc ! i, lon_nc ! k) = 0"
    "f_u2 (lat_nc ! i, lon_nc ! k) = 0" "f_v2 (lat_nc ! i, lon_nc ! k) = 0"
    using scipy_rgi_node[OF rgi(1) node(1,2)] scipy_rgi_node[OF rgi(2) node(1,2)]
      scipy_rgi_node[OF rgi(3) node(1,2)] scipy_rgi_node[OF rgi(4) node(1,2)] zero
    by simp_all
  note mv = sub_step_still[OF step bnd len j node(3,4) inb f]
  have a: "lonP st' ! j = lonP st ! j" "latP st' ! j = latP st ! j"
    using mv node(3,4) by simp_all
  note eff = sub_step_effect(3,4)[OF step bnd len]
  show ?thesis using a unfolding eff by simp
qed

text \<open>A polar node: the corner at latitude 90 of grids that are 0 there and not elsewhere.\<close>

theorem zero_velocity_node_witness:
  "case sub_step ''forwards'' 24 ''2020-01-01'' [0, 90] [140, 160]
          (linear_interp [0, 90] [140, 160] [[1, 1], [0, 1]])
          (linear_interp [0, 90] [140, 160] [[2, 2], [0, 2]])
          (linear_interp [0, 90] [140, 160] [[3, 3], [0, 3]])
          (linear_interp [0, 90] [140, 160] [[4, 4], [0, 4]]) 1 5 1
          \<lparr> lonP = [Fin 140], latP = [Fin 90], LONP = [], LATP = [], dates = [] \<rparr> of
     Inl e \<Rightarrow> False
   | Inr st' \<Rightarrow> lonP st' ! 0 = Fin 140 \<and> latP st' ! 0 = Fin 90 \<and>
                last (LONP st') ! 0 = Fin 140 \<and> last (LATP st') ! 0 = Fin 90"
proof -
  have bnd: "np_min [140, 160] = Inr 140" "np_max [140, 160] = Inr 160"
    "np_min [0, 90] = Inr 0" "np_max [0, 90] = Inr 90"
    by (simp_all add: np_min_def np_max_def)
  obtain st' where st: "sub_step ''forwards'' 24 ''2020-01-01'' [0, 90] [140, 160]
          (linear_interp [0, 90] [140, 160] [[1, 1], [0, 1]])
          (linear_interp [0, 90] [140, 160] [[2, 2], [0, 2]])
          (linear_interp [0, 90] [140, 160] [[3, 3], [0, 3]])
          (linear_interp [0, 90] [140, 160] [[4, 4], [0, 4]]) 1 5 1
          \<lparr> lonP = [Fin 140], latP = [Fin 90], LONP = [], LATP = [], dates = [] \<rparr> = Inr st'"
    using sub_step_total[OF bnd] by blast
  have r: "scipy_rgi [0, 90] [140, 160] [[1, 1], [0, 1]] = Inr (linear_interp [0, 90] [140, 160] [[1, 1], [0, 1]])"
    "scipy_rgi [0, 90] [140, 160] [[2, 2], [0, 2]] = Inr (linear_interp [0, 90] [140, 160] [[2, 2], [0, 2]])"
    "scipy_rgi [0, 90] [140, 160] [[3, 3], [0, 3]] = Inr (linear_interp [0, 90] [140, 160] [[3, 3], [0, 3]])"
    "scipy_rgi [0, 90] [140, 160] [[4, 4], [0, 4]] = Inr (linear_interp [0, 90] [140, 160] [[4, 4], [0, 4]])"
    by (simp_all add: scipy_rgi_def)
  have "lonP st' ! 0 = Fin 140 \<and> latP st' ! 0 = Fin 90 \<and>
        last (LONP st') ! 0 = Fin 140 \<and> last (LATP st') ! 0 = Fin 90"
    using zero_velocity_node[OF st r, of 0 1 0] by simp
  then show ?thesis by (simp add: st)
qed

text \<open>
  Claim C4, amended. With the parameter string split at \<^verbatim>\<open>_\<close>: if it has fewer than eight
  tokens, or \<^verbatim>\<open>float\<close> or \<^verbatim>\<open>int\<close> rejects one of its numeric fields (longitude, latitude,
  particle count, area, duration, timestep), \<open>parse_params\<close> raises, and each route answers
  with that exception whatever the data sources hold (they are not read) and without a
  trajectory: the two API routes with the error as JSON, the two page routes by letting it
  escape. Every other string is accepted: the parser returns the six converted numbers with
  the fifth and the eighth token as they are; a string with the same first eight tokens gets
  the same response from every route (tokens after the eighth are ignored); and when the
  fifth token is not \<^verbatim>\<open>forwards\<close>, every route answers what the driver returns for the
  direction \<^verbatim>\<open>backwards\<close>, with the token echoed in place of \<^verbatim>\<open>backwards\<close>.
\<close>

theorem malformed_rejected:
  assumes "parts = split_on CHR ''_'' params"
    and "E' = E\<lparr> oscar_nc := nc, etopo_csv := etopo, reef_csv := reef,
                  uv_lats := lats, uv_lons := lons, uv_zarr := zarr \<rparr>"
  shows "(length parts < 8 \<or> py_float E (parts ! 0) = None \<or> py_float E (parts ! 1) = None \<or>
          py_int E (parts ! 2) = None \<or> py_float E (parts ! 3) = None \<or>
          py_int E (parts ! 5) = None \<or> py_int E (parts ! 6) = None \<longrightarrow>
            (case parse_params (py_float E) (py_int E) params of
               Inr p \<Rightarrow> False
             | Inl e \<Rightarrow> visualize E' params = Raised e \<and> gbr_visualize E' params = Raised e \<and>
                        api_sim E' params = JsonError e \<and> api_gbr_sim E' params = JsonError e)) \<and>
         (8 \<le> length parts \<and> py_float E (parts ! 0) = Some lon \<and> py_float E (parts ! 1) = Some lat \<and>
          py_int E (parts ! 2) = Some n \<and> py_float E (parts ! 3) = Some area \<and>
          py_int E (parts ! 5) = Some dur \<and> py_int E (parts ! 6) = Some dtt \<longrightarrow>
            parse_params (py_float E) (py_int E) params =
              Inr (lon, lat, n, area, parts ! 4, dur, dtt, parts ! 7) \<and>
            (\<forall>params'. take 8 (split_on CHR ''_'' params') = take 8 parts \<longrightarrow>
               visualize E params' = visualize E params \<and>
               gbr_visualize E params' = gbr_visualize E params \<and>
               api_sim E params' = api_sim E params \<and>
               api_gbr_sim E params' = api_gbr_sim E params) \<and>
            (parts ! 4 \<noteq> ''forwards'' \<longrightarrow>
               visualize E params =
                 page_of ''aus_lagrangian.html''
                   (echo_mSIM (parts ! 4) (simulate_aus E lon lat n area ''backwards'' dur dtt (parts ! 7) 5)) \<and>
               gbr_visualize E params =
                 page_of ''gbr_lagrangian.html''
                   (echo_mSIM (parts ! 4) (simulate_gbr E lon lat n area ''backwards'' dur dtt (parts ! 7) 5)) \<and>
               api_sim E params =
                 json_of (echo_mSIM (parts ! 4) (simulate_aus E lon lat n area ''backwards'' dur dtt (parts ! 7) 5)) \<and>
               api_gbr_sim E params =
                 json_of (echo_mSIM (parts ! 4) (simulate_gbr E lon lat n area ''backwards'' dur dtt (parts ! 7) 5))))"
proof (intro conjI impI)
  assume bad: "length parts < 8 \<or> py_float E (parts ! 0) = None \<or> py_float E (parts ! 1) = None \<or>
          py_int E (parts ! 2) = None \<or> py_float E (parts ! 3) = None \<or>
          py_int E (parts ! 5) = None \<or> py_int E (parts ! 6) = None"
  show "case parse_params (py_float E) (py_int E) params of
               Inr p \<Rightarrow> False
             | Inl e \<Rightarrow> visualize E' params = Raised e \<and> gbr_visualize E' params = Raised e \<and>
                        api_sim E' params = JsonError e \<and> api_gbr_sim E' params = JsonError e"
  proof (cases "parse_params (py_float E) (py_int E) params")
    case (Inl e)
    have p: "py_float E' = py_float E" "py_int E' = py_int E" by (simp_all add: assms(2))
    show ?thesis
      by (simp add: Inl visualize_def gbr_visualize_def api_sim_def api_gbr_sim_def p)
  next
    case (Inr x)
    from parse_params_Inr[OF Inr assms(1)] bad show ?thesis by auto
  qed
next
  assume ok: "8 \<le> length parts \<and> py_float E (parts ! 0) = Some lon \<and> py_float E (parts ! 1) = Some lat \<and>
          py_int E (parts ! 2) = Some n \<and> py_float E (parts ! 3) = Some area \<and>
          py_int E (parts ! 5) = Some dur \<and> py_int E (parts ! 6) = Some dtt"
  show pp: "parse_params (py_float E) (py_int E) params =
              Inr (lon, lat, n, area, parts ! 4, dur, dtt, parts ! 7)"
    by (rule parse_params_accept[OF assms(1)]) (use ok in simp_all)
  show "\<forall>params'. take 8 (split_on CHR ''_'' params') = take 8 parts \<longrightarrow>
               visualize E params' = visualize E params \<and>
               gbr_visualize E params' = gbr_visualize E params \<and>
               api_sim E params' = api_sim E params \<and>
               api_gbr_sim E params' = api_gbr_sim E params"
  proof (intro allI impI)
    fix params' assume t: "take 8 (split_on CHR ''_'' params') = take 8 parts"
    have "parse_params (py_float E) (py_int E) params' = parse_params (py_float E) (py_int E) params"
      by (rule parse_params_take) (use t ok assms(1) in simp_all)
    then show "visualize E params' = visualize E params \<and>
               gbr_visualize E params' = gbr_visualize E params \<and>
               api_sim E params' = api_sim E params \<and>
               api_gbr_sim E params' = api_gbr_sim E params"
      by (simp add: visualize_def gbr_visualize_def api_sim_def api_gbr_sim_def)
  qed
  assume bk: "parts ! 4 \<noteq> ''forwards''"
  show "visualize E params =
                 page_of ''aus_lagrangian.html''
                   (echo_mSIM (parts ! 4) (simulate_aus E lon lat n area ''backwards'' dur dtt (parts ! 7) 5))"
    unfolding routes_of_parse pp by (simp add: simulate_aus_back[OF bk])
  show "gbr_visualize E params =
                 page_of ''gbr_lagrangian.html''
                   (echo_mSIM (parts ! 4) (simulate_gbr E lon lat n area ''backwards'' dur dtt (parts ! 7) 5))"
    unfolding routes_of_parse pp by (simp add: simulate_gbr_back[OF bk])
  show "api_sim E params =
                 json_of (echo_mSIM (parts ! 4) (simulate_aus E lon lat n area ''backwards'' dur dtt (parts ! 7) 5))"
    unfolding routes_of_parse pp by (simp add: simulate_aus_back[OF bk])
  show "api_gbr_sim E params =
                 json_of (echo_mSIM (parts ! 4) (simulate_gbr E lon lat n area ''backwards'' dur dtt (parts ! 7) 5))"
    unfolding routes_of_parse pp by (simp add: simulate_gbr_back[OF bk])
qed

text \<open>
  A particle count that is not a number, a string of two tokens, a ninth token, and the
  direction \<^verbatim>\<open>sideways\<close>.
\<close>

theorem malformed_rejected_witness:
  "api_sim example_env ''150.5_20.3_many_2.0_forwards_10_24_2020-01-01'' = JsonError ValueError \<and>
   visualize example_env ''150.5_20.3_many_2.0_forwards_10_24_2020-01-01'' = Raised ValueError \<and>
   api_gbr_sim (example_env\<lparr> uv_zarr := Inl IOError \<rparr>) ''150.5_20.3'' = JsonError IndexError \<and>
   api_sim example_env ''150.5_20.3_4_2.0_forwards_10_24_2020-01-01_more'' =
     api_sim example_env ''150.5_20.3_4_2.0_forwards_10_24_2020-01-01'' \<and>
   api_sim example_env ''150.5_20.3_4_2.0_sideways_10_24_2020-01-01'' =
     json_of (echo_mSIM ''sideways''
       (simulate_aus example_env (Fin (301 / 2)) (Fin (203 / 10)) 4 (Fin 2) ''backwards'' 10 24
          ''2020-01-01'' 5))"
proof -
  have e: "example_env = example_env\<lparr> oscar_nc := oscar_nc example_env,
      etopo_csv := etopo_csv example_env, reef_csv := reef_csv example_env,
      uv_lats := uv_lats example_env, uv_lons := uv_lons example_env,
      uv_zarr := uv_zarr example_env \<rparr>" by simp
  have e2: "example_env\<lparr> uv_zarr := Inl IOError \<rparr> = example_env\<lparr> oscar_nc := oscar_nc example_env,
      etopo_csv := etopo_csv example_env, reef_csv := reef_csv example_env,
      uv_lats := uv_lats example_env, uv_lons := uv_lons example_env,
      uv_zarr := Inl IOError \<rparr>" by simp
  have pf: "py_float example_env = dec_float" "py_int example_env = dec_int"
    by (simp_all add: example_env_def)
  have a: "py_int example_env
             (split_on CHR ''_'' ''150.5_20.3_many_2.0_forwards_10_24_2020-01-01'' ! 2) = None"
    by (simp add: pf dec_int_def dec_nat_def is_digit_def)
  have b: "length (split_on CHR ''_'' ''150.5_20.3'') < 8" by simp
  from malformed_rejected[OF refl e, of "''150.5_20.3_many_2.0_forwards_10_24_2020-01-01''"] a
  have c1: "api_sim example_env ''150.5_20.3_many_2.0_forwards_10_24_2020-01-01'' = JsonError ValueError \<and>
    visualize example_env ''150.5_20.3_many_2.0_forwards_10_24_2020-01-01'' = Raised ValueError"
    unfolding pf parse_not_an_int by simp
  from malformed_rejected[OF refl e2, of "''150.5_20.3''"] b
  have c2: "api_gbr_sim (example_env\<lparr> uv_zarr := Inl IOError \<rparr>) ''150.5_20.3'' = JsonError IndexError"
    unfolding pf parse_too_short by simp
  have ok3: "8 \<le> length [''150.5'', ''20.3'', ''4'', ''2.0'', ''forwards'', ''10'', ''24'', ''2020-01-01''] \<and>
      py_float example_env ([''150.5'', ''20.3'', ''4'', ''2.0'', ''forwards'', ''10'', ''24'', ''2020-01-01''] ! 0) = Some (Fin (301 / 2)) \<and>
      py_float example_env ([''150.5'', ''20.3'', ''4'', ''2.0'', ''forwards'', ''10'', ''24'', ''2020-01-01''] ! 1) = Some (Fin (203 / 10)) \<and>
      py_int example_env ([''150.5'', ''20.3'', ''4'', ''2.0'', ''forwards'', ''10'', ''24'', ''2020-01-01''] ! 2) = Some 4 \<and>
      py_float example_env ([''150.5'', ''20.3'', ''4'', ''2.0'', ''forwards'', ''10'', ''24'', ''2020-01-01''] ! 3) = Some (Fin 2) \<and>
      py_int example_env ([''150.5'', ''20.3'', ''4'', ''2.0'', ''forwards'', ''10'', ''24'', ''2020-01-01''] ! 5) = Some 10 \<and>
      py_int example_env ([''150.5'', ''20.3'', ''4'', ''2.0'', ''forwards'', ''10'', ''24'', ''2020-01-01''] ! 6) = Some 24"
    by (simp add: example_tokens)
  have ok4: "8 \<le> length [''150.5'', ''20.3'', ''4'', ''2.0'', ''sideways'', ''10'', ''24'', ''2020-01-01''] \<and>
      py_float example_env ([''150.5'', ''20.3'', ''4'', ''2.0'', ''sideways'', ''10'', ''24'', ''2020-01-01''] ! 0) = Some (Fin (301 / 2)) \<and>
      py_float example_env ([''150.5'', ''20.3'', ''4'', ''2.0'', ''sideways'', ''10'', ''24'', ''2020-01-01''] ! 1) = Some (Fin (203 / 10)) \<and>
      py_int example_env ([''150.5'', ''20.3'', ''4'', ''2.0'', ''sideways'', ''10'', ''24'', ''2020-01-01''] ! 2) = Some 4 \<and>
      py_float example_env ([''150.5'', ''20.3'', ''4'', ''2.0'', ''sideways'', ''10'', ''24'', ''2020-01-01''] ! 3) = Some (Fin 2) \<and>
      py_int example_env ([''150.5'', ''20.3'', ''4'', ''2.0'', ''sideways'', ''10'', ''24'', ''2020-01-01''] ! 5) = Some 10 \<and>
      py_int example_env ([''150.5'', ''20.3'', ''4'', ''2.0'', ''sideways'', ''10'', ''24'', ''2020-01-01''] ! 6) = Some 24"
    by (simp add: example_tokens)
  note t3 = malformed_rejected[OF refl e, of "''150.5_20.3_4_2.0_forwards_10_24_2020-01-01''"
        "Fin (301 / 2)" "Fin (203 / 10)" 4 "Fin 2" 10 24, unfolded split_eight,
        THEN conjunct2, THEN mp, OF ok3, THEN conjunct2, THEN conjunct1, THEN spec,
        of "''150.5_20.3_4_2.0_forwards_10_24_2020-01-01_more''", unfolded split_nine]
  have c3: "api_sim example_env ''150.5_20.3_4_2.0_forwards_10_24_2020-01-01_more'' =
     api_sim example_env ''150.5_20.3_4_2.0_forwards_10_24_2020-01-01''"
    using t3 by simp
  note t4 = malformed_rejected[OF refl e, of "''150.5_20.3_4_2.0_sideways_10_24_2020-01-01''"
        "Fin (301 / 2)" "Fin (203 / 10)" 4 "Fin 2" 10 24, unfolded split_sideways,
        THEN conjunct2, THEN mp, OF ok4, THEN conjunct2, THEN conjunct2]
  have c4: "api_sim example_env ''150.5_20.3_4_2.0_sideways_10_24_2020-01-01'' =
     json_of (echo_mSIM ''sideways''
       (simulate_aus example_env (Fin (301 / 2)) (Fin (203 / 10)) 4 (Fin 2) ''backwards'' 10 24
          ''2020-01-01'' 5))"
    using t4 by simp
  show ?thesis using c1 c2 c3 c4 by simp
qed

text \<open>
  Claim C4 as stated fails: the direction token \<^verbatim>\<open>sideways\<close> and a string of nine tokens
  are both accepted, and a full trajectory of ten snapshots is returned.
\<close>

theorem malformed_rejected_counterexample:
  "(case api_sim example_env ''150.5_20.3_4_2.0_sideways_10_24_2020-01-01'' of
      Json r \<Rightarrow> out_mSIM r = ''sideways'' \<and> length (out_LONP r) = 10
    | _ \<Rightarrow> False) \<and>
   (case api_sim example_env ''150.5_20.3_4_2.0_forwards_10_24_2020-01-01_more'' of
      Json r \<Rightarrow> out_mSIM r = ''forwards'' \<and> length (out_LONP r) = 10
    | _ \<Rightarrow> False)"
proof -
  have pf: "py_float example_env = dec_float" "py_int example_env = dec_int"
    by (simp_all add: example_env_def)
  have "\<exists>r. simulate_aus example_env (Fin (301 / 2)) (Fin (203 / 10)) 4 (Fin 2)
      ''sideways'' 10 24 ''2020-01-01'' 5 = Inr r"
    by (rule example_total) (simp_all add: iso_date_example)
  then obtain r1 where r1: "simulate_aus example_env (Fin (301 / 2)) (Fin (203 / 10)) 4 (Fin 2)
      ''sideways'' 10 24 ''2020-01-01'' 5 = Inr r1" ..
  have "\<exists>r. simulate_aus example_env (Fin (301 / 2)) (Fin (203 / 10)) 4 (Fin 2)
      ''forwards'' 10 24 ''2020-01-01'' 5 = Inr r"
    by (rule example_total) (simp_all add: iso_date_example)
  then obtain r2 where r2: "simulate_aus example_env (Fin (301 / 2)) (Fin (203 / 10)) 4 (Fin 2)
      ''forwards'' 10 24 ''2020-01-01'' 5 = Inr r2" ..
  have a: "api_sim example_env ''150.5_20.3_4_2.0_sideways_10_24_2020-01-01'' = Json r1"
    unfolding api_sim_def pf parse_sideways by (simp add: r1)
  have b: "api_sim example_env ''150.5_20.3_4_2.0_forwards_10_24_2020-01-01_more'' = Json r2"
    unfolding api_sim_def pf parse_nine_tokens by (simp add: r2)
  show ?thesis unfolding a b
    using simulate_aus_echo[OF r1] simulate_aus_echo[OF r2]
      example_length_10[OF r1] example_length_10[OF r2] by simp
qed

text \<open>
  Claim C7. In a run that returns, take sub-step \<open>s\<close> (from 1 to \<open>sub_steps\<close>) of major step
  \<open>m\<close>, whose pair of time indices is \<open>(i1, i2)\<close>, and the interpolators of the four grids
  \<^verbatim>\<open>U[i1]\<close>, \<^verbatim>\<open>V[i1]\<close>, \<^verbatim>\<open>U[i2]\<close>, \<^verbatim>\<open>V[i2]\<close>. The snapshot that this sub-step records, number
  \<open>k = m * sub_steps + s - 1\<close> of the run, is the cloud before it moved by the displacement of
  the velocity arrays \<open>(ui, vi)\<close> of lines 93-111; and with \<open>w = s / sub_steps\<close> these arrays
  hold, for an in-bounds particle (whose coordinates are then finite), the blends
  \<open>(1 - w) * u_at_i1 + w * u_at_i2\<close> and \<open>(1 - w) * v_at_i1 + w * v_at_i2\<close> of the
  interpolators sampled at its position \<open>(lat, lon)\<close>, and 0 for an out-of-bounds particle.
\<close>

theorem blended_velocity:
  assumes run: "simulate_aus E mlon mlat mNP mAREA mSIM mDUR dt sd ND = Inr r"
    and ds: "oscar_nc E = Inr ds"
    and bnd: "np_min (ds_longitude ds) = Inr lon_min" "np_max (ds_longitude ds) = Inr lon_max"
      "np_min (ds_latitude ds) = Inr lat_min" "np_max (ds_latitude ds) = Inr lat_max"
    and ms: "major_steps mDUR ND (length (ds_time ds)) = Inr ms"
    and sub: "py_trunc_div (ND * 24) dt = Inr sub_steps"
    and m: "m < nat ms" and s: "1 \<le> s" "s \<le> sub_steps"
    and pair: "index_pair mSIM (time_idx mSIM ms (length (ds_time ds)) ! m) = (i1, i2)"
    and arrays: "U = nan_to_zero (squeeze (ds_u ds))" "V = nan_to_zero (squeeze (ds_v ds))"
    and grids: "index3 U i1 = Inr u1" "index3 U i2 = Inr u2"
      "index3 V i1 = Inr v1" "index3 V i2 = Inr v2"
    and fs: "RegularGridInterpolator E (ds_latitude ds) (ds_longitude ds) u1 = Inr f_u1"
      "RegularGridInterpolator E (ds_latitude ds) (ds_longitude ds) v1 = Inr f_v1"
      "RegularGridInterpolator E (ds_latitude ds) (ds_longitude ds) u2 = Inr f_u2"
      "RegularGridInterpolator E (ds_latitude ds) (ds_longitude ds) v2 = Inr f_v2"
    and k: "k = m * nat sub_steps + nat (s - 1)"
    and cloud: "(lons, lats) = cloud_before E mlon mlat mNP mAREA r k"
    and inb: "inb = inb_mask lon_min lon_max lat_min lat_max lons lats"
    and vel: "(ui, vi) = velocity f_u1 f_v1 f_u2 f_v2 mNP sub_steps s inb lons lats"
    and w: "w = real_of_int s / real_of_int sub_steps"
  shows "k < length (out_LONP r) \<and>
         out_LONP r ! k = advance mSIM inb lons (fst (displacement dt ui vi lats)) \<and>
         out_LATP r ! k = advance mSIM inb lats (snd (displacement dt ui vi lats)) \<and>
         (\<forall>j<nat mNP.
            (in_bounds lon_min lon_max lat_min lat_max (lons ! j) (lats ! j) \<longrightarrow>
               (\<exists>lon lat. lons ! j = Fin lon \<and> lats ! j = Fin lat \<and>
                  ui ! j = Fin ((1 - w) * f_u1 (lat, lon) + w * f_u2 (lat, lon)) \<and>
                  vi ! j = Fin ((1 - w) * f_v1 (lat, lon) + w * f_v2 (lat, lon)))) \<and>
            (\<not> in_bounds lon_min lon_max lat_min lat_max (lons ! j) (lats ! j) \<longrightarrow>
               ui ! j = Fin 0 \<and> vi ! j = Fin 0))"
proof -
  have pi: "pair_interps (RegularGridInterpolator E) (ds_latitude ds) (ds_longitude ds)
               (nan_to_zero (squeeze (ds_u ds))) (nan_to_zero (squeeze (ds_v ds)))
               (index_pair mSIM (time_idx mSIM ms (length (ds_time ds)) ! m)) =
             Inr (f_u1, f_v1, f_u2, f_v2)"
    unfolding pair by (rule pair_interps_Inr) (use grids fs in \<open>simp_all add: arrays\<close>)
  note tr = simulate_aus_trace[OF run ds bnd ms sub m s pi k, folded cloud]
  have len: "length lons = nat mNP" "length lats = nat mNP" using tr(4,5) by simp_all
  have uv: "ui = fst (velocity f_u1 f_v1 f_u2 f_v2 mNP sub_steps s inb lons lats)"
    "vi = snd (velocity f_u1 f_v1 f_u2 f_v2 mNP sub_steps s inb lons lats)"
    using vel by (metis fst_conv, metis snd_conv)
  have mv: "out_LONP r ! k = advance mSIM inb lons (fst (displacement dt ui vi lats))"
    "out_LATP r ! k = advance mSIM inb lats (snd (displacement dt ui vi lats))"
    using tr(3) unfolding sub_step_cloud_def Let_def uv inb by simp_all
  have en: "(in_bounds lon_min lon_max lat_min lat_max (lons ! j) (lats ! j) \<longrightarrow>
               (\<exists>lon lat. lons ! j = Fin lon \<and> lats ! j = Fin lat \<and>
                  ui ! j = Fin ((1 - w) * f_u1 (lat, lon) + w * f_u2 (lat, lon)) \<and>
                  vi ! j = Fin ((1 - w) * f_v1 (lat, lon) + w * f_v2 (lat, lon)))) \<and>
            (\<not> in_bounds lon_min lon_max lat_min lat_max (lons ! j) (lats ! j) \<longrightarrow>
               ui ! j = Fin 0 \<and> vi ! j = Fin 0)" if "j < nat mNP" for j
    unfolding uv inb by (rule velocity_entries[OF len that w])
  show ?thesis using tr(1) mv en by blast
qed

text \<open>
  The first sub-step of five between the snapshots of 1 m/s and of 3 m/s: the particle at
  (150, 20) gets the eastward velocity 0.8 * 1 + 0.2 * 3.
\<close>

theorem blended_velocity_witness:
  "case simulate_aus ramp_env (Fin 150) (Fin 20) 1 (Fin 0) ''forwards'' 10 24 ''2020-01-01'' 5 of
     Inl e \<Rightarrow> False
   | Inr r \<Rightarrow>
       (\<exists>ui vi. ui ! 0 = Fin (7 / 5) \<and> vi ! 0 = Fin 0 \<and>
          out_LONP r ! 0 = advance ''forwards'' [True] [Fin 150] (fst (displacement 24 ui vi [Fin 20])) \<and>
          out_LATP r ! 0 = advance ''forwards'' [True] [Fin 20] (snd (displacement 24 ui vi [Fin 20])))"
proof -
  have "\<exists>r. simulate_aus ramp_env (Fin 150) (Fin 20) 1 (Fin 0) ''forwards'' 10 24
      ''2020-01-01'' 5 = Inr r"
    by (rule ramp_total) (simp_all add: iso_date_example)
  then obtain r where r: "simulate_aus ramp_env (Fin 150) (Fin 20) 1 (Fin 0) ''forwards'' 10 24
      ''2020-01-01'' 5 = Inr r" ..
  define f1 where "f1 = linear_interp [0, 60] [140, 160] [[1, 1], [1, 1]]"
  define f3 where "f3 = linear_interp [0, 60] [140, 160] [[3, 3], [3, 3]]"
  define f0 where "f0 = linear_interp [0, 60] [140, 160] [[0, 0], [0, 0]]"
  define ui where "ui = fst (velocity f1 f0 f3 f0 1 5 1 (inb_mask 140 160 0 60 [Fin 150] [Fin 20])
      [Fin 150] [Fin 20])"
  define vi where "vi = snd (velocity f1 f0 f3 f0 1 5 1 (inb_mask 140 160 0 60 [Fin 150] [Fin 20])
      [Fin 150] [Fin 20])"
  have ms: "major_steps 10 5 (length (ds_time ramp_ds)) = Inr 2"
    by (simp add: major_steps_def py_ceil_div_def ramp_ds_def Let_def)
  have sub: "py_trunc_div (5 * 24) 24 = Inr 5"
    by (simp add: py_trunc_div_def py_int_of_float_def)
  have pair: "index_pair ''forwards'' (time_idx ''forwards'' 2 (length (ds_time ramp_ds)) ! 0) = (0, 1)"
    using time_idx_forwards[of 2 "length (ds_time ramp_ds)"]
    by (simp add: index_pair_def upt_rec)
  have cloud: "([Fin 150], [Fin 20]) = cloud_before ramp_env (Fin 150) (Fin 20) 1 (Fin 0) r 0"
    by (simp add: cloud_before_def seed_def ramp_sources)
  have inb: "inb_mask 140 160 0 60 [Fin 150] [Fin 20] = [True]"
    by (simp add: inb_mask_def in_bounds_def)
  note t = blended_velocity[where m = 0 and s = 1 and k = 0 and w = "1 / 5" and ui = ui and vi = vi
      and ?u1.0 = "[[1, 1], [1, 1]]" and ?u2.0 = "[[3, 3], [3, 3]]"
      and ?v1.0 = "[[0, 0], [0, 0]]" and ?v2.0 = "[[0, 0], [0, 0]]"
      and ?f_u1.0 = f1 and ?f_v1.0 = f0 and ?f_u2.0 = f3 and ?f_v2.0 = f0,
      OF r ramp_sources(1) ramp_bounds ms sub _ _ _ pair
      ramp_arrays[symmetric] _ _ _ _ _ _ _ _ _ cloud refl]
  have "0 < length (out_LONP r) \<and>
        out_LONP r ! 0 = advance ''forwards'' (inb_mask 140 160 0 60 [Fin 150] [Fin 20]) [Fin 150]
                           (fst (displacement 24 ui vi [Fin 20])) \<and>
        out_LATP r ! 0 = advance ''forwards'' (inb_mask 140 160 0 60 [Fin 150] [Fin 20]) [Fin 20]
                           (snd (displacement 24 ui vi [Fin 20])) \<and>
        (\<forall>j<nat 1.
            (in_bounds 140 160 0 60 ([Fin 150] ! j) ([Fin 20] ! j) \<longrightarrow>
               (\<exists>lon lat. [Fin 150] ! j = Fin lon \<and> [Fin 20] ! j = Fin lat \<and>
                  ui ! j = Fin ((1 - 1 / 5) * f1 (lat, lon) + 1 / 5 * f3 (lat, lon)) \<and>
                  vi ! j = Fin ((1 - 1 / 5) * f0 (lat, lon) + 1 / 5 * f0 (lat, lon)))) \<and>
            (\<not> in_bounds 140 160 0 60 ([Fin 150] ! j) ([Fin 20] ! j) \<longrightarrow>
               ui ! j = Fin 0 \<and> vi ! j = Fin 0))"
    by (rule t)
       (simp_all add: index3_def py_index_def numeral_3_eq_3 ramp_sources ramp_ds_def scipy_rgi_def
          f1_def f3_def f0_def ui_def vi_def)
  then have "ui ! 0 = Fin (7 / 5) \<and> vi ! 0 = Fin 0 \<and>
          out_LONP r ! 0 = advance ''forwards'' [True] [Fin 150] (fst (displacement 24 ui vi [Fin 20])) \<and>
          out_LATP r ! 0 = advance ''forwards'' [True] [Fin 20] (snd (displacement 24 ui vi [Fin 20]))"
    unfolding inb by (simp add: in_bounds_def f1_def f3_def f0_def uniform_grid_value)
  then show ?thesis unfolding r by auto
qed

end
